(* ===== verification/Prelude.thy ===== *)
theory Prelude
  imports Complex_Main
begin

text \<open>
  Shared vocabulary of the pedometer development: the Python exceptions the
  sources can raise, the result type of fallible operations, the running mean
  that both the DC blocker and the adaptive threshold compute
  (\<^verbatim>\<open>sum(w) / len(w)\<close>), and the list facts about sliding windows that the
  component theories use. Python floats are modelled as \<^typ>\<open>real\<close>: exact
  arithmetic, no rounding, no NaN and no infinities.
\<close>

section \<open>Fact collections\<close>

named_theorems sd_defs "definitions of the detector operations, unfolded together"
named_theorems sd_frame "fields of the detector that an operation leaves unchanged"
named_theorems window_simps "facts about bounded sliding windows"

section \<open>Errors and results\<close>

datatype py_error =
    IndexError | ZeroDivisionError | ValueError | TypeError | RuntimeError | NameError | OSError

type_synonym 'a result = "py_error + 'a"

abbreviation is_ok :: "'e + 'a \<Rightarrow> bool" where
  "is_ok r \<equiv> \<not> isl r"

lemma is_ok_iff: "is_ok r \<longleftrightarrow> (\<exists>v. r = Inr v)"
  by (cases r) auto

section \<open>The running mean\<close>

abbreviation mean :: "real list \<Rightarrow> real" where
  "mean xs \<equiv> sum_list xs / real (length xs)"

lemma mean_replicate [simp]: "0 < n \<Longrightarrow> mean (replicate n c) = c"
  by (simp add: sum_list_replicate)

lemma sum_list_lower: "\<forall>x\<in>set xs. a \<le> x \<Longrightarrow> real (length xs) * a \<le> sum_list xs"
  by (induction xs) (auto simp: algebra_simps)

lemma sum_list_upper: "\<forall>x\<in>set xs. x \<le> b \<Longrightarrow> sum_list xs \<le> real (length xs) * b"
  by (induction xs) (auto simp: algebra_simps)

lemma mean_lower: "xs \<noteq> [] \<Longrightarrow> \<forall>x\<in>set xs. a \<le> x \<Longrightarrow> a \<le> mean xs"
  using sum_list_lower [of xs a] by (simp add: field_simps)

lemma mean_upper: "xs \<noteq> [] \<Longrightarrow> \<forall>x\<in>set xs. x \<le> b \<Longrightarrow> mean xs \<le> b"
  using sum_list_upper [of xs b] by (simp add: field_simps)

lemma mean_const: "xs \<noteq> [] \<Longrightarrow> \<forall>x\<in>set xs. x = c \<Longrightarrow> mean xs = c"
  using mean_lower [of xs c] mean_upper [of xs c] by force

section \<open>Lists as windows\<close>

lemma length_tl_snoc [window_simps]: "length (tl (xs @ [x])) = length xs"
  by simp

lemma length_butlast_Cons [window_simps]: "length (butlast (x # xs)) = length xs"
  by simp

lemma tl_snoc [window_simps]: "xs \<noteq> [] \<Longrightarrow> tl (xs @ [x]) = tl xs @ [x]"
  by simp

lemma set_tl_snoc: "set (tl (xs @ [x])) \<subseteq> insert x (set xs)"
  by (cases xs) auto

lemma set_butlast_Cons: "set (butlast (x # xs)) \<subseteq> insert x (set xs)"
  by (auto dest: in_set_butlastD)

lemma drop_snoc_window:
  "drop (Suc (length xs) - n) (xs @ [x]) =
     (if n = 0 then [] else drop (Suc (length xs) - n) xs @ [x])"
  by (cases n) (auto simp: Suc_diff_le)

lemma all_eq_replicate: "(\<forall>y\<in>set xs. y = c) \<longleftrightarrow> xs = replicate (length xs) c"
  by (metis in_set_replicate replicate_length_same)

text \<open>Numerals as list positions and list lengths, for evaluating closed terms.\<close>

lemma replicate_numeral: "replicate (numeral k) x = x # replicate (pred_numeral k) x"
  by (simp add: numeral_eq_Suc)

lemma nth_numeral_Cons: "(x # xs) ! numeral k = xs ! pred_numeral k"
  by (simp add: numeral_eq_Suc)

end
