(* ===== verification/Deque.thy ===== *)
theory Deque
  imports Prelude
begin

text \<open>
  The bounded double-ended queue the detector keeps its three windows in
  (\<^verbatim>\<open>collections.deque(iterable, maxlen)\<close>). A deque is its contents, left to
  right, and its capacity. Appending on the right of a full deque drops the
  leftmost entry, appending on the left drops the rightmost one, a deque of
  capacity 0 ignores every append, and a negative capacity is refused with
  \<^verbatim>\<open>ValueError\<close>. The lemmas give the length invariant, the contents after each
  operation, and the closed form of construction from a list.
\<close>

section \<open>Model\<close>

record 'a deque =
  items :: "'a list"
  maxlen :: nat

definition deque_len :: "'a deque \<Rightarrow> nat" where
  "deque_len d = length (items d)"

definition deque_append :: "'a deque \<Rightarrow> 'a \<Rightarrow> 'a deque" where
  "deque_append d x =
     (if maxlen d = 0 then d
      else let ys = items d @ [x]
           in d\<lparr>items := (if maxlen d < length ys then tl ys else ys)\<rparr>)"

definition deque_appendleft :: "'a deque \<Rightarrow> 'a \<Rightarrow> 'a deque" where
  "deque_appendleft d x =
     (if maxlen d = 0 then d
      else let ys = x # items d
           in d\<lparr>items := (if maxlen d < length ys then butlast ys else ys)\<rparr>)"

definition deque_new :: "'a list \<Rightarrow> nat \<Rightarrow> 'a deque" where
  "deque_new xs n = foldl deque_append \<lparr>items = [], maxlen = n\<rparr> xs"

definition deque :: "'a list \<Rightarrow> int \<Rightarrow> 'a deque result" where
  "deque xs n = (if n < 0 then Inl ValueError else Inr (deque_new xs (nat n)))"

definition deque_clear :: "'a deque \<Rightarrow> 'a deque" where
  "deque_clear d = d\<lparr>items := []\<rparr>"

definition deque_inv :: "'a deque \<Rightarrow> bool" where
  "deque_inv d \<longleftrightarrow> length (items d) \<le> maxlen d"

definition deque_full :: "'a deque \<Rightarrow> bool" where
  "deque_full d \<longleftrightarrow> length (items d) = maxlen d"

lemmas deque_defs =
  deque_len_def deque_append_def deque_appendleft_def deque_clear_def
  deque_inv_def deque_full_def

section \<open>Capacity is never changed\<close>

lemma maxlen_append [simp]: "maxlen (deque_append d x) = maxlen d"
  by (simp add: deque_append_def Let_def)

lemma maxlen_appendleft [simp]: "maxlen (deque_appendleft d x) = maxlen d"
  by (simp add: deque_appendleft_def Let_def)

lemma maxlen_clear [simp]: "maxlen (deque_clear d) = maxlen d"
  by (simp add: deque_clear_def)

lemma maxlen_foldl_append [simp]: "maxlen (foldl deque_append d xs) = maxlen d"
  by (induction xs arbitrary: d) simp_all

lemma maxlen_new [simp]: "maxlen (deque_new xs n) = n"
  by (simp add: deque_new_def)

section \<open>Contents after each operation\<close>

lemma items_clear [simp]: "items (deque_clear d) = []"
  by (simp add: deque_clear_def)

lemma items_append_room [window_simps]:
  "length (items d) < maxlen d \<Longrightarrow> items (deque_append d x) = items d @ [x]"
  by (simp add: deque_append_def Let_def)

lemma items_append_full [window_simps]:
  "deque_full d \<Longrightarrow> 0 < maxlen d \<Longrightarrow> items (deque_append d x) = tl (items d) @ [x]"
  by (cases "items d") (auto simp: deque_append_def deque_full_def Let_def)

lemma items_appendleft_room [window_simps]:
  "length (items d) < maxlen d \<Longrightarrow> items (deque_appendleft d x) = x # items d"
  by (simp add: deque_appendleft_def Let_def)

lemma items_appendleft_full [window_simps]:
  "deque_full d \<Longrightarrow> 0 < maxlen d \<Longrightarrow> items (deque_appendleft d x) = x # butlast (items d)"
  by (cases "items d") (auto simp: deque_appendleft_def deque_full_def Let_def)

lemma items_append_zero [window_simps]: "maxlen d = 0 \<Longrightarrow> items (deque_append d x) = items d"
  by (simp add: deque_append_def)

lemma items_appendleft_zero [window_simps]:
  "maxlen d = 0 \<Longrightarrow> items (deque_appendleft d x) = items d"
  by (simp add: deque_appendleft_def)

lemma set_items_append: "set (items (deque_append d x)) \<subseteq> insert x (set (items d))"
  using set_tl_snoc [of "items d" x] by (auto simp: deque_append_def Let_def)

lemma set_items_appendleft: "set (items (deque_appendleft d x)) \<subseteq> insert x (set (items d))"
  using set_butlast_Cons [of x "items d"] by (auto simp: deque_appendleft_def Let_def)

section \<open>Length\<close>

lemma len_append:
  "deque_inv d \<Longrightarrow> deque_len (deque_append d x) = min (maxlen d) (Suc (deque_len d))"
  by (cases "items d") (auto simp: deque_defs Let_def)

lemma len_appendleft:
  "deque_inv d \<Longrightarrow> deque_len (deque_appendleft d x) = min (maxlen d) (Suc (deque_len d))"
  by (cases "items d") (auto simp: deque_defs Let_def)

lemma len_append_mono: "deque_inv d \<Longrightarrow> deque_len d \<le> deque_len (deque_append d x)"
  by (simp add: len_append) (simp add: deque_defs)

lemma full_append [simp]: "deque_full d \<Longrightarrow> deque_full (deque_append d x)"
  by (auto simp: deque_defs Let_def)

lemma full_appendleft [simp]: "deque_full d \<Longrightarrow> deque_full (deque_appendleft d x)"
  by (auto simp: deque_defs Let_def)

lemma items_appendleft_take:
  assumes "deque_inv d"
  shows "items (deque_appendleft d x) = take (maxlen d) (x # items d)"
proof (cases "maxlen d")
  case 0
  with assms show ?thesis by (simp add: deque_appendleft_def deque_inv_def)
next
  case (Suc n)
  show ?thesis
  proof (cases "length (items d) < maxlen d")
    case True
    then show ?thesis by (simp add: items_appendleft_room)
  next
    case False
    with assms Suc have "length (items d) = Suc n" by (simp add: deque_inv_def)
    with Suc show ?thesis
      by (simp add: deque_appendleft_def Let_def butlast_conv_take)
  qed
qed

lemma items_appendleft_Nil_iff:
  "items (deque_appendleft d x) = [] \<longleftrightarrow> maxlen d = 0 \<and> items d = []"
  by (cases "items d") (auto simp: deque_appendleft_def Let_def)

lemma len_append_0_iff:
  "deque_inv d \<Longrightarrow> deque_len (deque_append d x) = 0 \<longleftrightarrow> maxlen d = 0"
  by (simp add: len_append min_def)

section \<open>The invariant\<close>

lemma inv_empty [simp]: "deque_inv \<lparr>items = [], maxlen = n\<rparr>"
  by (simp add: deque_inv_def)

lemma inv_append [simp]: "deque_inv d \<Longrightarrow> deque_inv (deque_append d x)"
  using len_append [of d x] by (simp add: deque_inv_def deque_len_def)

lemma inv_appendleft [simp]: "deque_inv d \<Longrightarrow> deque_inv (deque_appendleft d x)"
  using len_appendleft [of d x] by (simp add: deque_inv_def deque_len_def)

lemma inv_clear [simp]: "deque_inv (deque_clear d)"
  by (simp add: deque_defs)

lemma inv_foldl_append: "deque_inv d \<Longrightarrow> deque_inv (foldl deque_append d xs)"
  by (induction xs arbitrary: d) simp_all

lemma inv_new [simp]: "deque_inv (deque_new xs n)"
  by (simp add: deque_new_def inv_foldl_append)

lemma full_imp_inv: "deque_full d \<Longrightarrow> deque_inv d"
  by (simp add: deque_defs)

section \<open>Construction from a list\<close>

text \<open>
  Appending the elements of \<open>xs\<close> one by one to a deque that holds \<open>ys\<close> keeps
  the last \<open>maxlen\<close> entries of \<open>ys @ xs\<close>.
\<close>

lemma items_append_drop:
  "deque_inv d \<Longrightarrow>
   items (deque_append d x) = drop (Suc (length (items d)) - maxlen d) (items d @ [x])"
  by (cases "items d") (auto simp: deque_defs Let_def Suc_diff_le)

lemma items_foldl_append:
  "deque_inv d \<Longrightarrow>
   items (foldl deque_append d xs) =
     drop (length (items d) + length xs - maxlen d) (items d @ xs)"
proof (induction xs arbitrary: d)
  case Nil
  then show ?case by (simp add: deque_inv_def)
next
  case (Cons x xs)
  let ?d = "deque_append d x"
  have IH: "items (foldl deque_append ?d xs) =
      drop (length (items ?d) + length xs - maxlen d) (items ?d @ xs)"
    using Cons.IH [of ?d] Cons.prems by simp
  show ?case
  proof (cases "length (items d) < maxlen d")
    case True
    then show ?thesis using IH by (simp add: items_append_room)
  next
    case False
    with Cons.prems have full: "deque_full d"
      by (simp add: deque_defs)
    show ?thesis
    proof (cases "maxlen d = 0")
      case True
      with full IH show ?thesis by (simp add: items_append_zero deque_full_def)
    next
      case False
      with full have "items ?d = tl (items d) @ [x]" and "items d \<noteq> []"
        by (auto simp: items_append_full deque_full_def)
      with full IH show ?thesis
        by (cases "items d") (simp_all add: deque_full_def)
    qed
  qed
qed

lemma items_new: "items (deque_new xs n) = drop (length xs - n) xs"
  by (simp add: deque_new_def items_foldl_append)

lemma items_new_fits [simp]: "length xs \<le> n \<Longrightarrow> items (deque_new xs n) = xs"
  by (simp add: items_new)

lemma new_eq: "deque_new xs n = \<lparr>items = drop (length xs - n) xs, maxlen = n\<rparr>"
  by (rule deque.equality) (simp_all add: items_new)

end
