(* ===== verification/Signal.thy ===== *)
theory Signal
  imports Prelude
begin

text \<open>
  The stateless signal-conditioning functions of \<^verbatim>\<open>StepDetector\<close>
  (\<^verbatim>\<open>src/step_detector.py\<close>, lines 23 to 41): the Euclidean norm of a sample,
  DC blocking against the mean of a window, the fixed seven-tap low-pass
  kernel with its fallback for short buffers, and the slope sign. Windows are
  passed as the list of their entries, left to right. The lemmas give the
  kernel's unity gain and its bound, the scaling that the self-inclusive mean
  introduces, and the tie-break of the slope sign. What the low-pass stage
  does to a signal is in theory \<open>Lowpass\<close>.
\<close>

section \<open>Definitions\<close>

definition norm3 :: "real \<Rightarrow> real \<Rightarrow> real \<Rightarrow> real" where
  "norm3 ax ay az = sqrt (ax\<^sup>2 + ay\<^sup>2 + az\<^sup>2)"

definition block_dc :: "real \<Rightarrow> real list \<Rightarrow> real" where
  "block_dc sample window =
     (if window = [] then 0
      else let window_sum = sum_list window;
               window_avg = window_sum / real (length window)
           in sample - window_avg)"

definition lp_filter :: "real list \<Rightarrow> real result" where
  "lp_filter buf =
     (if length buf < 7
      then (if buf = [] then Inl IndexError else Inr (last buf))
      else Inr ((buf ! 0 + 2 * buf ! 1 + 3 * buf ! 2 + 4 * buf ! 3
                 + 3 * buf ! 4 + 2 * buf ! 5 + buf ! 6) / 16))"

definition sign_of_slope :: "real \<Rightarrow> real \<Rightarrow> int" where
  "sign_of_slope prev current = (if current > prev then 1 else - 1)"

section \<open>The norm\<close>

lemma norm3_nonneg [simp]: "0 \<le> norm3 ax ay az"
  by (simp add: norm3_def)

lemma norm3_axis [simp]: "norm3 0 0 z = \<bar>z\<bar>"
  by (simp add: norm3_def)

lemma norm3_eq_0_iff: "norm3 ax ay az = 0 \<longleftrightarrow> ax = 0 \<and> ay = 0 \<and> az = 0"
  by (auto simp: norm3_def add_nonneg_eq_0_iff)

lemma norm3_ge_component: "\<bar>ax\<bar> \<le> norm3 ax ay az"
proof -
  have "sqrt (ax\<^sup>2) \<le> sqrt (ax\<^sup>2 + ay\<^sup>2 + az\<^sup>2)"
    by (rule real_sqrt_le_mono) simp
  then show ?thesis by (simp add: norm3_def)
qed

text \<open>
  The norm is homogeneous: scaling the three components of a sample by \<open>c\<close>
  scales \<^verbatim>\<open>norm\<close> by \<open>\<bar>c\<bar>\<close>.
\<close>

lemma norm3_scale: "norm3 (c * ax) (c * ay) (c * az) = \<bar>c\<bar> * norm3 ax ay az"
proof -
  have "(c * ax)\<^sup>2 + (c * ay)\<^sup>2 + (c * az)\<^sup>2 = c\<^sup>2 * (ax\<^sup>2 + ay\<^sup>2 + az\<^sup>2)"
    by (simp add: algebra_simps)
  then show ?thesis by (simp add: norm3_def real_sqrt_mult)
qed

section \<open>DC blocking\<close>

lemma block_dc_empty [simp]: "block_dc x [] = 0"
  by (simp add: block_dc_def)

lemma block_dc_mean: "w \<noteq> [] \<Longrightarrow> block_dc x w = x - mean w"
  by (simp add: block_dc_def)

lemma block_dc_const: "\<forall>y\<in>set w. y = x \<Longrightarrow> block_dc x w = 0"
  by (cases "w = []") (simp_all add: block_dc_mean mean_const)

lemma block_dc_replicate [simp]: "block_dc x (replicate n x) = 0"
  by (rule block_dc_const) simp

text \<open>
  C34. \<^verbatim>\<open>block_dc\<close> is called with a window that already holds the sample.
  Against the mean of the \<open>n\<close> earlier entries alone, the blocked value is
  scaled by \<open>n / (n + 1)\<close>: the self-inclusive mean damps the signal, it does
  not shift it.
\<close>

theorem block_dc_self_inclusive:
  assumes "w \<noteq> []"
  shows "block_dc x (w @ [x]) = real (length w) / real (Suc (length w)) * (x - mean w)"
proof -
  define n and S where "n = real (length w)" and "S = sum_list w"
  have n: "0 < n" using assms by (simp add: n_def)
  have "block_dc x (w @ [x]) = x - (S + x) / (n + 1)"
    by (simp add: block_dc_mean n_def S_def add.commute)
  also have "\<dots> = (n * x - S) / (n + 1)"
    using n by (simp add: field_simps)
  also have "\<dots> = n / (n + 1) * (x - S / n)"
  proof -
    have "n * (x - S / n) = n * x - S"
      using n by (simp add: algebra_simps)
    then show ?thesis by simp
  qed
  finally show ?thesis by (simp add: n_def S_def add.commute)
qed

theorem block_dc_self_inclusive_witness:
  "[1, 2, 3] \<noteq> ([] :: real list)
   \<and> block_dc 6 ([1, 2, 3] @ [6]) = real (length [1, 2, 3 :: real]) / real (Suc (length [1, 2, 3 :: real])) * (6 - mean [1, 2, 3])
   \<and> block_dc 6 [1, 2, 3, 6] = 3"
  using block_dc_self_inclusive [of "[1, 2, 3]" 6] by simp

lemma block_dc_bounds:
  assumes "w \<noteq> []" and "\<forall>y\<in>set w. a \<le> y \<and> y \<le> b" and "a \<le> x" and "x \<le> b"
  shows "\<bar>block_dc x w\<bar> \<le> b - a"
proof -
  have "a \<le> mean w" and "mean w \<le> b"
    using assms by (auto intro: mean_lower mean_upper)
  with assms(3,4) show ?thesis
    by (simp add: block_dc_mean assms(1) abs_le_iff)
qed

section \<open>The low-pass kernel\<close>

lemma lp_filter_empty [simp]: "lp_filter [] = Inl IndexError"
  by (simp add: lp_filter_def)

lemma lp_filter_short: "buf \<noteq> [] \<Longrightarrow> length buf < 7 \<Longrightarrow> lp_filter buf = Inr (last buf)"
  by (simp add: lp_filter_def)

lemma lp_filter_taps [simp]:
  "lp_filter (w0 # w1 # w2 # w3 # w4 # w5 # w6 # rest) =
     Inr ((w0 + 2 * w1 + 3 * w2 + 4 * w3 + 3 * w4 + 2 * w5 + w6) / 16)"
  by (simp add: lp_filter_def nth_numeral_Cons)

lemma lp_filter_ok_iff: "is_ok (lp_filter buf) \<longleftrightarrow> buf \<noteq> []"
  by (auto simp: lp_filter_def)

lemma lp_filter_error_iff: "lp_filter buf = Inl e \<longleftrightarrow> buf = [] \<and> e = IndexError"
  by (auto simp: lp_filter_def)

lemma seven_taps:
  assumes "\<not> length buf < 7"
  obtains w0 w1 w2 w3 w4 w5 w6 rest
  where "buf = w0 # w1 # w2 # w3 # w4 # w5 # w6 # rest"
  using assms by (auto simp: not_less numeral_eq_Suc Suc_le_length_iff)

text \<open>Unity gain: a window whose entries all equal \<open>c\<close> is filtered to \<open>c\<close>.\<close>

lemma lp_filter_const:
  assumes "buf \<noteq> []" and "\<forall>y\<in>set buf. y = c"
  shows "lp_filter buf = Inr c"
proof (cases "length buf < 7")
  case True
  with assms show ?thesis by (simp add: lp_filter_short)
next
  case False
  then obtain w0 w1 w2 w3 w4 w5 w6 rest
    where "buf = w0 # w1 # w2 # w3 # w4 # w5 # w6 # rest"
    by (rule seven_taps)
  with assms(2) show ?thesis by simp
qed

text \<open>The output is a weighted average, so it lies where the entries lie.\<close>

lemma lp_filter_bounds:
  assumes "lp_filter buf = Inr y" and "\<forall>x\<in>set buf. a \<le> x \<and> x \<le> b"
  shows "a \<le> y \<and> y \<le> b"
proof (cases "length buf < 7")
  case True
  with assms(1) have "buf \<noteq> []" and "y = last buf"
    by (auto simp: lp_filter_def split: if_splits)
  with assms(2) show ?thesis by simp
next
  case False
  then obtain w0 w1 w2 w3 w4 w5 w6 rest
    where "buf = w0 # w1 # w2 # w3 # w4 # w5 # w6 # rest"
    by (rule seven_taps)
  with assms show ?thesis by auto
qed

text \<open>
  C32. The filter never amplifies: when every entry of the window is at most
  \<open>b\<close> in magnitude, so is the value \<^verbatim>\<open>lp_filter\<close> returns, on the kernel branch
  and on the short-buffer branch alike.
\<close>

theorem lp_filter_abs_bound:
  assumes "lp_filter buf = Inr y" and "\<forall>x\<in>set buf. \<bar>x\<bar> \<le> b"
  shows "\<bar>y\<bar> \<le> b"
proof -
  from assms(2) have "\<forall>x\<in>set buf. - b \<le> x \<and> x \<le> b"
    by (auto simp: abs_le_iff)
  with assms(1) have "- b \<le> y \<and> y \<le> b"
    by (rule lp_filter_bounds)
  then show ?thesis by (simp add: abs_le_iff)
qed

theorem lp_filter_abs_bound_witness:
  "lp_filter [3, - 3, 3, 3, 3, - 3, 3] = Inr (3 / 2)
   \<and> list_all (\<lambda>x. \<bar>x\<bar> \<le> 3) [3, - 3, 3, 3, 3, - 3, 3 :: real]
   \<and> \<bar>3 / 2 :: real\<bar> \<le> 3"
  using lp_filter_abs_bound [of "[3, - 3, 3, 3, 3, - 3, 3]" "3 / 2" 3] by simp

text \<open>
  Unity gain: a window of any positive length whose entries all equal
  \<open>c\<close> is filtered to \<open>c\<close> (the seven weights sum to 16).
\<close>

lemma lp_filter_unity_gain:
  assumes "0 < n"
  shows "lp_filter (replicate n c) = Inr c"
  using assms by (intro lp_filter_const) auto

section \<open>The slope sign\<close>

lemma sign_of_slope_cases: "sign_of_slope a b = 1 \<or> sign_of_slope a b = - 1"
  by (simp add: sign_of_slope_def)

lemma sign_of_slope_rising [simp]: "sign_of_slope a b = 1 \<longleftrightarrow> a < b"
  by (simp add: sign_of_slope_def)

lemma sign_of_slope_falling [simp]: "sign_of_slope a b = - 1 \<longleftrightarrow> b \<le> a"
  by (simp add: sign_of_slope_def)

lemma sign_of_slope_tie: "sign_of_slope a a = - 1"
  by simp

end
