(* ===== verification/Detector.thy ===== *)
theory Detector
  imports Deque Signal
begin

text \<open>
  The class \<^verbatim>\<open>StepDetector\<close> of \<^verbatim>\<open>src/step_detector.py\<close>: its fields as the
  record \<open>step_detector\<close>, the constructor, \<^verbatim>\<open>process_sample\<close> with every early
  return and both exceptions it can raise, and the manual controls
  \<^verbatim>\<open>get_step_count\<close>, \<^verbatim>\<open>reset\<close>, \<^verbatim>\<open>reset_step_count\<close> and \<^verbatim>\<open>add_step\<close>.
  A method that mutates \<^verbatim>\<open>self\<close> takes the detector and returns the updated
  one. An exception leaves the fields written before it was raised, so a
  failing call returns the error together with the detector as it then is.
  The body of \<^verbatim>\<open>process_sample\<close> is split at its two early returns into
  \<open>condition_sample\<close> (lines 46 to 50), \<open>detect\<close> (lines 78 to 103) and
  \<open>track_sample\<close> (lines 58 to 106).
\<close>

section \<open>State\<close>

record step_detector =
  norm_window_size :: nat
  lp_filter_size :: nat
  threshold_window_size :: nat
  min_step_amplitude :: real
  norm_buffer :: "real deque"
  lp_filter_buffer :: "real deque"
  threshold_buffer :: "real deque"
  last_filtered :: real
  last_slope :: int
  last_peak :: int
  peak_pair :: "int list"
  step_count :: int

type_synonym outcome = "(py_error \<times> step_detector) + step_detector"

section \<open>Construction\<close>

definition StepDetector :: "int \<Rightarrow> int \<Rightarrow> int \<Rightarrow> real \<Rightarrow> step_detector result" where
  "StepDetector nws lfs tws amp =
     (case deque [] nws of
        Inl e \<Rightarrow> Inl e
      | Inr nb \<Rightarrow>
         (case deque (replicate 7 0) lfs of
            Inl e \<Rightarrow> Inl e
          | Inr lb \<Rightarrow>
             (case deque [] tws of
                Inl e \<Rightarrow> Inl e
              | Inr tb \<Rightarrow>
                  Inr \<lparr>norm_window_size = nat nws, lp_filter_size = nat lfs,
                       threshold_window_size = nat tws, min_step_amplitude = amp,
                       norm_buffer = nb, lp_filter_buffer = lb, threshold_buffer = tb,
                       last_filtered = 0, last_slope = 0, last_peak = 0,
                       peak_pair = [0, 0], step_count = 0\<rparr>)))"

definition default_detector :: step_detector where
  "default_detector = projr (StepDetector 20 7 10 (8 / 10))"

section \<open>Processing one sample\<close>

definition condition_sample :: "step_detector \<Rightarrow> real \<Rightarrow> step_detector" where
  "condition_sample s new_sample =
     (let s1 = s\<lparr>norm_buffer := deque_append (norm_buffer s) new_sample\<rparr>;
          dc_blocked_sample = block_dc new_sample (items (norm_buffer s1))
      in s1\<lparr>lp_filter_buffer := deque_appendleft (lp_filter_buffer s1) dc_blocked_sample\<rparr>)"

definition peak_candidate_of :: "int \<Rightarrow> int \<Rightarrow> int option" where
  "peak_candidate_of slope prev_slope =
     (if slope = - 1 \<and> prev_slope = 1 then Some 1
      else if slope = 1 \<and> prev_slope = - 1 then Some (- 1)
      else None)"

definition confirm_peak :: "step_detector \<Rightarrow> int \<Rightarrow> real \<Rightarrow> real \<Rightarrow> step_detector" where
  "confirm_peak s peak_candidate filtered_sample threshold =
     (if peak_candidate = 1 \<and> last_peak s = - 1 then
        (if filtered_sample > threshold \<and> filtered_sample > min_step_amplitude s
         then s\<lparr>peak_pair := (peak_pair s)[0 := peak_candidate], last_peak := peak_candidate\<rparr>
         else s)
      else if peak_candidate = - 1 \<and> last_peak s = 1 then
        (if filtered_sample < threshold \<and> filtered_sample < - min_step_amplitude s
         then s\<lparr>peak_pair := (peak_pair s)[1 := peak_candidate], last_peak := peak_candidate\<rparr>
         else s)
      else if last_peak s = 0 then
        (if peak_candidate = 1 \<and> filtered_sample > min_step_amplitude s
         then s\<lparr>last_peak := peak_candidate\<rparr>
         else if peak_candidate = - 1 \<and> filtered_sample < - min_step_amplitude s
         then s\<lparr>last_peak := peak_candidate\<rparr>
         else s)
      else s)"

definition count_pair :: "step_detector \<Rightarrow> step_detector" where
  "count_pair s =
     (if peak_pair s ! 0 * peak_pair s ! 1 = - 1
      then s\<lparr>step_count := step_count s + 1, peak_pair := [0, 0]\<rparr>
      else s)"

definition detect :: "step_detector \<Rightarrow> int option \<Rightarrow> real \<Rightarrow> real \<Rightarrow> step_detector" where
  "detect s peak_candidate filtered_sample threshold =
     (case peak_candidate of
        None \<Rightarrow> s
      | Some c \<Rightarrow> count_pair (confirm_peak s c filtered_sample threshold))"

definition track_sample :: "step_detector \<Rightarrow> real \<Rightarrow> outcome" where
  "track_sample s filtered_sample =
     (let slope = sign_of_slope (last_filtered s) filtered_sample;
          s3 = s\<lparr>threshold_buffer := deque_append (threshold_buffer s) filtered_sample\<rparr>
      in if deque_len (threshold_buffer s3) = 0 then Inl (ZeroDivisionError, s3)
         else
           let threshold = sum_list (items (threshold_buffer s3))
                             / real (deque_len (threshold_buffer s3));
               peak_candidate = peak_candidate_of slope (last_slope s3)
           in if deque_len (norm_buffer s3) < norm_window_size s3
                 \<or> deque_len (threshold_buffer s3) < threshold_window_size s3
              then Inr (s3\<lparr>last_filtered := filtered_sample, last_slope := slope\<rparr>)
              else Inr ((detect s3 peak_candidate filtered_sample threshold)
                         \<lparr>last_filtered := filtered_sample, last_slope := slope\<rparr>))"

definition process_norm :: "step_detector \<Rightarrow> real \<Rightarrow> outcome" where
  "process_norm s new_sample =
     (let s2 = condition_sample s new_sample
      in if deque_len (lp_filter_buffer s2) < lp_filter_size s2 then Inr s2
         else case lp_filter (items (lp_filter_buffer s2)) of
                Inl e \<Rightarrow> Inl (e, s2)
              | Inr filtered_sample \<Rightarrow> track_sample s2 filtered_sample)"

definition process_sample :: "step_detector \<Rightarrow> real \<Rightarrow> real \<Rightarrow> real \<Rightarrow> outcome" where
  "process_sample s ax ay az = process_norm s (norm3 ax ay az)"

section \<open>Manual controls\<close>

definition get_step_count :: "step_detector \<Rightarrow> int" where
  "get_step_count s = step_count s"

definition reset :: "step_detector \<Rightarrow> step_detector" where
  "reset s =
     s\<lparr>norm_buffer := deque_clear (norm_buffer s),
       lp_filter_buffer := deque_new (replicate 7 0) 7,
       threshold_buffer := deque_clear (threshold_buffer s),
       last_filtered := 0, last_slope := 0, last_peak := 0,
       peak_pair := [0, 0], step_count := 0\<rparr>"

definition reset_step_count :: "step_detector \<Rightarrow> step_detector" where
  "reset_step_count s = s\<lparr>step_count := 0\<rparr>"

definition add_step :: "step_detector \<Rightarrow> step_detector" where
  "add_step s = s\<lparr>step_count := step_count s + 1\<rparr>"

definition state_of :: "outcome \<Rightarrow> step_detector" where
  "state_of r = (case r of Inl (e, s) \<Rightarrow> s | Inr s \<Rightarrow> s)"

lemmas [sd_defs] =
  condition_sample_def peak_candidate_of_def confirm_peak_def count_pair_def detect_def
  track_sample_def process_norm_def process_sample_def
  get_step_count_def reset_def reset_step_count_def add_step_def

lemma state_of_simps [simp]: "state_of (Inl (e, s)) = s" "state_of (Inr s) = s"
  by (simp_all add: state_of_def)

section \<open>Construction either fails with ValueError or yields the initial state\<close>

lemma deque_error_iff: "deque xs n = Inl e \<longleftrightarrow> n < 0 \<and> e = ValueError"
  by (auto simp: deque_def)

lemma deque_ok: "0 \<le> n \<Longrightarrow> deque xs n = Inr (deque_new xs (nat n))"
  by (simp add: deque_def)

text \<open>
  C16. Construction fails exactly when one of the three sizes is negative, and
  then with \<^verbatim>\<open>ValueError\<close> (raised by the deque constructor); the amplitude is
  never checked.
\<close>

theorem StepDetector_error_iff:
  "StepDetector nws lfs tws amp = Inl e \<longleftrightarrow> (nws < 0 \<or> lfs < 0 \<or> tws < 0) \<and> e = ValueError"
  by (auto simp: StepDetector_def deque_def)

lemma StepDetector_ok:
  "0 \<le> nws \<Longrightarrow> 0 \<le> lfs \<Longrightarrow> 0 \<le> tws \<Longrightarrow>
   StepDetector nws lfs tws amp =
     Inr \<lparr>norm_window_size = nat nws, lp_filter_size = nat lfs,
          threshold_window_size = nat tws, min_step_amplitude = amp,
          norm_buffer = \<lparr>items = [], maxlen = nat nws\<rparr>,
          lp_filter_buffer = \<lparr>items = replicate (min 7 (nat lfs)) 0, maxlen = nat lfs\<rparr>,
          threshold_buffer = \<lparr>items = [], maxlen = nat tws\<rparr>,
          last_filtered = 0, last_slope = 0, last_peak = 0,
          peak_pair = [0, 0], step_count = 0\<rparr>"
  by (simp add: StepDetector_def deque_ok new_eq min_def)

lemma StepDetector_InrD:
  "StepDetector nws lfs tws amp = Inr s \<Longrightarrow> 0 \<le> nws \<and> 0 \<le> lfs \<and> 0 \<le> tws"
  by (auto simp: StepDetector_def deque_def split: if_splits)

lemma StepDetector_fields:
  assumes "StepDetector nws lfs tws amp = Inr s"
  shows "s = \<lparr>norm_window_size = nat nws, lp_filter_size = nat lfs,
          threshold_window_size = nat tws, min_step_amplitude = amp,
          norm_buffer = \<lparr>items = [], maxlen = nat nws\<rparr>,
          lp_filter_buffer = \<lparr>items = replicate (min 7 (nat lfs)) 0, maxlen = nat lfs\<rparr>,
          threshold_buffer = \<lparr>items = [], maxlen = nat tws\<rparr>,
          last_filtered = 0, last_slope = 0, last_peak = 0,
          peak_pair = [0, 0], step_count = 0\<rparr>"
proof -
  from assms have "0 \<le> nws" "0 \<le> lfs" "0 \<le> tws"
    by (auto dest: StepDetector_InrD)
  from StepDetector_ok [OF this, of amp] assms show ?thesis by simp
qed

lemma default_detector_eq:
  "default_detector =
     \<lparr>norm_window_size = 20, lp_filter_size = 7, threshold_window_size = 10,
      min_step_amplitude = 8 / 10,
      norm_buffer = \<lparr>items = [], maxlen = 20\<rparr>,
      lp_filter_buffer = \<lparr>items = [0, 0, 0, 0, 0, 0, 0], maxlen = 7\<rparr>,
      threshold_buffer = \<lparr>items = [], maxlen = 10\<rparr>,
      last_filtered = 0, last_slope = 0, last_peak = 0,
      peak_pair = [0, 0], step_count = 0\<rparr>"
  by (simp add: default_detector_def StepDetector_ok numeral_eq_Suc)

lemma default_detector_fresh: "StepDetector 20 7 10 (8 / 10) = Inr default_detector"
  by (simp add: default_detector_def StepDetector_ok)

section \<open>Fields an operation does not write\<close>

lemma condition_sample_frame [simp, sd_frame]:
  "norm_window_size (condition_sample s x) = norm_window_size s"
  "lp_filter_size (condition_sample s x) = lp_filter_size s"
  "threshold_window_size (condition_sample s x) = threshold_window_size s"
  "min_step_amplitude (condition_sample s x) = min_step_amplitude s"
  "threshold_buffer (condition_sample s x) = threshold_buffer s"
  "last_filtered (condition_sample s x) = last_filtered s"
  "last_slope (condition_sample s x) = last_slope s"
  "last_peak (condition_sample s x) = last_peak s"
  "peak_pair (condition_sample s x) = peak_pair s"
  "step_count (condition_sample s x) = step_count s"
  by (simp_all add: condition_sample_def Let_def)

lemma condition_sample_buffers [simp]:
  "norm_buffer (condition_sample s x) = deque_append (norm_buffer s) x"
  "lp_filter_buffer (condition_sample s x) =
     deque_appendleft (lp_filter_buffer s)
       (block_dc x (items (deque_append (norm_buffer s) x)))"
  by (simp_all add: condition_sample_def Let_def)

lemma confirm_peak_frame [simp, sd_frame]:
  "norm_window_size (confirm_peak s c f t) = norm_window_size s"
  "lp_filter_size (confirm_peak s c f t) = lp_filter_size s"
  "threshold_window_size (confirm_peak s c f t) = threshold_window_size s"
  "min_step_amplitude (confirm_peak s c f t) = min_step_amplitude s"
  "norm_buffer (confirm_peak s c f t) = norm_buffer s"
  "lp_filter_buffer (confirm_peak s c f t) = lp_filter_buffer s"
  "threshold_buffer (confirm_peak s c f t) = threshold_buffer s"
  "last_filtered (confirm_peak s c f t) = last_filtered s"
  "last_slope (confirm_peak s c f t) = last_slope s"
  "step_count (confirm_peak s c f t) = step_count s"
  by (simp_all add: confirm_peak_def)

lemma count_pair_frame [simp, sd_frame]:
  "norm_window_size (count_pair s) = norm_window_size s"
  "lp_filter_size (count_pair s) = lp_filter_size s"
  "threshold_window_size (count_pair s) = threshold_window_size s"
  "min_step_amplitude (count_pair s) = min_step_amplitude s"
  "norm_buffer (count_pair s) = norm_buffer s"
  "lp_filter_buffer (count_pair s) = lp_filter_buffer s"
  "threshold_buffer (count_pair s) = threshold_buffer s"
  "last_filtered (count_pair s) = last_filtered s"
  "last_slope (count_pair s) = last_slope s"
  "last_peak (count_pair s) = last_peak s"
  by (simp_all add: count_pair_def)

lemma detect_frame [simp, sd_frame]:
  "norm_window_size (detect s c f t) = norm_window_size s"
  "lp_filter_size (detect s c f t) = lp_filter_size s"
  "threshold_window_size (detect s c f t) = threshold_window_size s"
  "min_step_amplitude (detect s c f t) = min_step_amplitude s"
  "norm_buffer (detect s c f t) = norm_buffer s"
  "lp_filter_buffer (detect s c f t) = lp_filter_buffer s"
  "threshold_buffer (detect s c f t) = threshold_buffer s"
  "last_filtered (detect s c f t) = last_filtered s"
  "last_slope (detect s c f t) = last_slope s"
  by (simp_all add: detect_def split: option.split)

lemma detect_None [simp]: "detect s None f t = s"
  by (simp add: detect_def)

lemma track_sample_frame [simp, sd_frame]:
  "norm_window_size (state_of (track_sample s f)) = norm_window_size s"
  "lp_filter_size (state_of (track_sample s f)) = lp_filter_size s"
  "threshold_window_size (state_of (track_sample s f)) = threshold_window_size s"
  "min_step_amplitude (state_of (track_sample s f)) = min_step_amplitude s"
  "norm_buffer (state_of (track_sample s f)) = norm_buffer s"
  "lp_filter_buffer (state_of (track_sample s f)) = lp_filter_buffer s"
  "threshold_buffer (state_of (track_sample s f)) = deque_append (threshold_buffer s) f"
  by (simp_all add: track_sample_def Let_def)

lemma process_norm_frame [simp, sd_frame]:
  "norm_window_size (state_of (process_norm s x)) = norm_window_size s"
  "lp_filter_size (state_of (process_norm s x)) = lp_filter_size s"
  "threshold_window_size (state_of (process_norm s x)) = threshold_window_size s"
  "min_step_amplitude (state_of (process_norm s x)) = min_step_amplitude s"
  "norm_buffer (state_of (process_norm s x)) = deque_append (norm_buffer s) x"
  by (simp_all add: process_norm_def Let_def split: sum.split)

section \<open>The tie-break\<close>

text \<open>
  Two equal consecutive filtered values count as falling. A plateau right
  after a rise therefore raises a maximum candidate, a plateau after a fall
  raises none, and before the first slope is recorded (\<^verbatim>\<open>last_slope = 0\<close>) no
  candidate is raised at all.
\<close>

lemma slope_tie_break:
  "sign_of_slope f f = - 1
   \<and> peak_candidate_of (sign_of_slope f f) 1 = Some 1
   \<and> peak_candidate_of (sign_of_slope f f) (- 1) = None
   \<and> peak_candidate_of (sign_of_slope g f) 0 = None"
  by (simp add: peak_candidate_of_def sign_of_slope_def)

end
