(* ===== verification/Peak_Machine.thy ===== *)
theory Peak_Machine
  imports Prelude
begin

text \<open>
  The abstract specification of peak confirmation and step pairing: a machine
  with five phases that reads, for every sample on which the peak logic runs,
  what kind of extremum candidate the sample is and which gates it clears.
  The phases stand for the values that \<^verbatim>\<open>last_peak\<close> and \<^verbatim>\<open>peak_pair\<close> take
  together. The machine is given twice, as an inductive step relation and as
  an executable function, with their equivalence. Its run counts the confirmed
  peaks and the steps; the main fact is that, from the idle phase, the number
  of steps is the number of confirmed peaks after the first one, halved.
  Theory \<open>Detector_Inv\<close> shows that \<^verbatim>\<open>process_sample\<close> implements this machine.
\<close>

section \<open>Phases and observations\<close>

datatype phase =
    Idle       \<comment> \<open>no peak confirmed yet\<close>
  | MaxSeen    \<comment> \<open>last confirmed peak is a maximum, no marker stored\<close>
  | MaxHeld    \<comment> \<open>last confirmed peak is a maximum, its marker is stored\<close>
  | MinSeen    \<comment> \<open>last confirmed peak is a minimum, no marker stored\<close>
  | MinHeld    \<comment> \<open>last confirmed peak is a minimum, its marker is stored\<close>

datatype extremum = Maximum | Minimum

datatype obs =
    Quiet                        \<comment> \<open>the slope sign did not flip\<close>
  | Peak extremum bool bool      \<comment> \<open>candidate, clears the noise floor, clears the threshold\<close>

section \<open>The step relation\<close>

inductive pm_step :: "phase \<Rightarrow> obs \<Rightarrow> bool \<Rightarrow> phase \<Rightarrow> bool" where
  first_max: "pm_step Idle (Peak Maximum True thr) False MaxSeen"
| first_min: "pm_step Idle (Peak Minimum True thr) False MinSeen"
| max_after_min: "pm_step MinSeen (Peak Maximum True True) False MaxHeld"
| min_after_max: "pm_step MaxSeen (Peak Minimum True True) False MinHeld"
| step_on_max: "pm_step MinHeld (Peak Maximum True True) True MaxSeen"
| step_on_min: "pm_step MaxHeld (Peak Minimum True True) True MinSeen"
| quiet: "pm_step p Quiet False p"
| below_floor: "pm_step p (Peak k False thr) False p"
| below_threshold: "p \<noteq> Idle \<Longrightarrow> pm_step p (Peak k True False) False p"
| same_kind_max: "p = MaxSeen \<or> p = MaxHeld \<Longrightarrow> pm_step p (Peak Maximum True True) False p"
| same_kind_min: "p = MinSeen \<or> p = MinHeld \<Longrightarrow> pm_step p (Peak Minimum True True) False p"

inductive_cases pm_step_IdleE: "pm_step Idle e b p'"
inductive_cases pm_step_QuietE: "pm_step p Quiet b p'"
inductive_cases pm_step_countE: "pm_step p e True p'"

section \<open>The step function\<close>

fun pm_next :: "phase \<Rightarrow> obs \<Rightarrow> phase \<times> bool" where
  "pm_next Idle (Peak Maximum True thr) = (MaxSeen, False)"
| "pm_next Idle (Peak Minimum True thr) = (MinSeen, False)"
| "pm_next MinSeen (Peak Maximum True True) = (MaxHeld, False)"
| "pm_next MaxSeen (Peak Minimum True True) = (MinHeld, False)"
| "pm_next MinHeld (Peak Maximum True True) = (MaxSeen, True)"
| "pm_next MaxHeld (Peak Minimum True True) = (MinSeen, True)"
| "pm_next p e = (p, False)"

definition confirms :: "phase \<Rightarrow> obs \<Rightarrow> bool" where
  "confirms p e \<longleftrightarrow> fst (pm_next p e) \<noteq> p"

lemma pm_next_below_floor [simp]: "pm_next p (Peak k False thr) = (p, False)"
  by (cases p; cases k; cases thr) simp_all

lemma pm_next_below_threshold [simp]: "p \<noteq> Idle \<Longrightarrow> pm_next p (Peak k True False) = (p, False)"
  by (cases p; cases k) simp_all

lemma pm_step_next: "pm_step p e b p' \<Longrightarrow> pm_next p e = (p', b)"
  by (induction rule: pm_step.induct) auto

lemma pm_next_step: "pm_step p e (snd (pm_next p e)) (fst (pm_next p e))"
proof (cases e)
  case Quiet
  then show ?thesis by (cases p) (simp_all add: pm_step.quiet)
next
  case (Peak k fl thr)
  then show ?thesis
    by (cases p; cases k; cases fl; cases thr) (auto intro: pm_step.intros)
qed

lemma pm_step_iff: "pm_step p e b p' \<longleftrightarrow> pm_next p e = (p', b)"
  using pm_next_step [of p e] by (auto dest: pm_step_next)

lemma pm_step_deterministic:
  "pm_step p e b p' \<Longrightarrow> pm_step p e c q \<Longrightarrow> p' = q \<and> b = c"
  by (simp add: pm_step_iff)

lemma pm_step_total: "\<exists>b p'. pm_step p e b p'"
  using pm_next_step by blast

section \<open>Single steps\<close>

lemma count_needs_both_gates:
  "pm_step p e True p' \<Longrightarrow> \<exists>k. e = Peak k True True"
  by (auto elim: pm_step_countE)

lemma count_needs_marker:
  "pm_step p e True p' \<Longrightarrow> (p = MinHeld \<and> p' = MaxSeen) \<or> (p = MaxHeld \<and> p' = MinSeen)"
  by (auto elim: pm_step_countE)

lemma count_confirms: "snd (pm_next p e) \<Longrightarrow> confirms p e"
  using count_needs_marker [of p e "fst (pm_next p e)"] pm_next_step [of p e]
  by (auto simp: confirms_def)

lemma never_back_to_idle: "pm_step p e b Idle \<Longrightarrow> p = Idle"
  by (auto elim: pm_step.cases)

section \<open>Runs with counters\<close>

text \<open>
  A configuration is the phase with the number of peaks confirmed and the
  number of steps counted so far.
\<close>

type_synonym pm_conf = "phase \<times> nat \<times> nat"

fun pm_run :: "pm_conf \<Rightarrow> obs list \<Rightarrow> pm_conf" where
  "pm_run c [] = c"
| "pm_run (p, peaks, steps) (e # es) =
     pm_run (fst (pm_next p e),
             (if confirms p e then Suc peaks else peaks),
             (if snd (pm_next p e) then Suc steps else steps)) es"

inductive pm_reachable :: "pm_conf \<Rightarrow> bool" where
  start: "pm_reachable (Idle, 0, 0)"
| step: "pm_reachable (p, peaks, steps) \<Longrightarrow> pm_step p e b p' \<Longrightarrow>
     pm_reachable (p', (if p' \<noteq> p then Suc peaks else peaks),
                       (if b then Suc steps else steps))"

definition pm_balanced :: "pm_conf \<Rightarrow> bool" where
  "pm_balanced c =
     (case c of (p, peaks, steps) \<Rightarrow>
        (case p of
           Idle \<Rightarrow> peaks = 0 \<and> steps = 0
         | MaxSeen \<Rightarrow> peaks = 2 * steps + 1
         | MinSeen \<Rightarrow> peaks = 2 * steps + 1
         | MaxHeld \<Rightarrow> peaks = 2 * steps + 2
         | MinHeld \<Rightarrow> peaks = 2 * steps + 2))"

lemma pm_balanced_step:
  assumes "pm_balanced (p, peaks, steps)" and "pm_step p e b p'"
  shows "pm_balanced (p', (if p' \<noteq> p then Suc peaks else peaks),
                          (if b then Suc steps else steps))"
  using assms(2,1) by (induction rule: pm_step.induct) (auto simp: pm_balanced_def)

lemma pm_reachable_balanced: "pm_reachable c \<Longrightarrow> pm_balanced c"
proof (induction rule: pm_reachable.induct)
  case start
  show ?case by (simp add: pm_balanced_def)
next
  case (step p peaks steps e b p')
  then show ?case by (blast intro: pm_balanced_step)
qed

lemma pm_balanced_steps: "pm_balanced (p, peaks, steps) \<Longrightarrow> steps = (peaks - 1) div 2"
  by (cases p) (auto simp: pm_balanced_def)

lemma pm_run_reachable: "pm_reachable c \<Longrightarrow> pm_reachable (pm_run c es)"
proof (induction es arbitrary: c)
  case Nil
  then show ?case by simp
next
  case (Cons e es)
  obtain p peaks steps where c: "c = (p, peaks, steps)"
    by (cases c) auto
  have "pm_reachable (fst (pm_next p e),
      (if fst (pm_next p e) \<noteq> p then Suc peaks else peaks),
      (if snd (pm_next p e) then Suc steps else steps))"
    using Cons.prems pm_next_step [of p e] unfolding c by (rule pm_reachable.step)
  then show ?case
    unfolding c by (simp add: confirms_def Cons.IH)
qed

lemma pm_run_append: "pm_run c (es @ fs) = pm_run (pm_run c es) fs"
  by (induction c es rule: pm_run.induct) simp_all

end
