(* ===== verification/Detector_Inv.thy ===== *)
theory Detector_Inv
  imports Detector Peak_Machine
begin

text \<open>
  What every reachable detector satisfies, and the proof that
  \<^verbatim>\<open>process_sample\<close> implements the machine of theory \<open>Peak_Machine\<close>.
  \<open>phase_of\<close> reads the phase off \<^verbatim>\<open>last_peak\<close> and \<^verbatim>\<open>peak_pair\<close>, \<open>observe\<close>
  computes what the detector sees in a sample (nothing while a window is still
  filling or when the call fails, otherwise the candidate and its two gates),
  and \<open>process_norm_refines\<close> is the commuting square. The invariant
  \<open>detector_inv\<close> bounds the three windows by their capacities, keeps at
  least \<open>min 7 maxlen\<close> entries in the low-pass window, and restricts the
  markers to the five phases. Further sections compare the step event as the
  specification words it (\<open>detect_every_sample\<close>) with the code, characterise
  the two exceptions, and show that the count does not steer detection
  (\<open>recount\<close>).
\<close>

section \<open>Abstraction\<close>


definition phase_of :: "step_detector \<Rightarrow> phase option" where
  "phase_of s =
     (if last_peak s = 0 \<and> peak_pair s = [0, 0] then Some Idle
      else if last_peak s = 1 \<and> peak_pair s = [0, 0] then Some MaxSeen
      else if last_peak s = 1 \<and> peak_pair s = [1, 0] then Some MaxHeld
      else if last_peak s = - 1 \<and> peak_pair s = [0, 0] then Some MinSeen
      else if last_peak s = - 1 \<and> peak_pair s = [0, - 1] then Some MinHeld
      else None)"

definition obs_of :: "step_detector \<Rightarrow> int option \<Rightarrow> real \<Rightarrow> real \<Rightarrow> obs" where
  "obs_of s c f t =
     (case c of
        None \<Rightarrow> Quiet
      | Some k \<Rightarrow>
          if k = 1 then Peak Maximum (f > min_step_amplitude s) (f > t)
          else Peak Minimum (f < - min_step_amplitude s) (f < t))"

definition windows_ok :: "step_detector \<Rightarrow> bool" where
  "windows_ok s \<longleftrightarrow>
     deque_inv (norm_buffer s) \<and> deque_inv (lp_filter_buffer s)
     \<and> deque_inv (threshold_buffer s)
     \<and> maxlen (norm_buffer s) = norm_window_size s
     \<and> maxlen (threshold_buffer s) = threshold_window_size s
     \<and> (maxlen (lp_filter_buffer s) = lp_filter_size s \<or> maxlen (lp_filter_buffer s) = 7)
     \<and> min 7 (maxlen (lp_filter_buffer s)) \<le> deque_len (lp_filter_buffer s)"

definition marks_ok :: "step_detector \<Rightarrow> bool" where
  "marks_ok s \<longleftrightarrow>
     phase_of s \<noteq> None \<and> last_slope s \<in> {- 1, 0, 1} \<and> 0 \<le> step_count s"

definition detector_inv :: "step_detector \<Rightarrow> bool" where
  "detector_inv s \<longleftrightarrow> windows_ok s \<and> marks_ok s"

lemma phase_of_iffs [simp]:
  "phase_of s = Some Idle \<longleftrightarrow> last_peak s = 0 \<and> peak_pair s = [0, 0]"
  "phase_of s = Some MaxSeen \<longleftrightarrow> last_peak s = 1 \<and> peak_pair s = [0, 0]"
  "phase_of s = Some MaxHeld \<longleftrightarrow> last_peak s = 1 \<and> peak_pair s = [1, 0]"
  "phase_of s = Some MinSeen \<longleftrightarrow> last_peak s = - 1 \<and> peak_pair s = [0, 0]"
  "phase_of s = Some MinHeld \<longleftrightarrow> last_peak s = - 1 \<and> peak_pair s = [0, - 1]"
  by (auto simp: phase_of_def)

lemma phase_of_cong:
  "last_peak s' = last_peak s \<Longrightarrow> peak_pair s' = peak_pair s \<Longrightarrow> phase_of s' = phase_of s"
  by (simp add: phase_of_def)

lemma peak_candidate_range: "peak_candidate_of a b \<in> {None, Some 1, Some (- 1)}"
  by (simp add: peak_candidate_of_def)

section \<open>The peak logic implements the machine\<close>

lemma detect_refines:
  assumes "phase_of s = Some p" and "c \<in> {None, Some 1, Some (- 1)}"
  shows "phase_of (detect s c f t) = Some (fst (pm_next p (obs_of s c f t)))
       \<and> step_count (detect s c f t) =
           step_count s + (if snd (pm_next p (obs_of s c f t)) then 1 else 0)"
proof (cases c)
  case None
  with assms(1) show ?thesis by (cases p) (simp_all add: obs_of_def)
next
  case (Some k)
  with assms(2) have k: "k = 1 \<or> k = - 1" by auto
  from assms(1) show ?thesis unfolding Some
    using k by (cases p) (auto simp: obs_of_def detect_def confirm_peak_def count_pair_def)
qed


text \<open>
  The peak logic as the specification words it: the step event is evaluated
  whether or not the sample raised a candidate.
\<close>

definition detect_every_sample ::
    "step_detector \<Rightarrow> int option \<Rightarrow> real \<Rightarrow> real \<Rightarrow> step_detector" where
  "detect_every_sample s peak_candidate filtered_sample threshold =
     count_pair (case peak_candidate of
                   None \<Rightarrow> s
                 | Some c \<Rightarrow> confirm_peak s c filtered_sample threshold)"

section \<open>What the detector sees in a sample\<close>

definition track_obs :: "step_detector \<Rightarrow> real \<Rightarrow> obs" where
  "track_obs s f =
     (let tb = deque_append (threshold_buffer s) f
      in if deque_len tb = 0 \<or> deque_len (norm_buffer s) < norm_window_size s
            \<or> deque_len tb < threshold_window_size s
         then Quiet
         else obs_of s (peak_candidate_of (sign_of_slope (last_filtered s) f) (last_slope s))
                f (mean (items tb)))"

definition filtered_value :: "step_detector \<Rightarrow> real \<Rightarrow> real option" where
  "filtered_value s x =
     (let s2 = condition_sample s x
      in if deque_len (lp_filter_buffer s2) < lp_filter_size s2 then None
         else case lp_filter (items (lp_filter_buffer s2)) of
                Inl e \<Rightarrow> None
              | Inr f \<Rightarrow> Some f)"

definition observe :: "step_detector \<Rightarrow> real \<Rightarrow> obs" where
  "observe s x =
     (case filtered_value s x of
        None \<Rightarrow> Quiet
      | Some f \<Rightarrow> track_obs (condition_sample s x) f)"

section \<open>A whole sample implements one step of the machine\<close>

lemma obs_of_threshold_buffer [simp]:
  "obs_of (s\<lparr>threshold_buffer := b\<rparr>) c f t = obs_of s c f t"
  by (simp add: obs_of_def split: option.split)

lemma phase_of_updates [simp]:
  "phase_of (s\<lparr>threshold_buffer := b\<rparr>) = phase_of s"
  "phase_of (s\<lparr>last_filtered := f, last_slope := sl\<rparr>) = phase_of s"
  by (simp_all add: phase_of_def)

lemma phase_of_condition_sample [simp]: "phase_of (condition_sample s x) = phase_of s"
  by (simp add: phase_of_def)

lemma track_sample_refines:
  assumes "phase_of s = Some p"
  shows "phase_of (state_of (track_sample s f)) = Some (fst (pm_next p (track_obs s f)))
       \<and> step_count (state_of (track_sample s f)) =
           step_count s + (if snd (pm_next p (track_obs s f)) then 1 else 0)"
proof (cases "deque_len (deque_append (threshold_buffer s) f) = 0
      \<or> deque_len (norm_buffer s) < norm_window_size s
      \<or> deque_len (deque_append (threshold_buffer s) f) < threshold_window_size s")
  case True
  then have "track_obs s f = Quiet"
    by (simp add: track_obs_def Let_def)
  with True assms show ?thesis
    by (cases p) (auto simp: track_sample_def Let_def)
next
  case False
  let ?s3 = "s\<lparr>threshold_buffer := deque_append (threshold_buffer s) f\<rparr>"
  let ?c = "peak_candidate_of (sign_of_slope (last_filtered s) f) (last_slope s)"
  let ?t = "mean (items (deque_append (threshold_buffer s) f))"
  note run = False
  then have obs: "track_obs s f = obs_of s ?c f ?t"
    by (simp add: track_obs_def Let_def)
  have st: "state_of (track_sample s f) =
      (detect ?s3 ?c f ?t)\<lparr>last_filtered := f, last_slope := sign_of_slope (last_filtered s) f\<rparr>"
    using run by (simp add: track_sample_def Let_def deque_len_def)
  have "phase_of ?s3 = Some p" using assms by simp
  from detect_refines [OF this peak_candidate_range, of "sign_of_slope (last_filtered s) f" "last_slope s" f ?t]
  show ?thesis by (simp add: st obs)
qed

lemma filtered_value_None:
  "filtered_value s x = None \<Longrightarrow> state_of (process_norm s x) = condition_sample s x"
  by (auto simp: filtered_value_def process_norm_def Let_def split: sum.splits if_splits)

lemma filtered_value_Some:
  "filtered_value s x = Some f \<Longrightarrow> process_norm s x = track_sample (condition_sample s x) f"
  by (auto simp: filtered_value_def process_norm_def Let_def split: sum.splits if_splits)

lemma process_norm_refines:
  assumes "phase_of s = Some p"
  shows "phase_of (state_of (process_norm s x)) = Some (fst (pm_next p (observe s x)))
       \<and> step_count (state_of (process_norm s x)) =
           step_count s + (if snd (pm_next p (observe s x)) then 1 else 0)"
proof (cases "filtered_value s x")
  case None
  with assms show ?thesis
    by (cases p) (simp_all add: filtered_value_None observe_def)
next
  case (Some f)
  from assms have "phase_of (condition_sample s x) = Some p" by simp
  from track_sample_refines [OF this, of f] Some show ?thesis
    by (simp add: filtered_value_Some observe_def)
qed

section \<open>The invariant holds initially and is kept by every operation\<close>

lemma windows_StepDetector:
  assumes "StepDetector nws lfs tws amp = Inr s"
  shows "windows_ok s"
  by (subst StepDetector_fields [OF assms])
     (simp add: windows_ok_def deque_inv_def deque_len_def)

lemma marks_StepDetector:
  assumes "StepDetector nws lfs tws amp = Inr s"
  shows "marks_ok s"
  by (subst StepDetector_fields [OF assms]) (simp add: marks_ok_def phase_of_def)

lemma inv_StepDetector: "StepDetector nws lfs tws amp = Inr s \<Longrightarrow> detector_inv s"
  by (simp add: detector_inv_def windows_StepDetector marks_StepDetector)

lemma windows_condition_sample: "windows_ok s \<Longrightarrow> windows_ok (condition_sample s x)"
  by (auto simp: windows_ok_def len_appendleft)

lemma windows_track_sample: "windows_ok s \<Longrightarrow> windows_ok (state_of (track_sample s f))"
  by (simp add: windows_ok_def)

lemma state_of_process_norm:
  "state_of (process_norm s x) =
     (case filtered_value s x of
        None \<Rightarrow> condition_sample s x
      | Some f \<Rightarrow> state_of (track_sample (condition_sample s x) f))"
  by (simp add: filtered_value_None filtered_value_Some split: option.split)

lemma windows_process_norm: "windows_ok s \<Longrightarrow> windows_ok (state_of (process_norm s x))"
  by (simp add: state_of_process_norm windows_condition_sample windows_track_sample
      split: option.split)

lemma last_slope_track_sample:
  "last_slope (state_of (track_sample s f)) \<in> {last_slope s, - 1, 1}"
  by (auto simp: track_sample_def Let_def sign_of_slope_def)

lemma last_slope_process_norm:
  "last_slope (state_of (process_norm s x)) \<in> {last_slope s, - 1, 1}"
  using last_slope_track_sample [of "condition_sample s x"]
  by (auto simp: state_of_process_norm split: option.split)

lemma marks_process_norm:
  assumes "marks_ok s"
  shows "marks_ok (state_of (process_norm s x))"
proof -
  from assms obtain p where p: "phase_of s = Some p"
    by (auto simp: marks_ok_def)
  note r = process_norm_refines [OF p, of x]
  from r assms last_slope_process_norm [of s x] show ?thesis
    by (auto simp: marks_ok_def)
qed

lemma inv_process_norm: "detector_inv s \<Longrightarrow> detector_inv (state_of (process_norm s x))"
  by (simp add: detector_inv_def windows_process_norm marks_process_norm)

lemma phase_of_controls [simp]:
  "phase_of (reset s) = Some Idle"
  "phase_of (reset_step_count s) = phase_of s"
  "phase_of (add_step s) = phase_of s"
  by (simp_all add: phase_of_def reset_def reset_step_count_def add_step_def)

lemma windows_controls:
  "windows_ok s \<Longrightarrow> windows_ok (reset s)"
  "windows_ok (reset_step_count s) = windows_ok s"
  "windows_ok (add_step s) = windows_ok s"
  by (simp_all add: windows_ok_def reset_def reset_step_count_def add_step_def deque_len_def)

lemma marks_controls:
  "marks_ok (reset s)"
  "marks_ok s \<Longrightarrow> marks_ok (reset_step_count s)"
  "marks_ok s \<Longrightarrow> marks_ok (add_step s)"
  by (simp_all add: marks_ok_def) (simp_all add: reset_def reset_step_count_def add_step_def)

lemma inv_reset: "detector_inv s \<Longrightarrow> detector_inv (reset s)"
  by (simp add: detector_inv_def windows_controls marks_controls)

lemma inv_reset_step_count: "detector_inv s \<Longrightarrow> detector_inv (reset_step_count s)"
  by (simp add: detector_inv_def windows_controls marks_controls)

lemma inv_add_step: "detector_inv s \<Longrightarrow> detector_inv (add_step s)"
  by (simp add: detector_inv_def windows_controls marks_controls)

lemma step_count_process_norm:
  assumes "detector_inv s"
  shows "step_count s \<le> step_count (state_of (process_norm s x))
       \<and> step_count (state_of (process_norm s x)) \<le> step_count s + 1"
proof -
  from assms obtain p where p: "phase_of s = Some p"
    by (auto simp: detector_inv_def marks_ok_def)
  from process_norm_refines [OF p, of x] show ?thesis by simp
qed

section \<open>While a window is filling nothing is seen\<close>

lemma track_obs_filling:
  "deque_len (norm_buffer s) < norm_window_size s
   \<or> deque_len (deque_append (threshold_buffer s) f) < threshold_window_size s
   \<Longrightarrow> track_obs s f = Quiet"
  by (auto simp: track_obs_def Let_def)

lemma observe_filling:
  assumes "windows_ok s"
    and "Suc (deque_len (norm_buffer s)) < norm_window_size s
         \<or> Suc (deque_len (threshold_buffer s)) < threshold_window_size s"
  shows "observe s x = Quiet"
proof (cases "filtered_value s x")
  case None
  then show ?thesis by (simp add: observe_def)
next
  case (Some f)
  from assms have "deque_len (norm_buffer (condition_sample s x)) < norm_window_size s
      \<or> deque_len (deque_append (threshold_buffer s) f) < threshold_window_size s"
    by (auto simp: windows_ok_def len_append)
  then have "track_obs (condition_sample s x) f = Quiet"
    by (intro track_obs_filling) simp
  with Some show ?thesis by (simp add: observe_def)
qed

section \<open>A counted step cleared both gates\<close>

lemma observe_PeakD:
  assumes "observe s x = Peak k fl th"
  obtains f where "filtered_value s x = Some f"
    and "deque_len (norm_buffer (condition_sample s x)) = norm_window_size s \<or> \<not> windows_ok s"
    and "Peak k fl th = obs_of s (peak_candidate_of (sign_of_slope (last_filtered s) f) (last_slope s)) f
        (mean (items (deque_append (threshold_buffer s) f)))"
proof -
  from assms obtain f where f: "filtered_value s x = Some f"
    and t: "track_obs (condition_sample s x) f = Peak k fl th"
    by (auto simp: observe_def split: option.splits)
  from t have "\<not> deque_len (norm_buffer (condition_sample s x)) < norm_window_size s"
    and "Peak k fl th = obs_of s (peak_candidate_of (sign_of_slope (last_filtered s) f) (last_slope s)) f
        (mean (items (deque_append (threshold_buffer s) f)))"
    by (auto simp: track_obs_def Let_def obs_of_def split: if_splits option.splits)
  moreover have "windows_ok s \<Longrightarrow> deque_len (norm_buffer (condition_sample s x)) \<le> norm_window_size s"
    by (auto simp: windows_ok_def len_append)
  ultimately show thesis using f that by force
qed

lemma obs_of_Peak_gates:
  assumes "obs_of s c f t = Peak k True True"
  shows "(k = Maximum \<and> c = Some 1 \<and> min_step_amplitude s < f \<and> t < f)
       \<or> (k = Minimum \<and> c \<noteq> None \<and> c \<noteq> Some 1 \<and> f < - min_step_amplitude s \<and> f < t)"
  using assms by (auto simp: obs_of_def split: option.splits if_splits)

lemma counted_step_gates:
  assumes "phase_of s = Some p"
    and "step_count (state_of (process_norm s x)) \<noteq> step_count s"
  shows "\<exists>f. filtered_value s x = Some f
       \<and> ((min_step_amplitude s < f \<and> mean (items (deque_append (threshold_buffer s) f)) < f)
          \<or> (f < - min_step_amplitude s \<and> f < mean (items (deque_append (threshold_buffer s) f))))"
proof -
  from process_norm_refines [OF assms(1), of x] assms(2)
  have "snd (pm_next p (observe s x))" by (auto split: if_splits)
  with pm_next_step [of p "observe s x"] obtain k where "observe s x = Peak k True True"
    by (auto dest: count_needs_both_gates)
  then obtain f where f: "filtered_value s x = Some f"
    and "Peak k True True = obs_of s (peak_candidate_of (sign_of_slope (last_filtered s) f) (last_slope s)) f
        (mean (items (deque_append (threshold_buffer s) f)))"
    by (rule observe_PeakD)
  from obs_of_Peak_gates [OF this(2) [symmetric]] f show ?thesis by auto
qed

section \<open>When a call fails\<close>

lemma process_norm_IndexError_iff:
  assumes "windows_ok s"
  shows "(\<exists>s'. process_norm s x = Inl (IndexError, s'))
     \<longleftrightarrow> lp_filter_size s = 0 \<and> maxlen (lp_filter_buffer s) = 0"
proof -
  have empty: "items (lp_filter_buffer (condition_sample s x)) = []
      \<longleftrightarrow> maxlen (lp_filter_buffer s) = 0"
    using assms by (auto simp: items_appendleft_Nil_iff windows_ok_def deque_inv_def)
  show ?thesis
    using empty
    by (auto simp: process_norm_def Let_def track_sample_def lp_filter_error_iff deque_len_def
        split: sum.splits if_splits)
qed


lemma process_norm_ZeroDivisionError_iff:
  assumes "windows_ok s"
  shows "(\<exists>s'. process_norm s x = Inl (ZeroDivisionError, s'))
     \<longleftrightarrow> threshold_window_size s = 0 \<and> 0 < maxlen (lp_filter_buffer s)
        \<and> lp_filter_size s \<le> deque_len (deque_appendleft (lp_filter_buffer s)
              (block_dc x (items (deque_append (norm_buffer s) x))))"
proof -
  have empty: "items (lp_filter_buffer (condition_sample s x)) = []
      \<longleftrightarrow> maxlen (lp_filter_buffer s) = 0"
    using assms by (auto simp: items_appendleft_Nil_iff windows_ok_def deque_inv_def)
  have thr: "\<And>f. deque_len (deque_append (threshold_buffer s) f) = 0
      \<longleftrightarrow> threshold_window_size s = 0"
    using assms by (simp add: len_append_0_iff windows_ok_def)
  show ?thesis
    using empty thr
    by (auto simp: process_norm_def Let_def track_sample_def lp_filter_def not_less
        split: sum.splits if_splits)
qed

lemma process_norm_raises:
  "process_norm s x = Inl (e, s') \<Longrightarrow> e = IndexError \<or> e = ZeroDivisionError"
  by (auto simp: process_norm_def Let_def track_sample_def lp_filter_def
      split: sum.splits if_splits)

lemma process_norm_ok:
  assumes "windows_ok s" and "0 < threshold_window_size s" and "0 < maxlen (lp_filter_buffer s)"
  shows "is_ok (process_norm s x)"
proof (cases "process_norm s x")
  case (Inl a)
  obtain e s' where a: "a = (e, s')" by (cases a)
  with Inl have "e = IndexError \<or> e = ZeroDivisionError"
    by (auto dest: process_norm_raises)
  with Inl a process_norm_IndexError_iff [OF assms(1), of x]
    process_norm_ZeroDivisionError_iff [OF assms(1), of x] assms(2,3)
  show ?thesis by auto
next
  case (Inr b)
  then show ?thesis by simp
qed

section \<open>The count does not steer detection\<close>

text \<open>
  \<^verbatim>\<open>process_sample\<close> writes \<^verbatim>\<open>step_count\<close> and never reads it: started from the
  same detector with another count, a call goes through the same states and
  adds the same number of steps. \<open>recount s c t\<close> is \<open>t\<close> with the steps counted
  since \<open>s\<close> added to \<open>c\<close>.
\<close>

definition recount :: "step_detector \<Rightarrow> int \<Rightarrow> step_detector \<Rightarrow> step_detector" where
  "recount s c t = t\<lparr>step_count := c + (step_count t - step_count s)\<rparr>"

lemma recount_self [simp]: "recount s (step_count s) t = t"
  by (simp add: recount_def)

lemma condition_sample_count:
  "condition_sample (s\<lparr>step_count := c\<rparr>) x = (condition_sample s x)\<lparr>step_count := c\<rparr>"
  by (simp add: condition_sample_def Let_def)

lemma confirm_peak_count:
  "confirm_peak (s\<lparr>step_count := c\<rparr>) k f t = (confirm_peak s k f t)\<lparr>step_count := c\<rparr>"
  by (simp add: confirm_peak_def)

lemma count_pair_count:
  "count_pair (s\<lparr>step_count := c\<rparr>) = recount s c (count_pair s)"
  by (simp add: count_pair_def recount_def)

lemma detect_count:
  "detect (s\<lparr>step_count := c\<rparr>) k f t = recount s c (detect s k f t)"
  by (cases k) (simp_all add: detect_def confirm_peak_count count_pair_count recount_def)

lemma detect_count_threshold:
  "detect (s\<lparr>step_count := c, threshold_buffer := b\<rparr>) k f t
     = recount s c (detect (s\<lparr>threshold_buffer := b\<rparr>) k f t)"
proof -
  have "s\<lparr>step_count := c, threshold_buffer := b\<rparr>
      = (s\<lparr>threshold_buffer := b\<rparr>)\<lparr>step_count := c\<rparr>"
    by (cases s) simp
  then show ?thesis
    by (simp only: detect_count) (simp add: recount_def)
qed

lemma track_sample_count:
  "state_of (track_sample (s\<lparr>step_count := c\<rparr>) f) = recount s c (state_of (track_sample s f))"
  "isl (track_sample (s\<lparr>step_count := c\<rparr>) f) = isl (track_sample s f)"
  by (simp_all add: track_sample_def Let_def detect_count_threshold recount_def)

lemma process_norm_count:
  "state_of (process_norm (s\<lparr>step_count := c\<rparr>) x) = recount s c (state_of (process_norm s x))"
  "isl (process_norm (s\<lparr>step_count := c\<rparr>) x) = isl (process_norm s x)"
  by (simp_all add: process_norm_def Let_def condition_sample_count track_sample_count
      recount_def split: sum.split)

section \<open>The three-axis entry point\<close>

definition armed_detector :: step_detector where
  "armed_detector =
     default_detector
       \<lparr>norm_buffer := \<lparr>items = replicate 20 0, maxlen = 20\<rparr>,
        threshold_buffer := \<lparr>items = replicate 10 0, maxlen = 10\<rparr>,
        last_filtered := 100, last_slope := 1, last_peak := - 1, peak_pair := [0, - 1]\<rparr>"

lemmas eval_defs =
  default_detector_eq armed_detector_def process_sample_def process_norm_def
  condition_sample_def track_sample_def detect_def confirm_peak_def count_pair_def
  peak_candidate_of_def deque_append_def deque_appendleft_def deque_len_def
  block_dc_def lp_filter_def sign_of_slope_def Let_def nth_numeral_Cons

lemma armed_step:
  "process_sample armed_detector 0 0 320 =
     Inr (armed_detector
       \<lparr>norm_buffer := \<lparr>items = replicate 19 0 @ [320], maxlen = 20\<rparr>,
        lp_filter_buffer := \<lparr>items = [304, 0, 0, 0, 0, 0, 0], maxlen = 7\<rparr>,
        threshold_buffer := \<lparr>items = replicate 9 0 @ [19], maxlen = 10\<rparr>,
        last_filtered := 19, last_slope := - 1, last_peak := 1, peak_pair := [0, 0],
        step_count := 1\<rparr>)"
  by (simp add: eval_defs numeral_eq_Suc)

definition no_taps_detector :: step_detector where
  "no_taps_detector = projr (StepDetector 20 0 10 (8 / 10))"

definition no_threshold_detector :: step_detector where
  "no_threshold_detector = projr (StepDetector 20 7 0 (8 / 10))"

lemmas inv_defs = detector_inv_def windows_ok_def marks_ok_def phase_of_def deque_inv_def

lemma inv_default: "detector_inv default_detector"
  by (simp add: inv_defs default_detector_eq deque_len_def)

lemma inv_armed: "detector_inv armed_detector"
  by (simp add: inv_defs armed_detector_def default_detector_eq deque_len_def)

lemma windows_no_taps: "windows_ok no_taps_detector"
  by (simp add: no_taps_detector_def StepDetector_ok windows_ok_def deque_inv_def deque_len_def)

lemma windows_no_threshold: "windows_ok no_threshold_detector"
  by (simp add: no_threshold_detector_def StepDetector_ok windows_ok_def deque_inv_def
      deque_len_def)

lemma armed_observe: "observe armed_detector 320 = Peak Maximum True True"
  by (simp add: observe_def filtered_value_def track_obs_def obs_of_def eval_defs numeral_eq_Suc)

lemma armed_filtered: "filtered_value armed_detector 320 = Some 19"
  by (simp add: filtered_value_def eval_defs numeral_eq_Suc)

text \<open>
  C20. The specification evaluates the step event on every sample; the code
  evaluates it only on a sample that raises a peak candidate. On every
  detector that is in one of the five phases the two agree, because a
  complete pair never outlives the call that completed it; they differ on a
  detector that holds a complete pair, which no run reaches.
\<close>

theorem step_event_every_sample:
  assumes "phase_of s = Some p"
  shows "detect_every_sample s c f t = detect s c f t
       \<and> detect_every_sample (s\<lparr>peak_pair := [1, - 1]\<rparr>) None f t
           \<noteq> detect (s\<lparr>peak_pair := [1, - 1]\<rparr>) None f t"
proof -
  from assms have "count_pair s = s"
    by (cases p) (simp_all add: count_pair_def)
  then have "detect_every_sample s c f t = detect s c f t"
    by (cases c) (simp_all add: detect_every_sample_def detect_def)
  moreover have "step_count (detect_every_sample (s\<lparr>peak_pair := [1, - 1]\<rparr>) None f t)
      \<noteq> step_count (detect (s\<lparr>peak_pair := [1, - 1]\<rparr>) None f t)"
    by (simp add: detect_every_sample_def count_pair_def)
  ultimately show ?thesis by auto
qed

theorem step_event_every_sample_witness:
  "phase_of armed_detector = Some MinHeld
   \<and> detect_every_sample armed_detector (Some 1) 19 0 = detect armed_detector (Some 1) 19 0
   \<and> step_count (detect armed_detector (Some 1) 19 0) = step_count armed_detector + 1"
  using step_event_every_sample [of armed_detector MinHeld "Some 1" 19 0]
  by (simp add: armed_detector_def default_detector_eq detect_def confirm_peak_def
      count_pair_def)

text \<open>
  C1. \<^verbatim>\<open>process_sample\<close> implements the peak machine. From a detector in phase
  \<open>p\<close>, one call, failing or not, leaves the detector in the phase the machine
  reaches from \<open>p\<close> on what the detector sees in the sample, and adds one to
  \<^verbatim>\<open>step_count\<close> exactly when the machine counts a step.
\<close>

theorem process_sample_refines:
  assumes "phase_of s = Some p"
  shows "phase_of (state_of (process_sample s ax ay az))
           = Some (fst (pm_next p (observe s (norm3 ax ay az))))
       \<and> step_count (state_of (process_sample s ax ay az))
           = step_count s + (if snd (pm_next p (observe s (norm3 ax ay az))) then 1 else 0)"
  using process_norm_refines [OF assms] by (simp add: process_sample_def)

theorem process_sample_refines_witness:
  "phase_of armed_detector = Some MinHeld
   \<and> observe armed_detector (norm3 0 0 320) = Peak Maximum True True
   \<and> phase_of (state_of (process_sample armed_detector 0 0 320)) = Some MaxSeen
   \<and> step_count (state_of (process_sample armed_detector 0 0 320))
       = step_count armed_detector + 1"
  using process_sample_refines [of armed_detector MinHeld 0 0 320]
  by (simp add: armed_observe) (simp add: armed_detector_def)

text \<open>
  C3. Every call of \<^verbatim>\<open>process_sample\<close> keeps the detector well formed, whether
  it returns or raises: the three windows stay within their capacities, the
  low-pass window keeps at least \<open>min 7 maxlen\<close> entries, \<^verbatim>\<open>last_slope\<close> stays in
  \<open>{-1, 0, 1}\<close>, \<^verbatim>\<open>last_peak\<close> and \<^verbatim>\<open>peak_pair\<close> stay in one of the five phases
  (so both markers are never set when a call ends), and the count stays
  non-negative.
\<close>

theorem inv_process_sample:
  "detector_inv s \<Longrightarrow> detector_inv (state_of (process_sample s ax ay az))"
  by (simp add: process_sample_def inv_process_norm)

theorem inv_process_sample_witness:
  "detector_inv armed_detector
   \<and> detector_inv (state_of (process_sample armed_detector 0 0 320))
   \<and> peak_pair (state_of (process_sample armed_detector 0 0 320)) = [0, 0]"
  using inv_process_sample [of armed_detector 0 0 320] inv_armed
  by (simp add: armed_step)

text \<open>
  C6. Amplitude gating of a single sample: when a call of \<^verbatim>\<open>process_sample\<close>
  changes the count, the filtered value of that sample lies above both the
  noise floor \<^verbatim>\<open>min_step_amplitude\<close> and the adaptive threshold, or below the
  negated floor and the threshold.
\<close>

theorem counted_step_cleared_gates:
  assumes "phase_of s = Some p"
    and "step_count (state_of (process_sample s ax ay az)) \<noteq> step_count s"
  shows "\<exists>f. filtered_value s (norm3 ax ay az) = Some f
       \<and> ((min_step_amplitude s < f
             \<and> mean (items (deque_append (threshold_buffer s) f)) < f)
          \<or> (f < - min_step_amplitude s
             \<and> f < mean (items (deque_append (threshold_buffer s) f))))"
  using counted_step_gates [OF assms(1), of "norm3 ax ay az"] assms(2)
  by (simp add: process_sample_def)

theorem counted_step_cleared_gates_witness:
  "phase_of armed_detector = Some MinHeld
   \<and> step_count (state_of (process_sample armed_detector 0 0 320)) \<noteq> step_count armed_detector
   \<and> filtered_value armed_detector (norm3 0 0 320) = Some 19
   \<and> min_step_amplitude armed_detector < 19
   \<and> (\<exists>f. filtered_value armed_detector (norm3 0 0 320) = Some f
       \<and> ((min_step_amplitude armed_detector < f
             \<and> mean (items (deque_append (threshold_buffer armed_detector) f)) < f)
          \<or> (f < - min_step_amplitude armed_detector
             \<and> f < mean (items (deque_append (threshold_buffer armed_detector) f)))))"
  using counted_step_cleared_gates [of armed_detector MinHeld 0 0 320]
  by (simp add: armed_step armed_filtered) (simp add: armed_detector_def default_detector_eq)

text \<open>
  C12. With a threshold window of positive capacity and a low-pass window of
  positive capacity, \<^verbatim>\<open>process_sample\<close> raises nothing: it returns, for every
  sample, from every well-formed detector.
\<close>

theorem process_sample_total:
  assumes "windows_ok s" and "0 < threshold_window_size s"
    and "0 < maxlen (lp_filter_buffer s)"
  shows "\<exists>s'. process_sample s ax ay az = Inr s'"
  using process_norm_ok [OF assms, of "norm3 ax ay az"]
  by (simp add: process_sample_def is_ok_iff)

theorem process_sample_total_witness:
  "windows_ok default_detector \<and> 0 < threshold_window_size default_detector
   \<and> 0 < maxlen (lp_filter_buffer default_detector)
   \<and> (\<exists>s'. process_sample default_detector 3 4 12 = Inr s')"
  using process_sample_total [of default_detector 3 4 12] inv_default
  by (simp add: detector_inv_def) (simp add: default_detector_eq)

text \<open>
  C13. \<^verbatim>\<open>process_sample\<close> raises \<^verbatim>\<open>IndexError\<close> (from \<^verbatim>\<open>buf[-1]\<close> on an empty
  buffer) exactly when the detector was built with \<^verbatim>\<open>lp_filter_size = 0\<close> and
  has not been reset since: the low-pass window then has capacity 0.
\<close>

theorem process_sample_IndexError_iff:
  assumes "windows_ok s"
  shows "(\<exists>s'. process_sample s ax ay az = Inl (IndexError, s'))
     \<longleftrightarrow> lp_filter_size s = 0 \<and> maxlen (lp_filter_buffer s) = 0"
  using process_norm_IndexError_iff [OF assms] by (simp add: process_sample_def)

theorem process_sample_IndexError_iff_witness:
  "windows_ok no_taps_detector \<and> lp_filter_size no_taps_detector = 0
   \<and> maxlen (lp_filter_buffer no_taps_detector) = 0
   \<and> (\<exists>s'. process_sample no_taps_detector 0 0 1 = Inl (IndexError, s'))"
  using process_sample_IndexError_iff [of no_taps_detector 0 0 1] windows_no_taps
  by (simp add: no_taps_detector_def StepDetector_ok)

text \<open>
  C14. \<^verbatim>\<open>process_sample\<close> raises \<^verbatim>\<open>ZeroDivisionError\<close> (the threshold is the
  mean of an empty window) exactly when \<^verbatim>\<open>threshold_window_size = 0\<close>, the
  low-pass window has positive capacity, and the low-pass window has reached
  \<^verbatim>\<open>lp_filter_size\<close> entries with this sample.
\<close>

theorem process_sample_ZeroDivisionError_iff:
  assumes "windows_ok s"
  shows "(\<exists>s'. process_sample s ax ay az = Inl (ZeroDivisionError, s'))
     \<longleftrightarrow> threshold_window_size s = 0 \<and> 0 < maxlen (lp_filter_buffer s)
        \<and> lp_filter_size s \<le> deque_len (deque_appendleft (lp_filter_buffer s)
              (block_dc (norm3 ax ay az)
                 (items (deque_append (norm_buffer s) (norm3 ax ay az)))))"
  using process_norm_ZeroDivisionError_iff [OF assms] by (simp add: process_sample_def)

theorem process_sample_ZeroDivisionError_iff_witness:
  "windows_ok no_threshold_detector \<and> threshold_window_size no_threshold_detector = 0
   \<and> (\<exists>s'. process_sample no_threshold_detector 0 0 1 = Inl (ZeroDivisionError, s'))"
  using process_sample_ZeroDivisionError_iff [of no_threshold_detector 0 0 1]
    windows_no_threshold
  by (simp add: no_threshold_detector_def StepDetector_ok deque_defs Let_def)

lemma track_sample_fails:
  assumes "track_sample s f = Inl (e, s')"
  shows "e = ZeroDivisionError"
    and "s' = s\<lparr>threshold_buffer := deque_append (threshold_buffer s) f\<rparr>"
    and "deque_len (deque_append (threshold_buffer s) f) = 0"
  using assms by (auto simp: track_sample_def Let_def split: if_splits)

lemma lp_buffer_process_norm:
  "lp_filter_buffer (state_of (process_norm s x))
     = deque_appendleft (lp_filter_buffer s)
         (block_dc x (items (deque_append (norm_buffer s) x)))"
  by (simp add: state_of_process_norm track_sample_def Let_def split: option.split)

text \<open>
  The low-pass window is kept newest first: a call of \<^verbatim>\<open>process_sample\<close>
  puts the DC-blocked value of the sample at index 0, moves the earlier
  entries up by one and drops what no longer fits the capacity.
\<close>

lemma lp_window_newest_first:
  assumes "windows_ok s"
  shows "items (lp_filter_buffer (state_of (process_sample s ax ay az)))
     = take (maxlen (lp_filter_buffer s))
         (block_dc (norm3 ax ay az) (items (deque_append (norm_buffer s) (norm3 ax ay az)))
            # items (lp_filter_buffer s))"
  using assms
  by (simp add: process_sample_def lp_buffer_process_norm items_appendleft_take windows_ok_def)

text \<open>
  C15. A call that raises has consumed the sample and nothing else: the
  detector it leaves holds the sample in the norm window and its blocked
  value in the low-pass window, while the threshold window, the slope, the
  peak state and the count are as before. Only \<^verbatim>\<open>IndexError\<close> and
  \<^verbatim>\<open>ZeroDivisionError\<close> can be raised.
\<close>

theorem failed_call_state:
  assumes "windows_ok s" and "process_sample s ax ay az = Inl (e, s')"
  shows "(e = IndexError \<or> e = ZeroDivisionError)
       \<and> norm_buffer s' = deque_append (norm_buffer s) (norm3 ax ay az)
       \<and> lp_filter_buffer s' = deque_appendleft (lp_filter_buffer s)
            (block_dc (norm3 ax ay az) (items (deque_append (norm_buffer s) (norm3 ax ay az))))
       \<and> items (threshold_buffer s') = items (threshold_buffer s)
       \<and> last_filtered s' = last_filtered s \<and> last_slope s' = last_slope s
       \<and> last_peak s' = last_peak s \<and> peak_pair s' = peak_pair s
       \<and> step_count s' = step_count s"
proof -
  let ?x = "norm3 ax ay az"
  from assms(2) have f: "process_norm s ?x = Inl (e, s')"
    by (simp add: process_sample_def)
  then have e: "e = IndexError \<or> e = ZeroDivisionError"
    by (rule process_norm_raises)
  from f have s': "s' = state_of (process_norm s ?x)" by simp
  have "s' = condition_sample s ?x \<or> (\<exists>v. track_sample (condition_sample s ?x) v = Inl (e, s'))"
    using f by (auto simp: process_norm_def Let_def split: if_splits sum.splits)
  then have "items (threshold_buffer s') = items (threshold_buffer s)
      \<and> last_filtered s' = last_filtered s \<and> last_slope s' = last_slope s
      \<and> last_peak s' = last_peak s \<and> peak_pair s' = peak_pair s
      \<and> step_count s' = step_count s"
  proof
    assume "s' = condition_sample s ?x"
    then show ?thesis by simp
  next
    assume "\<exists>v. track_sample (condition_sample s ?x) v = Inl (e, s')"
    then obtain v where t: "track_sample (condition_sample s ?x) v = Inl (e, s')" ..
    from track_sample_fails [OF t] assms(1) show ?thesis
      by (auto simp: windows_ok_def len_append_0_iff items_append_zero)
  qed
  with e show ?thesis
    unfolding s' by (simp add: lp_buffer_process_norm)
qed

theorem failed_call_state_witness:
  "process_sample no_threshold_detector 0 0 1
     = Inl (ZeroDivisionError,
            no_threshold_detector
              \<lparr>norm_buffer := \<lparr>items = [1], maxlen = 20\<rparr>,
               lp_filter_buffer := \<lparr>items = [0, 0, 0, 0, 0, 0, 0], maxlen = 7\<rparr>\<rparr>)
   \<and> step_count no_threshold_detector = 0"
proof -
  have "process_sample no_threshold_detector 0 0 1
     = Inl (ZeroDivisionError,
            no_threshold_detector
              \<lparr>norm_buffer := \<lparr>items = [1], maxlen = 20\<rparr>,
               lp_filter_buffer := \<lparr>items = [0, 0, 0, 0, 0, 0, 0], maxlen = 7\<rparr>\<rparr>)"
    by (simp add: no_threshold_detector_def StepDetector_ok process_sample_def
        process_norm_def condition_sample_def track_sample_def deque_append_def
        deque_appendleft_def deque_len_def block_dc_def lp_filter_def Let_def
        nth_numeral_Cons numeral_eq_Suc)
  from failed_call_state [OF windows_no_threshold this] this show ?thesis
    by (simp add: no_threshold_detector_def StepDetector_ok)
qed

end
