(* ===== verification/Operations.thy ===== *)
theory Operations
  imports Detector_Inv
begin

text \<open>
  The public interface of \<^verbatim>\<open>StepDetector\<close> as its clients see it: a datatype
  of the five methods of \<^verbatim>\<open>src/step_detector.py\<close> with their arguments, one
  function \<open>call\<close> that applies a method to a detector and gives the detector
  afterwards with what the method returned or raised, and the detectors
  \<open>reachable\<close> from a successful construction by calls of these methods in
  any order. \<open>typed\<close> is the typing of the attributes that the code relies on
  without checking it: the configuration is the one given to the constructor,
  every window is within its capacity, the slope and peak marks are signs and
  \<^verbatim>\<open>peak_pair\<close> is a list of two of them, the count is a natural number.
  The theory shows that every reachable detector is typed and that every
  call on it answers within the type of its method.
\<close>

section \<open>Methods\<close>

datatype operation =
    Process_sample real real real
  | Get_step_count
  | Reset
  | Reset_step_count
  | Add_step

type_synonym answer = "int option result"

fun call :: "step_detector \<Rightarrow> operation \<Rightarrow> step_detector \<times> answer" where
  "call s (Process_sample ax ay az) =
     (case process_sample s ax ay az of
        Inl (e, s') \<Rightarrow> (s', Inl e)
      | Inr s' \<Rightarrow> (s', Inr None))"
| "call s Get_step_count = (s, Inr (Some (get_step_count s)))"
| "call s Reset = (reset s, Inr None)"
| "call s Reset_step_count = (reset_step_count s, Inr None)"
| "call s Add_step = (add_step s, Inr None)"

fun calls :: "step_detector \<Rightarrow> operation list \<Rightarrow> step_detector \<times> answer list" where
  "calls s [] = (s, [])"
| "calls s (x # xs) =
     (case call s x of (s1, a) \<Rightarrow> (case calls s1 xs of (s2, as) \<Rightarrow> (s2, a # as)))"

inductive reachable :: "int \<Rightarrow> int \<Rightarrow> int \<Rightarrow> real \<Rightarrow> step_detector \<Rightarrow> bool"
  for nws lfs tws amp
where
  constructed: "StepDetector nws lfs tws amp = Inr s \<Longrightarrow> reachable nws lfs tws amp s"
| called: "reachable nws lfs tws amp s \<Longrightarrow> reachable nws lfs tws amp (fst (call s x))"

section \<open>Typing\<close>

definition sign :: "int \<Rightarrow> bool" where
  "sign i \<longleftrightarrow> i = - 1 \<or> i = 0 \<or> i = 1"

definition typed :: "int \<Rightarrow> int \<Rightarrow> int \<Rightarrow> real \<Rightarrow> step_detector \<Rightarrow> bool" where
  "typed nws lfs tws amp s \<longleftrightarrow>
     norm_window_size s = nat nws \<and> lp_filter_size s = nat lfs
     \<and> threshold_window_size s = nat tws \<and> min_step_amplitude s = amp
     \<and> maxlen (norm_buffer s) = nat nws \<and> maxlen (threshold_buffer s) = nat tws
     \<and> (maxlen (lp_filter_buffer s) = nat lfs \<or> maxlen (lp_filter_buffer s) = 7)
     \<and> deque_len (norm_buffer s) \<le> nat nws
     \<and> deque_len (threshold_buffer s) \<le> nat tws
     \<and> deque_len (lp_filter_buffer s) \<le> maxlen (lp_filter_buffer s)
     \<and> sign (last_slope s) \<and> sign (last_peak s)
     \<and> length (peak_pair s) = 2 \<and> list_all sign (peak_pair s)
     \<and> 0 \<le> step_count s"

fun answer_typed :: "operation \<Rightarrow> answer \<Rightarrow> bool" where
  "answer_typed (Process_sample ax ay az) a =
     (a = Inr None \<or> a = Inl IndexError \<or> a = Inl ZeroDivisionError)"
| "answer_typed Get_step_count a = (case a of Inr (Some n) \<Rightarrow> 0 \<le> n | _ \<Rightarrow> False)"
| "answer_typed x a = (a = Inr None)"

section \<open>One call\<close>

lemma fst_call:
  "fst (call s (Process_sample ax ay az)) = state_of (process_sample s ax ay az)"
  "fst (call s Get_step_count) = s"
  "fst (call s Reset) = reset s"
  "fst (call s Reset_step_count) = reset_step_count s"
  "fst (call s Add_step) = add_step s"
  by (simp_all add: state_of_def split: sum.split)

lemma inv_call: "detector_inv s \<Longrightarrow> detector_inv (fst (call s x))"
  by (cases x)
     (simp_all add: fst_call process_sample_def inv_process_norm inv_reset
        inv_reset_step_count inv_add_step del: call.simps)

lemma config_call:
  "norm_window_size (fst (call s x)) = norm_window_size s"
  "lp_filter_size (fst (call s x)) = lp_filter_size s"
  "threshold_window_size (fst (call s x)) = threshold_window_size s"
  "min_step_amplitude (fst (call s x)) = min_step_amplitude s"
  by (cases x; simp add: fst_call process_sample_def reset_def reset_step_count_def
        add_step_def del: call.simps)+

lemma call_raises:
  "snd (call s x) = Inl e \<Longrightarrow>
   (\<exists>ax ay az. x = Process_sample ax ay az) \<and> (e = IndexError \<or> e = ZeroDivisionError)"
  by (cases x)
     (auto simp: process_sample_def dest: process_norm_raises split: sum.splits)

lemma answer_call: "0 \<le> step_count s \<Longrightarrow> answer_typed x (snd (call s x))"
  by (cases x)
     (auto simp: process_sample_def get_step_count_def dest: process_norm_raises
        split: sum.splits)

section \<open>Sequences of calls\<close>

lemma fst_calls_Cons [simp]: "fst (calls s (x # xs)) = fst (calls (fst (call s x)) xs)"
  by (simp split: prod.split)

lemma snd_calls_Cons [simp]:
  "snd (calls s (x # xs)) = snd (call s x) # snd (calls (fst (call s x)) xs)"
  by (simp split: prod.split)

declare calls.simps(2) [simp del]

lemma fst_calls_append [simp]: "fst (calls s (xs @ ys)) = fst (calls (fst (calls s xs)) ys)"
  by (induction xs arbitrary: s) simp_all

lemma length_calls [simp]: "length (snd (calls s xs)) = length xs"
  by (induction xs arbitrary: s) simp_all

lemma reachable_calls:
  "reachable nws lfs tws amp s \<Longrightarrow> reachable nws lfs tws amp (fst (calls s xs))"
  by (induction xs arbitrary: s) (simp_all add: called)

lemma reachable_iff:
  "reachable nws lfs tws amp s \<longleftrightarrow>
     (\<exists>s0 xs. StepDetector nws lfs tws amp = Inr s0 \<and> s = fst (calls s0 xs))"
proof
  assume "reachable nws lfs tws amp s"
  then show "\<exists>s0 xs. StepDetector nws lfs tws amp = Inr s0 \<and> s = fst (calls s0 xs)"
  proof induction
    case (constructed s)
    then have "StepDetector nws lfs tws amp = Inr s \<and> s = fst (calls s [])" by simp
    then show ?case by blast
  next
    case (called s x)
    then obtain s0 xs where "StepDetector nws lfs tws amp = Inr s0" and "s = fst (calls s0 xs)"
      by blast
    then have "StepDetector nws lfs tws amp = Inr s0
        \<and> fst (call s x) = fst (calls s0 (xs @ [x]))"
      by simp
    then show ?case by blast
  qed
next
  assume "\<exists>s0 xs. StepDetector nws lfs tws amp = Inr s0 \<and> s = fst (calls s0 xs)"
  then show "reachable nws lfs tws amp s"
    by (auto intro: reachable_calls constructed)
qed

section \<open>Reachable detectors\<close>

lemma inv_reachable: "reachable nws lfs tws amp s \<Longrightarrow> detector_inv s"
  by (induction rule: reachable.induct) (simp_all add: inv_StepDetector inv_call)

lemma config_reachable:
  assumes "reachable nws lfs tws amp s"
  shows "norm_window_size s = nat nws \<and> lp_filter_size s = nat lfs
    \<and> threshold_window_size s = nat tws \<and> min_step_amplitude s = amp"
  using assms
proof induction
  case (constructed s)
  then show ?case by (simp add: StepDetector_fields [OF constructed])
next
  case (called s x)
  then show ?case by (simp add: config_call)
qed

lemma sign_phase:
  "phase_of s \<noteq> None \<Longrightarrow>
   sign (last_peak s) \<and> length (peak_pair s) = 2 \<and> list_all sign (peak_pair s)"
  by (auto simp: phase_of_def sign_def split: if_splits)

lemma typed_inv:
  assumes "detector_inv s"
    and "norm_window_size s = nat nws" and "lp_filter_size s = nat lfs"
    and "threshold_window_size s = nat tws" and "min_step_amplitude s = amp"
  shows "typed nws lfs tws amp s"
  using assms sign_phase [of s]
  by (auto simp: typed_def detector_inv_def windows_ok_def marks_ok_def deque_inv_def
      deque_len_def sign_def)

lemma typed_reachable: "reachable nws lfs tws amp s \<Longrightarrow> typed nws lfs tws amp s"
  by (simp add: typed_inv inv_reachable config_reachable)

text \<open>
  C17. Type safety of the interface. Every detector reached from a successful
  construction by calls of \<^verbatim>\<open>process_sample\<close>, \<^verbatim>\<open>get_step_count\<close>, \<^verbatim>\<open>reset\<close>,
  \<^verbatim>\<open>reset_step_count\<close> and \<^verbatim>\<open>add_step\<close> in any order keeps the configuration it
  was built with, keeps every window within its capacity, has signs in
  \<^verbatim>\<open>last_slope\<close>, \<^verbatim>\<open>last_peak\<close> and the two entries of \<^verbatim>\<open>peak_pair\<close>, and a count
  that is not negative; and every call on it answers within the type of its
  method: \<^verbatim>\<open>get_step_count\<close> a natural number, the others \<^verbatim>\<open>None\<close>, and only
  \<^verbatim>\<open>process_sample\<close> may raise, \<^verbatim>\<open>IndexError\<close> or \<^verbatim>\<open>ZeroDivisionError\<close>.
\<close>

theorem interface_type_safe:
  assumes "reachable nws lfs tws amp s"
  shows "typed nws lfs tws amp s \<and> answer_typed x (snd (call s x))
    \<and> typed nws lfs tws amp (fst (call s x))"
proof -
  note t = typed_reachable [OF assms]
  then have "answer_typed x (snd (call s x))"
    by (simp add: answer_call typed_def)
  with t typed_reachable [OF called [OF assms]] show ?thesis by simp
qed

theorem interface_type_safe_witness:
  "reachable 20 7 10 (8 / 10) (fst (calls default_detector [Add_step, Reset, Add_step]))
   \<and> typed 20 7 10 (8 / 10) (fst (calls default_detector [Add_step, Reset, Add_step]))
   \<and> snd (call (fst (calls default_detector [Add_step, Reset, Add_step])) Get_step_count)
       = Inr (Some 1)"
  using interface_type_safe [OF reachable_calls [OF constructed [OF default_detector_fresh]],
      of "[Add_step, Reset, Add_step]" Get_step_count]
    reachable_calls [OF constructed [OF default_detector_fresh], of "[Add_step, Reset, Add_step]"]
  by (simp add: fst_call get_step_count_def add_step_def reset_def)

end
