(* ===== verification/Runs.thy ===== *)
theory Runs
  imports Detector_Inv
begin

text \<open>
  The detector over a sequence of samples, as the polling loop of
  \<^verbatim>\<open>src/main.py\<close> drives it: one \<^verbatim>\<open>process_sample\<close> call per reading, an exception
  caught by the loop and the next reading processed by the detector as the
  failed call left it. \<open>run\<close> folds \<^verbatim>\<open>process_sample\<close> over three-axis samples,
  \<open>run_norms\<close> folds its body over the norms, and \<open>observations\<close> lists what the
  detector sees along the way. The lemmas lift the single-call facts of
  \<open>Detector_Inv\<close> to runs: the invariant, monotonicity of the count, startup
  suppression, amplitude gating, silence on a constant signal, the count as a
  function of the confirmed peaks, what \<^verbatim>\<open>reset\<close> restores and what it
  does not, and that the manual controls commute with a run.
\<close>

section \<open>Runs\<close>

type_synonym sample = "real \<times> real \<times> real"

definition feed_norm :: "step_detector \<Rightarrow> real \<Rightarrow> step_detector" where
  "feed_norm s x = state_of (process_norm s x)"

definition feed :: "step_detector \<Rightarrow> sample \<Rightarrow> step_detector" where
  "feed s v = (case v of (ax, ay, az) \<Rightarrow> state_of (process_sample s ax ay az))"

definition run_norms :: "step_detector \<Rightarrow> real list \<Rightarrow> step_detector" where
  "run_norms s xs = foldl feed_norm s xs"

definition run :: "step_detector \<Rightarrow> sample list \<Rightarrow> step_detector" where
  "run s vs = foldl feed s vs"

fun observations :: "step_detector \<Rightarrow> real list \<Rightarrow> obs list" where
  "observations s [] = []"
| "observations s (x # xs) = observe s x # observations (feed_norm s x) xs"

definition norm_of :: "sample \<Rightarrow> real" where
  "norm_of v = (case v of (ax, ay, az) \<Rightarrow> norm3 ax ay az)"

lemma run_norms_simps [simp]:
  "run_norms s [] = s"
  "run_norms s (x # xs) = run_norms (feed_norm s x) xs"
  by (simp_all add: run_norms_def)

lemma run_simps [simp]:
  "run s [] = s"
  "run s (v # vs) = run (feed s v) vs"
  by (simp_all add: run_def)

lemma feed_norm_of: "feed s v = feed_norm s (norm_of v)"
  by (cases v) (simp add: feed_def feed_norm_def norm_of_def process_sample_def)

lemma run_run_norms: "run s vs = run_norms s (map norm_of vs)"
  by (induction vs arbitrary: s) (simp_all add: feed_norm_of)

lemma run_norms_append: "run_norms s (xs @ ys) = run_norms (run_norms s xs) ys"
  by (simp add: run_norms_def)

lemma inv_feed_norm: "detector_inv s \<Longrightarrow> detector_inv (feed_norm s x)"
  by (simp add: feed_norm_def inv_process_norm)

lemma inv_run_norms: "detector_inv s \<Longrightarrow> detector_inv (run_norms s xs)"
  by (induction xs arbitrary: s) (simp_all add: inv_feed_norm)

lemma step_count_run_norms:
  "detector_inv s \<Longrightarrow>
   step_count s \<le> step_count (run_norms s xs)
   \<and> step_count (run_norms s xs) \<le> step_count s + int (length xs)"
proof (induction xs arbitrary: s)
  case Nil
  then show ?case by simp
next
  case (Cons x xs)
  from Cons.prems have "detector_inv (feed_norm s x)" by (rule inv_feed_norm)
  from Cons.IH [OF this] step_count_process_norm [OF Cons.prems, of x]
  show ?case by (simp add: feed_norm_def)
qed

lemma run_refines:
  assumes "phase_of s = Some p"
  shows "\<exists>p' peaks' steps'.
     pm_run (p, peaks, steps) (observations s xs) = (p', peaks', steps')
     \<and> phase_of (run_norms s xs) = Some p'
     \<and> step_count (run_norms s xs) - step_count s = int steps' - int steps"
  using assms
proof (induction xs arbitrary: s p peaks steps)
  case Nil
  then show ?case by simp
next
  case (Cons x xs)
  let ?e = "observe s x"
  from process_norm_refines [OF Cons.prems, of x]
  have ph: "phase_of (feed_norm s x) = Some (fst (pm_next p ?e))"
    and sc: "step_count (feed_norm s x) = step_count s + (if snd (pm_next p ?e) then 1 else 0)"
    by (simp_all add: feed_norm_def)
  from Cons.IH [OF ph, of "if confirms p ?e then Suc peaks else peaks"
      "if snd (pm_next p ?e) then Suc steps else steps"]
  show ?case using sc by auto
qed


section \<open>Startup suppression\<close>

lemma len_feed_norm:
  assumes "windows_ok s"
  shows "deque_len (norm_buffer (feed_norm s x)) \<le> Suc (deque_len (norm_buffer s))"
    and "deque_len (threshold_buffer (feed_norm s x)) \<le> Suc (deque_len (threshold_buffer s))"
  using assms
  by (auto simp: feed_norm_def state_of_process_norm windows_ok_def len_append
      split: option.split)

lemma windows_feed_norm: "windows_ok s \<Longrightarrow> windows_ok (feed_norm s x)"
  by (simp add: feed_norm_def windows_process_norm)

lemma feed_norm_filling:
  assumes "windows_ok s" and "phase_of s = Some p"
    and "Suc (deque_len (norm_buffer s)) < norm_window_size s
         \<or> Suc (deque_len (threshold_buffer s)) < threshold_window_size s"
  shows "step_count (feed_norm s x) = step_count s" and "phase_of (feed_norm s x) = Some p"
  using process_norm_refines [OF assms(2), of x] observe_filling [OF assms(1,3), of x]
  by (simp_all add: feed_norm_def)

lemma run_norms_filling:
  assumes "windows_ok s" and "phase_of s = Some p"
    and "deque_len (norm_buffer s) + length xs < norm_window_size s
         \<or> deque_len (threshold_buffer s) + length xs < threshold_window_size s"
  shows "step_count (run_norms s xs) = step_count s"
  using assms
proof (induction xs arbitrary: s)
  case Nil
  then show ?case by simp
next
  case (Cons x xs)
  from Cons.prems(3)
  have now: "Suc (deque_len (norm_buffer s)) < norm_window_size s
      \<or> Suc (deque_len (threshold_buffer s)) < threshold_window_size s"
    by auto
  note st = feed_norm_filling [OF Cons.prems(1,2) now, of x]
  have w: "windows_ok (feed_norm s x)"
    using Cons.prems(1) by (rule windows_feed_norm)
  have "deque_len (norm_buffer (feed_norm s x)) + length xs < norm_window_size (feed_norm s x)
      \<or> deque_len (threshold_buffer (feed_norm s x)) + length xs
          < threshold_window_size (feed_norm s x)"
    using Cons.prems(3) len_feed_norm [OF Cons.prems(1), of x]
    by (auto simp: feed_norm_def)
  from Cons.IH [OF w st(2) this] st(1) show ?case by simp
qed

lemma startup_norms:
  assumes "StepDetector nws lfs tws amp = Inr s"
    and "int (length xs) < max nws tws"
  shows "step_count (run_norms s xs) = 0"
proof -
  note f = StepDetector_fields [OF assms(1)]
  have "windows_ok s" using assms(1) by (rule windows_StepDetector)
  moreover have "phase_of s = Some Idle" by (subst f) simp
  moreover have "deque_len (norm_buffer s) + length xs < norm_window_size s
      \<or> deque_len (threshold_buffer s) + length xs < threshold_window_size s"
    using assms(2) by (subst (1 2 3 4) f) (auto simp: deque_len_def)
  ultimately have "step_count (run_norms s xs) = step_count s"
    by (rule run_norms_filling)
  also have "\<dots> = 0" by (subst f) simp
  finally show ?thesis .
qed


section \<open>A constant signal\<close>

text \<open>
  A detector is calm when its low-pass window holds zeros only, the last
  filtered value is 0 and the last slope is not rising. A sample is flat for
  a detector when DC blocking takes it to 0. A flat sample leaves a calm
  detector calm and its count unchanged.
\<close>

definition calm :: "step_detector \<Rightarrow> bool" where
  "calm s \<longleftrightarrow>
     (\<forall>y\<in>set (items (lp_filter_buffer s)). y = 0)
     \<and> last_filtered s = 0 \<and> last_slope s \<noteq> 1"

definition flat :: "step_detector \<Rightarrow> real \<Rightarrow> bool" where
  "flat s x \<longleftrightarrow> block_dc x (items (deque_append (norm_buffer s) x)) = 0"

definition still :: "real \<Rightarrow> step_detector \<Rightarrow> bool" where
  "still c s \<longleftrightarrow> (\<forall>y\<in>set (items (norm_buffer s)). y = c) \<and> calm s"

lemma calm_condition_sample:
  assumes "calm s" and "flat s x"
  shows "calm (condition_sample s x)"
  using assms set_items_appendleft [of "lp_filter_buffer s" 0]
  by (auto simp: calm_def flat_def condition_sample_def Let_def)

lemma calm_filtered_value:
  assumes "calm s" and "flat s x" and "filtered_value s x = Some f"
  shows "f = 0"
proof -
  let ?b = "items (lp_filter_buffer (condition_sample s x))"
  from assms(3) have f: "lp_filter ?b = Inr f"
    by (auto simp: filtered_value_def Let_def split: if_splits sum.splits)
  then have "?b \<noteq> []" by (auto simp: lp_filter_def)
  moreover have "\<forall>y\<in>set ?b. y = 0"
    using calm_condition_sample [OF assms(1,2)] by (simp add: calm_def)
  ultimately have "lp_filter ?b = Inr 0" by (rule lp_filter_const)
  with f show ?thesis by simp
qed

lemma calm_track_sample:
  assumes "calm s"
  shows "calm (state_of (track_sample s 0))"
    and "step_count (state_of (track_sample s 0)) = step_count s"
  using assms
  by (auto simp: calm_def track_sample_def Let_def sign_of_slope_def peak_candidate_of_def)

lemma calm_feed_norm:
  assumes "calm s" and "flat s x"
  shows "calm (feed_norm s x)" and "step_count (feed_norm s x) = step_count s"
proof -
  note s2 = calm_condition_sample [OF assms]
  show "calm (feed_norm s x)"
    using s2 calm_track_sample(1) [OF s2] calm_filtered_value [OF assms]
    by (auto simp: feed_norm_def state_of_process_norm split: option.split)
  show "step_count (feed_norm s x) = step_count s"
    using calm_track_sample(2) [OF s2] calm_filtered_value [OF assms]
    by (auto simp: feed_norm_def state_of_process_norm split: option.split)
qed

lemma still_flat: "still c s \<Longrightarrow> flat s c"
  unfolding flat_def still_def
  using set_items_append [of "norm_buffer s" c] by (intro block_dc_const) auto

lemma still_feed_norm:
  assumes "still c s"
  shows "still c (feed_norm s c)" and "step_count (feed_norm s c) = step_count s"
proof -
  from assms have c: "calm s" by (simp add: still_def)
  have "\<forall>y\<in>set (items (norm_buffer (feed_norm s c))). y = c"
    using assms set_items_append [of "norm_buffer s" c]
    by (auto simp: still_def feed_norm_def)
  with calm_feed_norm(1) [OF c still_flat [OF assms]] show "still c (feed_norm s c)"
    by (simp add: still_def)
  show "step_count (feed_norm s c) = step_count s"
    using c still_flat [OF assms] by (rule calm_feed_norm)
qed

lemma still_run_norms:
  "still c s \<Longrightarrow> step_count (run_norms s (replicate n c)) = step_count s"
  by (induction n arbitrary: s) (simp_all add: still_feed_norm)

lemma calm_fresh: "StepDetector nws lfs tws amp = Inr s \<Longrightarrow> calm s"
  by (drule StepDetector_fields, erule ssubst) (simp add: calm_def)

lemma still_fresh: "StepDetector nws lfs tws amp = Inr s \<Longrightarrow> still c s"
  by (drule StepDetector_fields, erule ssubst) (simp add: still_def calm_def)

section \<open>Reset\<close>

lemma reset_eq_fresh:
  assumes "windows_ok s" and "lp_filter_size s = 7"
  shows "Inr (reset s) =
     StepDetector (int (norm_window_size s)) 7 (int (threshold_window_size s))
       (min_step_amplitude s)"
  using assms
  by (simp add: StepDetector_ok reset_def windows_ok_def new_eq deque_clear_def
      numeral_eq_Suc)

definition stuck :: "step_detector \<Rightarrow> bool" where
  "stuck s \<longleftrightarrow> maxlen (lp_filter_buffer s) < lp_filter_size s
     \<and> deque_inv (lp_filter_buffer s)"

lemma stuck_feed_norm:
  assumes "stuck s"
  shows "feed_norm s x = condition_sample s x" and "stuck (feed_norm s x)"
proof -
  have "deque_len (lp_filter_buffer (condition_sample s x)) < lp_filter_size s"
    using assms by (auto simp: stuck_def len_appendleft)
  then show "feed_norm s x = condition_sample s x"
    by (simp add: feed_norm_def process_norm_def Let_def)
  with assms show "stuck (feed_norm s x)" by (simp add: stuck_def)
qed

lemma stuck_run_norms:
  "stuck s \<Longrightarrow> step_count (run_norms s xs) = step_count s \<and> stuck (run_norms s xs)"
proof (induction xs arbitrary: s)
  case Nil
  then show ?case by simp
next
  case (Cons x xs)
  note st = stuck_feed_norm [OF Cons.prems, of x]
  from Cons.IH [OF st(2)] st(1) show ?case by simp
qed

lemma stuck_reset: "7 < lp_filter_size s \<Longrightarrow> stuck (reset s)"
  by (simp add: stuck_def reset_def)

section \<open>Gating, windows and the count along a run\<close>

lemma norm_buffer_feed_norm: "norm_buffer (feed_norm s x) = deque_append (norm_buffer s) x"
  by (simp add: feed_norm_def)

lemma norm_buffer_run_norms:
  "norm_buffer (run_norms s xs) = foldl deque_append (norm_buffer s) xs"
  by (induction xs arbitrary: s) (simp_all add: norm_buffer_feed_norm)

lemma norm_window_norms:
  assumes "windows_ok s"
  shows "items (norm_buffer (run_norms s xs)) =
     drop (deque_len (norm_buffer s) + length xs - norm_window_size s)
       (items (norm_buffer s) @ xs)"
  using assms
  by (simp add: norm_buffer_run_norms items_foldl_append windows_ok_def deque_len_def)

lemma steps_from_peaks_norms:
  assumes "StepDetector nws lfs tws amp = Inr s"
  shows "\<exists>p peaks.
     pm_run (Idle, 0, 0) (observations s xs) = (p, peaks, nat (step_count (run_norms s xs)))
     \<and> phase_of (run_norms s xs) = Some p
     \<and> step_count (run_norms s xs) = int ((peaks - 1) div 2)"
proof -
  note f = StepDetector_fields [OF assms]
  have idle: "phase_of s = Some Idle" and zero: "step_count s = 0"
    by (subst f, simp)+
  from run_refines [OF idle, of 0 0 xs] zero
  obtain p peaks steps where run: "pm_run (Idle, 0, 0) (observations s xs) = (p, peaks, steps)"
    and ph: "phase_of (run_norms s xs) = Some p"
    and sc: "step_count (run_norms s xs) = int steps"
    by auto
  have "pm_reachable (pm_run (Idle, 0, 0) (observations s xs))"
    by (intro pm_run_reachable pm_reachable.start)
  then have "steps = (peaks - 1) div 2"
    unfolding run by (intro pm_balanced_steps pm_reachable_balanced)
  with run ph sc show ?thesis by auto
qed

section \<open>Configuration is fixed along a run\<close>

lemma feed_norm_frame [simp]:
  "norm_window_size (feed_norm s x) = norm_window_size s"
  "lp_filter_size (feed_norm s x) = lp_filter_size s"
  "threshold_window_size (feed_norm s x) = threshold_window_size s"
  "min_step_amplitude (feed_norm s x) = min_step_amplitude s"
  by (simp_all add: feed_norm_def)

lemma run_norms_frame [simp]:
  "norm_window_size (run_norms s xs) = norm_window_size s"
  "lp_filter_size (run_norms s xs) = lp_filter_size s"
  "threshold_window_size (run_norms s xs) = threshold_window_size s"
  "min_step_amplitude (run_norms s xs) = min_step_amplitude s"
  by (induction xs arbitrary: s) simp_all

lemma windows_run_norms: "windows_ok s \<Longrightarrow> windows_ok (run_norms s xs)"
  by (induction xs arbitrary: s) (simp_all add: windows_feed_norm)

lemma run_append: "run s (vs @ ws) = run (run s vs) ws"
  by (simp add: run_def)

lemma inv_run: "detector_inv s \<Longrightarrow> detector_inv (run s vs)"
  by (simp add: run_run_norms inv_run_norms)

section \<open>Concrete runs\<close>

definition small_detector :: step_detector where
  "small_detector = projr (StepDetector 4 7 4 (8 / 10))"

definition zig :: "real list" where
  "zig = [0, 40, 80, 120, 160, 120, 80, 40]"

definition axis :: "real list \<Rightarrow> sample list" where
  "axis zs = map (\<lambda>z. (0, 0, z)) zs"

lemma small_detector_eq:
  "small_detector =
     \<lparr>norm_window_size = 4, lp_filter_size = 7, threshold_window_size = 4,
      min_step_amplitude = 8 / 10,
      norm_buffer = \<lparr>items = [], maxlen = 4\<rparr>,
      lp_filter_buffer = \<lparr>items = [0, 0, 0, 0, 0, 0, 0], maxlen = 7\<rparr>,
      threshold_buffer = \<lparr>items = [], maxlen = 4\<rparr>,
      last_filtered = 0, last_slope = 0, last_peak = 0,
      peak_pair = [0, 0], step_count = 0\<rparr>"
  by (simp add: small_detector_def StepDetector_ok numeral_eq_Suc)

lemma small_detector_fresh: "StepDetector 4 7 4 (8 / 10) = Inr small_detector"
  by (simp add: small_detector_def StepDetector_ok)

lemmas run_eval =
  run_norms_def feed_norm_def state_of_def process_norm_def condition_sample_def
  track_sample_def detect_def confirm_peak_def count_pair_def peak_candidate_of_def
  deque_append_def deque_appendleft_def deque_len_def block_dc_def lp_filter_def
  sign_of_slope_def Let_def nth_numeral_Cons

lemma small_zig: "step_count (run_norms small_detector (zig @ zig)) = 1"
  by (simp add: small_detector_eq zig_def run_eval)

lemma map_norm_of_axis: "\<forall>z\<in>set zs. 0 \<le> z \<Longrightarrow> map norm_of (axis zs) = zs"
  by (induction zs) (simp_all add: axis_def norm_of_def)

lemma run_axis: "\<forall>z\<in>set zs. 0 \<le> z \<Longrightarrow> run s (axis zs) = run_norms s zs"
  by (simp add: run_run_norms map_norm_of_axis)

lemma small_zig_half: "step_count (run_norms small_detector zig) = 0"
  by (simp add: small_detector_eq zig_def run_eval)

lemma zig_nonneg: "\<forall>z\<in>set zig. 0 \<le> z"
  by (simp add: zig_def)

lemma small_zig_run:
  "get_step_count (run small_detector (axis zig)) = 0"
  "get_step_count (run small_detector (axis zig @ axis zig)) = 1"
proof -
  have two: "axis zig @ axis zig = axis (zig @ zig)"
    by (simp add: axis_def)
  show "get_step_count (run small_detector (axis zig)) = 0"
    by (simp only: run_axis [OF zig_nonneg] get_step_count_def small_zig_half)
  have "\<forall>z\<in>set (zig @ zig). 0 \<le> z"
    using zig_nonneg by simp
  then show "get_step_count (run small_detector (axis zig @ axis zig)) = 1"
    by (simp only: two run_axis get_step_count_def small_zig)
qed

lemma inv_small: "detector_inv small_detector"
  using small_detector_fresh by (rule inv_StepDetector)

text \<open>
  C2. The count as a function of the confirmed peaks. Run a freshly
  constructed detector over any samples; let the peak machine read what the
  detector saw. Then the detector ends in the machine's phase, its count is
  the machine's count, and that count is \<open>(peaks - 1) div 2\<close> for the number of
  confirmed peaks: the first confirmed peak only arms the detector, and every
  two further confirmed peaks count one step.
\<close>

theorem steps_from_peaks:
  assumes "StepDetector nws lfs tws amp = Inr s"
  shows "\<exists>p peaks.
     pm_run (Idle, 0, 0) (observations s (map norm_of vs))
       = (p, peaks, nat (get_step_count (run s vs)))
     \<and> phase_of (run s vs) = Some p
     \<and> get_step_count (run s vs) = int ((peaks - 1) div 2)"
  using steps_from_peaks_norms [OF assms, of "map norm_of vs"]
  by (simp add: run_run_norms get_step_count_def)

theorem steps_from_peaks_witness:
  "StepDetector 4 7 4 (8 / 10) = Inr small_detector
   \<and> get_step_count (run small_detector ((axis zig @ axis zig))) = 1
   \<and> (\<exists>p peaks.
        pm_run (Idle, 0, 0) (observations small_detector (map norm_of ((axis zig @ axis zig))))
          = (p, peaks, nat (get_step_count (run small_detector ((axis zig @ axis zig)))))
        \<and> phase_of (run small_detector ((axis zig @ axis zig))) = Some p
        \<and> get_step_count (run small_detector ((axis zig @ axis zig))) = int ((peaks - 1) div 2))"
  using steps_from_peaks [OF small_detector_fresh, of "(axis zig @ axis zig)"]
    small_detector_fresh small_zig_run(2)
  by blast

text \<open>
  C4. Monotonicity: with no reset interleaved, the count never decreases as
  samples are fed to a well-formed detector, and it grows by at most one per
  sample.
\<close>

theorem step_count_monotone:
  assumes "detector_inv s"
  shows "get_step_count (run s vs) \<le> get_step_count (run s (vs @ ws))
       \<and> get_step_count (run s (vs @ ws)) \<le> get_step_count (run s vs) + int (length ws)"
  using step_count_run_norms [OF inv_run [OF assms, of vs], of "map norm_of ws"]
  by (simp add: run_append get_step_count_def) (simp add: run_run_norms)

theorem step_count_monotone_witness:
  "detector_inv small_detector
   \<and> get_step_count (run small_detector (axis zig)) = 0
   \<and> get_step_count (run small_detector (axis zig @ axis zig)) = 1
   \<and> get_step_count (run small_detector (axis zig))
       \<le> get_step_count (run small_detector (axis zig @ axis zig))"
  using step_count_monotone [OF inv_small, of "axis zig" "axis zig"] inv_small
    small_zig_run
  by blast

text \<open>
  C5. Startup suppression: a freshly constructed detector that has been fed
  fewer than \<open>max norm_window_size threshold_window_size\<close> samples has counted
  no step, whatever the samples are.
\<close>

theorem startup_suppression:
  assumes "StepDetector nws lfs tws amp = Inr s"
    and "int (length vs) < max nws tws"
  shows "get_step_count (run s vs) = 0"
  using startup_norms [OF assms(1), of "map norm_of vs"] assms(2)
  by (simp add: run_run_norms get_step_count_def)

theorem startup_suppression_witness:
  "StepDetector 20 7 10 (8 / 10) = Inr default_detector
   \<and> int (length (axis (replicate 19 1000))) < max 20 10
   \<and> get_step_count (run default_detector (axis (replicate 19 1000))) = 0"
  using startup_suppression [OF default_detector_fresh, of "axis (replicate 19 1000)"]
    default_detector_fresh
  by (simp add: axis_def del: map_replicate)


section \<open>Amplitude gating along a run\<close>

fun filtered_trace :: "step_detector \<Rightarrow> real list \<Rightarrow> real option list" where
  "filtered_trace s [] = []"
| "filtered_trace s (x # xs) = filtered_value s x # filtered_trace (feed_norm s x) xs"

lemma quiet_trace:
  assumes "phase_of s = Some p"
    and "\<forall>f. Some f \<in> set (filtered_trace s xs) \<longrightarrow> \<bar>f\<bar> \<le> min_step_amplitude s"
  shows "step_count (run_norms s xs) = step_count s"
  using assms
proof (induction xs arbitrary: s p)
  case Nil
  then show ?case by simp
next
  case (Cons x xs)
  have now: "step_count (feed_norm s x) = step_count s"
  proof (rule ccontr)
    assume "step_count (feed_norm s x) \<noteq> step_count s"
    then obtain f where "filtered_value s x = Some f"
      and "min_step_amplitude s < f \<or> f < - min_step_amplitude s"
      using counted_step_gates [OF Cons.prems(1), of x] by (auto simp: feed_norm_def)
    moreover from this(1) Cons.prems(2) have "\<bar>f\<bar> \<le> min_step_amplitude s"
      by simp
    ultimately show False by fastforce
  qed
  have ph: "phase_of (feed_norm s x) = Some (fst (pm_next p (observe s x)))"
    using process_norm_refines [OF Cons.prems(1), of x] by (simp add: feed_norm_def)
  have "\<forall>f. Some f \<in> set (filtered_trace (feed_norm s x) xs)
      \<longrightarrow> \<bar>f\<bar> \<le> min_step_amplitude (feed_norm s x)"
    using Cons.prems(2) by simp
  from Cons.IH [OF ph this] now show ?case by simp
qed

definition ripple :: "real list" where
  "ripple = [1, 2, 1, 2, 1, 2]"

lemma ripple_trace:
  "filtered_trace small_detector ripple
     = [Some 0, Some (1 / 32), Some (1 / 24), Some (1 / 12), Some (3 / 32), Some (7 / 96)]"
  by (simp add: ripple_def small_detector_eq filtered_value_def run_eval)

text \<open>
  C7. Amplitude gating: over a run in which no filtered value exceeds
  \<^verbatim>\<open>min_step_amplitude\<close> in magnitude, the count does not change, however many
  oscillations the signal makes.
\<close>

theorem amplitude_gating:
  assumes "detector_inv s"
    and "\<forall>f. Some f \<in> set (filtered_trace s (map norm_of vs)) \<longrightarrow> \<bar>f\<bar> \<le> min_step_amplitude s"
  shows "get_step_count (run s vs) = get_step_count s"
proof -
  from assms(1) obtain p where "phase_of s = Some p"
    by (auto simp: detector_inv_def marks_ok_def)
  from quiet_trace [OF this assms(2)] show ?thesis
    by (simp add: run_run_norms get_step_count_def)
qed

theorem amplitude_gating_witness:
  "detector_inv small_detector
   \<and> filtered_trace small_detector (map norm_of (axis ripple))
       = [Some 0, Some (1 / 32), Some (1 / 24), Some (1 / 12), Some (3 / 32), Some (7 / 96)]
   \<and> min_step_amplitude small_detector = 8 / 10
   \<and> get_step_count (run small_detector (axis ripple)) = get_step_count small_detector"
proof -
  have n: "map norm_of (axis ripple) = ripple"
    by (rule map_norm_of_axis) (simp add: ripple_def)
  have t: "filtered_trace small_detector (map norm_of (axis ripple))
      = [Some 0, Some (1 / 32), Some (1 / 24), Some (1 / 12), Some (3 / 32), Some (7 / 96)]"
    unfolding n by (rule ripple_trace)
  have a: "min_step_amplitude small_detector = 8 / 10"
    by (simp add: small_detector_eq)
  have q: "\<forall>f. Some f \<in> set (filtered_trace small_detector (map norm_of (axis ripple)))
      \<longrightarrow> \<bar>f\<bar> \<le> min_step_amplitude small_detector"
    unfolding t a by auto
  from amplitude_gating [OF inv_small q] inv_small t a show ?thesis by blast
qed

section \<open>Silence, reset and the norm window\<close>

text \<open>
  C11. A constant signal never counts: a freshly constructed detector fed the
  same sample any number of times reports 0 steps, for every configuration
  (the DC blocker cancels the constant, the filtered signal is 0 throughout
  and its slope never turns from rising to falling).
\<close>

theorem constant_signal_never_counts:
  assumes "StepDetector nws lfs tws amp = Inr s"
  shows "get_step_count (run s (replicate n v)) = 0"
proof -
  have "step_count (run_norms s (replicate n (norm_of v))) = step_count s"
    using assms by (intro still_run_norms still_fresh)
  moreover have "step_count s = 0"
    by (subst StepDetector_fields [OF assms]) simp
  ultimately show ?thesis
    by (simp add: run_run_norms get_step_count_def)
qed

theorem constant_signal_never_counts_witness:
  "StepDetector 20 7 10 (8 / 10) = Inr default_detector
   \<and> get_step_count (run default_detector (replicate 30 (0, 0, 98 / 10))) = 0"
  using constant_signal_never_counts [OF default_detector_fresh, of 30 "(0, 0, 98 / 10)"]
    default_detector_fresh
  by blast

lemma reset_run_norms:
  assumes "StepDetector nws 7 tws amp = Inr s"
  shows "reset (run_norms s xs) = s"
proof -
  note f = StepDetector_fields [OF assms]
  from assms have nn: "0 \<le> nws" "0 \<le> tws" by (auto dest: StepDetector_InrD)
  let ?t = "run_norms s xs"
  have w: "windows_ok ?t"
    using assms by (simp add: windows_run_norms windows_StepDetector)
  have cfg: "norm_window_size s = nat nws" "lp_filter_size s = 7"
    "threshold_window_size s = nat tws" "min_step_amplitude s = amp"
    by (subst f, simp)+
  then have "lp_filter_size ?t = 7" by simp
  from reset_eq_fresh [OF w this] have "Inr (reset ?t) = StepDetector nws 7 tws amp"
    using nn by (simp add: cfg)
  with assms show ?thesis by simp
qed

text \<open>
  C8. Reset correctness: for a detector constructed with
  \<^verbatim>\<open>lp_filter_size = 7\<close>, \<^verbatim>\<open>reset\<close> after any run gives back exactly the
  constructed detector, so replaying a sample sequence after \<^verbatim>\<open>reset\<close>
  reproduces the same counts.
\<close>

theorem reset_restores_construction:
  assumes "StepDetector nws 7 tws amp = Inr s"
  shows "reset (run s vs) = s"
  using reset_run_norms [OF assms] by (simp add: run_run_norms)

theorem reset_restores_construction_witness:
  "StepDetector 4 7 4 (8 / 10) = Inr small_detector
   \<and> get_step_count (run small_detector (axis zig @ axis zig)) = 1
   \<and> reset (run small_detector (axis zig @ axis zig)) = small_detector"
  using reset_restores_construction [OF small_detector_fresh, of "axis zig @ axis zig"]
    small_detector_fresh small_zig_run(2)
  by blast


definition wide_detector :: step_detector where
  "wide_detector = projr (StepDetector 4 8 4 (8 / 10))"

lemma wide_detector_eq:
  "wide_detector =
     \<lparr>norm_window_size = 4, lp_filter_size = 8, threshold_window_size = 4,
      min_step_amplitude = 8 / 10,
      norm_buffer = \<lparr>items = [], maxlen = 4\<rparr>,
      lp_filter_buffer = \<lparr>items = [0, 0, 0, 0, 0, 0, 0], maxlen = 8\<rparr>,
      threshold_buffer = \<lparr>items = [], maxlen = 4\<rparr>,
      last_filtered = 0, last_slope = 0, last_peak = 0,
      peak_pair = [0, 0], step_count = 0\<rparr>"
  by (simp add: wide_detector_def StepDetector_ok numeral_eq_Suc)

lemma wide_zig: "step_count (run_norms wide_detector (zig @ zig)) = 1"
  by (simp add: wide_detector_eq zig_def run_eval)

lemma wide_zig_run: "get_step_count (run wide_detector (axis zig @ axis zig)) = 1"
proof -
  have two: "axis zig @ axis zig = axis (zig @ zig)"
    by (simp add: axis_def)
  have "\<forall>z\<in>set (zig @ zig). 0 \<le> z"
    using zig_nonneg by simp
  then show ?thesis
    by (simp only: two run_axis get_step_count_def wide_zig)
qed

text \<open>
  C9. For a detector constructed with \<^verbatim>\<open>lp_filter_size\<close> above 7, \<^verbatim>\<open>reset\<close>
  does not restore the constructed state: it installs a low-pass window of
  capacity 7, which never reaches \<^verbatim>\<open>lp_filter_size\<close> entries, so every later
  \<^verbatim>\<open>process_sample\<close> returns at the fill check and no step is counted again.
\<close>

theorem reset_stuck:
  assumes "7 < lp_filter_size s"
  shows "get_step_count (run (reset s) vs) = 0"
  using stuck_run_norms [OF stuck_reset [OF assms], of "map norm_of vs"]
  by (simp add: run_run_norms get_step_count_def) (simp add: reset_def)

theorem reset_stuck_witness:
  "7 < lp_filter_size wide_detector
   \<and> get_step_count (run wide_detector (axis zig @ axis zig)) = 1
   \<and> get_step_count (run (reset wide_detector) (axis zig @ axis zig)) = 0"
proof -
  have w: "7 < lp_filter_size wide_detector"
    by (simp add: wide_detector_eq)
  from reset_stuck [OF w, of "axis zig @ axis zig"] w wide_zig_run show ?thesis
    by blast
qed

text \<open>
  C37. The norm window is a FIFO of capacity \<^verbatim>\<open>norm_window_size\<close>: after a
  run it holds, in arrival order, the last \<^verbatim>\<open>norm_window_size\<close> of the norms
  it held before followed by the norms of the samples fed.
\<close>

theorem norm_window_fifo:
  assumes "windows_ok s"
  shows "items (norm_buffer (run s vs)) =
     drop (deque_len (norm_buffer s) + length vs - norm_window_size s)
       (items (norm_buffer s) @ map norm_of vs)"
  using norm_window_norms [OF assms, of "map norm_of vs"] by (simp add: run_run_norms)

theorem norm_window_fifo_witness:
  "windows_ok small_detector
   \<and> items (norm_buffer (run small_detector [(3, 4, 12), (0, 0, 1), (0, 3, 4), (0, 0, 2), (0, 0, 7)]))
       = [1, 5, 2, 7]"
proof -
  have "windows_ok small_detector"
    using inv_small by (simp add: detector_inv_def)
  from norm_window_fifo [OF this, of "[(3, 4, 12), (0, 0, 1), (0, 3, 4), (0, 0, 2), (0, 0, 7)]"] this
  show ?thesis
    by (simp add: small_detector_eq deque_len_def norm_of_def norm3_def)
qed

section \<open>Manual controls along a run\<close>

lemma feed_norm_count:
  "feed_norm (s\<lparr>step_count := c\<rparr>) x = recount s c (feed_norm s x)"
  by (simp add: feed_norm_def process_norm_count)

lemma run_norms_count:
  "run_norms (s\<lparr>step_count := c\<rparr>) xs = recount s c (run_norms s xs)"
proof (induction xs arbitrary: s c)
  case Nil
  show ?case by (simp add: recount_def)
next
  case (Cons x xs)
  have "run_norms (s\<lparr>step_count := c\<rparr>) (x # xs)
      = run_norms ((feed_norm s x)\<lparr>step_count :=
          c + (step_count (feed_norm s x) - step_count s)\<rparr>) xs"
    by (simp add: feed_norm_count recount_def)
  also have "\<dots> = recount s c (run_norms (feed_norm s x) xs)"
    by (simp add: Cons.IH recount_def)
  finally show ?case by simp
qed

text \<open>
  C35. The manual controls and detection do not disturb each other.
  \<^verbatim>\<open>add_step\<close> before a run of samples gives the same detector as \<^verbatim>\<open>add_step\<close>
  after it; after \<^verbatim>\<open>reset_step_count\<close> a run counts the steps it would have
  counted anyway, from 0. \<^verbatim>\<open>reset_step_count\<close> reads back 0, three \<^verbatim>\<open>add_step\<close>
  calls after it read back 3, and neither writes any field but the count.
\<close>

theorem manual_controls:
  "run (add_step s) vs = add_step (run s vs)
   \<and> get_step_count (run (reset_step_count s) vs)
       = get_step_count (run s vs) - get_step_count s
   \<and> get_step_count (reset_step_count s) = 0
   \<and> get_step_count (add_step (add_step (add_step (reset_step_count s)))) = 3
   \<and> (reset_step_count s)\<lparr>step_count := c\<rparr> = s\<lparr>step_count := c\<rparr>
   \<and> (add_step s)\<lparr>step_count := c\<rparr> = s\<lparr>step_count := c\<rparr>"
  by (simp add: run_run_norms add_step_def reset_step_count_def get_step_count_def
      run_norms_count recount_def)

end
