(* ===== verification/Lowpass.thy ===== *)
theory Lowpass
  imports Runs
begin

text \<open>
  The low-pass stage of \<^verbatim>\<open>process_sample\<close> (\<^verbatim>\<open>src/step_detector.py\<close>, lines 46 to
  56) over a run, stated against the signal and not against the state: the
  DC-blocked value of the \<open>k\<close>-th norm of a run (\<open>blocked_at\<close>) is that norm
  minus the mean of the last \<open>N\<close> norms up to and including it, \<open>delayed\<close> is
  the blocked signal \<open>i\<close> samples back, zero before the run began, and \<open>fir\<close>
  is the seven-tap filter with weights 1, 2, 3, 4, 3, 2, 1 over 16 on that
  signal. The theory shows what the low-pass window holds after a run, that
  the value the detector keeps in \<^verbatim>\<open>last_filtered\<close> is \<open>fir\<close> of the run when
  \<^verbatim>\<open>lp_filter_size\<close> is at least 7, and that it is the blocked signal delayed
  by \<^verbatim>\<open>lp_filter_size - 1\<close> samples when \<^verbatim>\<open>lp_filter_size\<close> is below 7.
\<close>

section \<open>The blocked signal\<close>

definition blocked_at :: "nat \<Rightarrow> real list \<Rightarrow> nat \<Rightarrow> real" where
  "blocked_at N xs k = block_dc (xs ! k) (drop (Suc k - N) (take (Suc k) xs))"

definition seen :: "step_detector \<Rightarrow> real list \<Rightarrow> real list" where
  "seen s xs =
     map (\<lambda>k. blocked_at (norm_window_size s) (items (norm_buffer s) @ xs)
                 (deque_len (norm_buffer s) + k))
       [0..<length xs]"

definition delayed :: "nat \<Rightarrow> real list \<Rightarrow> nat \<Rightarrow> real" where
  "delayed N xs i = (if i < length xs then blocked_at N xs (length xs - 1 - i) else 0)"

definition fir :: "nat \<Rightarrow> real list \<Rightarrow> real" where
  "fir N xs =
     (delayed N xs 0 + 2 * delayed N xs 1 + 3 * delayed N xs 2 + 4 * delayed N xs 3
        + 3 * delayed N xs 4 + 2 * delayed N xs 5 + delayed N xs 6) / 16"

definition short_detector :: step_detector where
  "short_detector = projr (StepDetector 4 2 4 (8 / 10))"

lemma blocked_at_append: "k < length ys \<Longrightarrow> blocked_at N (ys @ zs) k = blocked_at N ys k"
  by (simp add: blocked_at_def nth_append)

lemma blocked_at_last:
  "blocked_at N (ys @ [x]) (length ys) = block_dc x (drop (Suc (length ys) - N) (ys @ [x]))"
  by (simp add: blocked_at_def)

lemma seen_Nil [simp]: "seen s [] = []"
  by (simp add: seen_def)

lemma length_seen [simp]: "length (seen s xs) = length xs"
  by (simp add: seen_def)

lemma seen_snoc:
  "seen s (xs @ [x]) =
     seen s xs @ [block_dc x (drop (Suc (deque_len (norm_buffer s) + length xs)
                                       - norm_window_size s)
                                (items (norm_buffer s) @ xs @ [x]))]"
proof -
  let ?h = "items (norm_buffer s)"
  have "blocked_at (norm_window_size s) (?h @ xs @ [x]) (length ?h + k)
      = blocked_at (norm_window_size s) (?h @ xs) (length ?h + k)" if "k < length xs" for k
    using that blocked_at_append [of "length ?h + k" "?h @ xs" _ "[x]"] by simp
  moreover have "blocked_at (norm_window_size s) (?h @ xs @ [x]) (length ?h + length xs)
      = block_dc x (drop (Suc (length ?h + length xs) - norm_window_size s) (?h @ xs @ [x]))"
    using blocked_at_last [of _ "?h @ xs" x] by simp
  ultimately show ?thesis
    by (simp add: seen_def deque_len_def)
qed

lemma seen_fresh:
  assumes "StepDetector nws lfs tws amp = Inr s"
  shows "seen s xs = map (blocked_at (nat nws) xs) [0..<length xs]"
  by (subst StepDetector_fields [OF assms])+ (simp add: seen_def deque_len_def)

section \<open>The low-pass window after a run\<close>

lemma take_Cons_take: "take m (y # take m l) = take m (y # l)"
  by (cases m) simp_all

lemma maxlen_lp_run_norms [simp]:
  "maxlen (lp_filter_buffer (run_norms s xs)) = maxlen (lp_filter_buffer s)"
  by (induction xs arbitrary: s) (simp_all add: feed_norm_def lp_buffer_process_norm)

lemma lp_buffer_feed_norm:
  assumes "windows_ok s"
  shows "items (lp_filter_buffer (feed_norm s x)) =
     take (maxlen (lp_filter_buffer s))
       (block_dc x (items (norm_buffer (feed_norm s x))) # items (lp_filter_buffer s))"
  using assms
  by (simp add: feed_norm_def lp_buffer_process_norm items_appendleft_take windows_ok_def)

lemma lp_items_run_norms:
  assumes "windows_ok s"
  shows "items (lp_filter_buffer (run_norms s xs)) =
     take (maxlen (lp_filter_buffer s)) (rev (seen s xs) @ items (lp_filter_buffer s))"
proof (induction xs rule: rev_induct)
  case Nil
  from assms show ?case by (simp add: windows_ok_def deque_inv_def)
next
  case (snoc x xs)
  let ?s = "run_norms s xs" and ?M = "maxlen (lp_filter_buffer s)"
  define b where "b = block_dc x (drop (Suc (deque_len (norm_buffer s) + length xs)
      - norm_window_size s) (items (norm_buffer s) @ xs @ [x]))"
  have w: "windows_ok ?s" using assms by (rule windows_run_norms)
  have "items (norm_buffer (feed_norm ?s x))
      = drop (Suc (deque_len (norm_buffer s) + length xs) - norm_window_size s)
          (items (norm_buffer s) @ xs @ [x])"
    using norm_window_norms [OF assms, of "xs @ [x]"] by (simp add: run_norms_append)
  then have "block_dc x (items (norm_buffer (feed_norm ?s x))) = b"
    by (simp only: b_def)
  with lp_buffer_feed_norm [OF w, of x]
  have "items (lp_filter_buffer (run_norms s (xs @ [x])))
      = take ?M (b # items (lp_filter_buffer ?s))"
    by (simp add: run_norms_append)
  also have "\<dots> = take ?M (b # take ?M (rev (seen s xs) @ items (lp_filter_buffer s)))"
    by (simp only: snoc)
  also have "\<dots> = take ?M (b # rev (seen s xs) @ items (lp_filter_buffer s))"
    by (rule take_Cons_take)
  also have "\<dots> = take ?M (rev (seen s (xs @ [x])) @ items (lp_filter_buffer s))"
    by (simp only: seen_snoc b_def rev_append rev.simps append.simps)
  finally show ?case .
qed

section \<open>The filtered value after a run\<close>

lemma last_filtered_track_sample:
  "deque_len (deque_append (threshold_buffer s) f) \<noteq> 0 \<Longrightarrow>
   last_filtered (state_of (track_sample s f)) = f"
  by (simp add: track_sample_def Let_def state_of_def)

lemma lp_buffer_condition_sample:
  "lp_filter_buffer (condition_sample s x) = lp_filter_buffer (feed_norm s x)"
  by (simp add: feed_norm_def lp_buffer_process_norm condition_sample_def Let_def)

lemma last_filtered_feed_norm:
  assumes "windows_ok s" and "0 < threshold_window_size s"
    and "lp_filter_size s \<le> deque_len (lp_filter_buffer (feed_norm s x))"
    and "lp_filter (items (lp_filter_buffer (feed_norm s x))) = Inr f"
  shows "last_filtered (feed_norm s x) = f"
proof -
  from assms(1,2) have "deque_len (deque_append (threshold_buffer (condition_sample s x)) f) \<noteq> 0"
    by (simp add: len_append_0_iff windows_ok_def)
  then have "last_filtered (state_of (track_sample (condition_sample s x) f)) = f"
    by (rule last_filtered_track_sample)
  moreover from assms(3,4)
  have "lp_filter_size s \<le> deque_len (lp_filter_buffer (condition_sample s x))"
    and "lp_filter (items (lp_filter_buffer (condition_sample s x))) = Inr f"
    by (simp_all only: lp_buffer_condition_sample)
  then have "process_norm s x = track_sample (condition_sample s x) f"
    by (simp add: process_norm_def Let_def)
  ultimately show ?thesis by (simp add: feed_norm_def)
qed

lemma nth_history:
  "i < 7 \<Longrightarrow>
   (rev (map (blocked_at N xs) [0..<length xs]) @ replicate 7 0) ! i = delayed N xs i"
  by (simp add: nth_append rev_nth delayed_def)

lemma take_pad: "take L (A @ replicate (min 7 L) c) = take L (A @ replicate 7 c)"
  by (auto simp: min_def)

lemma fresh_window:
  assumes "StepDetector nws lfs tws amp = Inr s"
  shows "items (lp_filter_buffer (run_norms s xs))
     = take (nat lfs) (rev (map (blocked_at (nat nws) xs) [0..<length xs]) @ replicate 7 0)"
proof -
  note f = StepDetector_fields [OF assms]
  have "items (lp_filter_buffer s) = replicate (min 7 (nat lfs)) 0"
    and "maxlen (lp_filter_buffer s) = nat lfs"
    by (subst f, simp)+
  with lp_items_run_norms [OF windows_StepDetector [OF assms], of xs] show ?thesis
    by (simp only: seen_fresh [OF assms] take_pad)
qed

lemma fresh_filter:
  assumes "StepDetector nws lfs tws amp = Inr s" and "0 < lfs" and "0 < tws"
    and "nat lfs - 7 \<le> length xs"
  shows "lp_filter (take (nat lfs)
           (rev (map (blocked_at (nat nws) xs) [0..<length xs]) @ replicate 7 0))
     = Inr (last_filtered (run_norms s xs))"
proof (cases xs rule: rev_cases)
  case Nil
  with assms(2) show ?thesis
    by (subst StepDetector_fields [OF assms(1)]) (simp add: lp_filter_const)
next
  case (snoc ys x)
  let ?s = "run_norms s ys"
  define I where "I = take (nat lfs)
      (rev (map (blocked_at (nat nws) xs) [0..<length xs]) @ replicate 7 0)"
  note f = StepDetector_fields [OF assms(1)]
  have c: "threshold_window_size s = nat tws" "lp_filter_size s = nat lfs"
    by (subst f, simp)+
  have w: "windows_ok ?s"
    using windows_StepDetector [OF assms(1)] by (rule windows_run_norms)
  have i: "items (lp_filter_buffer (feed_norm ?s x)) = I"
    using fresh_window [OF assms(1), of xs] by (simp add: snoc run_norms_append I_def)
  from assms(2,4) have l: "nat lfs \<le> length I" and "I \<noteq> []"
    by (auto simp: I_def)
  then obtain v where v: "lp_filter I = Inr v"
    using lp_filter_ok_iff [of I] by (auto simp: is_ok_iff)
  from assms(3) l have "last_filtered (feed_norm ?s x) = v"
    by (intro last_filtered_feed_norm [OF w]) (simp_all add: c i v deque_len_def)
  with v show ?thesis by (simp add: snoc run_norms_append I_def)
qed

lemma lp_filter_long:
  assumes "7 \<le> L"
  shows "lp_filter (take L (rev (map (blocked_at N xs) [0..<length xs]) @ replicate 7 0))
     = Inr (fir N xs)"
proof -
  define h where "h = rev (map (blocked_at N xs) [0..<length xs]) @ replicate 7 0"
  have "take L h ! i = delayed N xs i" if "i < 7" for i
    using that assms nth_history [of i N xs] by (simp add: h_def del: take_append)
  moreover from assms have "\<not> length (take L h) < 7" by (simp add: h_def)
  ultimately show ?thesis
    by (simp add: lp_filter_def fir_def flip: h_def)
qed

lemma lp_filter_short_window:
  assumes "0 < L" and "L < 7"
  shows "lp_filter (take L (rev (map (blocked_at N xs) [0..<length xs]) @ replicate 7 0))
     = Inr (delayed N xs (L - 1))"
proof -
  define h where "h = rev (map (blocked_at N xs) [0..<length xs]) @ replicate 7 0"
  from assms have l: "length (take L h) = L" by (simp add: h_def)
  with assms have "last (take L h) = take L h ! (L - 1)"
    by (subst last_conv_nth) auto
  also from assms have "\<dots> = delayed N xs (L - 1)"
    using nth_history [of "L - 1" N xs] by (simp add: h_def del: take_append)
  finally show ?thesis
    using assms l by (auto simp: lp_filter_def simp flip: h_def)
qed

lemma short_detector_fresh: "StepDetector 4 2 4 (8 / 10) = Inr short_detector"
  by (simp add: short_detector_def StepDetector_ok)

section \<open>The low-pass stage as a filter on the signal\<close>

text \<open>
  C36. The low-pass window after a run. From any detector with well-formed
  windows, after a run the low-pass window holds the DC-blocked values of
  the samples of the run, newest first, followed by what it held before, cut
  at its capacity; the blocked value of a sample is its norm minus the mean
  of the last \<^verbatim>\<open>norm_window_size\<close> norms up to and including it.
\<close>

theorem lp_window_history:
  assumes "windows_ok s"
  shows "items (lp_filter_buffer (run s vs)) =
     take (maxlen (lp_filter_buffer s))
       (rev (seen s (map norm_of vs)) @ items (lp_filter_buffer s))"
  using lp_items_run_norms [OF assms] by (simp add: run_run_norms)

theorem lp_window_history_witness:
  "windows_ok default_detector
   \<and> items (lp_filter_buffer (run default_detector (axis [1, 3, 8]))) = [4, 1, 0, 0, 0, 0, 0]"
  using lp_window_history [of default_detector "axis [1, 3, 8]"] inv_default
  by (simp add: detector_inv_def map_norm_of_axis seen_def blocked_at_def block_dc_def
      default_detector_eq deque_len_def upt_rec [of 0] upt_rec [of 1] upt_rec [of 2]
      upt_rec [of 3])

text \<open>
  C31. The low-pass stage is a seven-tap filter on the blocked signal. For a
  detector constructed with \<^verbatim>\<open>lp_filter_size\<close> at least 7 and a threshold
  window of positive capacity, after a run that has filled the low-pass
  window, \<^verbatim>\<open>last_filtered\<close> is the weighted sum, with weights 1, 2, 3, 4, 3, 2,
  1 over 16, of the blocked values of the last seven samples, newest first,
  with zero for what lies before the run.
\<close>

theorem lowpass_is_fir:
  assumes "StepDetector nws lfs tws amp = Inr s" and "7 \<le> lfs" and "0 < tws"
    and "nat lfs - 7 \<le> length vs"
  shows "last_filtered (run s vs) = fir (nat nws) (map norm_of vs)"
proof -
  let ?xs = "map norm_of vs"
  let ?I = "take (nat lfs) (rev (map (blocked_at (nat nws) ?xs) [0..<length ?xs]) @ replicate 7 0)"
  from assms have "lp_filter ?I = Inr (last_filtered (run_norms s ?xs))"
    by (intro fresh_filter [OF assms(1)]) simp_all
  moreover from assms(2) have "lp_filter ?I = Inr (fir (nat nws) ?xs)"
    by (intro lp_filter_long) simp
  ultimately show ?thesis by (simp only: run_run_norms sum.inject)
qed

theorem lowpass_is_fir_witness:
  "StepDetector 20 7 10 (8 / 10) = Inr default_detector \<and> (7 :: int) \<le> 7 \<and> (0 :: int) < 10
   \<and> nat 7 - 7 \<le> length (axis [1, 3, 8])
   \<and> last_filtered (run default_detector (axis [1, 3, 8])) = 6 / 16"
  using lowpass_is_fir [OF default_detector_fresh, of "axis [1, 3, 8]"] default_detector_fresh
  by (simp add: map_norm_of_axis fir_def delayed_def blocked_at_def block_dc_def)

text \<open>
  C33. With \<^verbatim>\<open>lp_filter_size\<close> below 7 the low-pass stage is a delay. The
  short-buffer branch of \<^verbatim>\<open>lp_filter\<close> returns the last entry of the window,
  which is filled from the left: for a detector constructed with
  \<^verbatim>\<open>lp_filter_size\<close> between 1 and 6, \<^verbatim>\<open>last_filtered\<close> after a run is the blocked
  value of the sample \<^verbatim>\<open>lp_filter_size - 1\<close> calls before the newest, and zero
  while the run is shorter than that; it is the newest blocked value only
  when \<^verbatim>\<open>lp_filter_size\<close> is 1.
\<close>

theorem short_lowpass_is_delay:
  assumes "StepDetector nws lfs tws amp = Inr s" and "0 < lfs" and "lfs < 7" and "0 < tws"
  shows "last_filtered (run s vs) = delayed (nat nws) (map norm_of vs) (nat lfs - 1)"
proof -
  let ?xs = "map norm_of vs"
  let ?I = "take (nat lfs) (rev (map (blocked_at (nat nws) ?xs) [0..<length ?xs]) @ replicate 7 0)"
  from assms have "lp_filter ?I = Inr (last_filtered (run_norms s ?xs))"
    by (intro fresh_filter [OF assms(1)]) simp_all
  moreover from assms(2,3) have "lp_filter ?I = Inr (delayed (nat nws) ?xs (nat lfs - 1))"
    by (intro lp_filter_short_window) simp_all
  ultimately show ?thesis by (simp only: run_run_norms sum.inject)
qed

theorem short_lowpass_is_delay_witness:
  "StepDetector 4 2 4 (8 / 10) = Inr short_detector \<and> (0 :: int) < 2 \<and> (2 :: int) < 7
   \<and> (0 :: int) < 4
   \<and> last_filtered (run short_detector (axis [1, 3, 8])) = 1
   \<and> last_filtered (run short_detector (axis [1])) = 0"
  using short_lowpass_is_delay [OF short_detector_fresh, of "axis [1, 3, 8]"]
    short_lowpass_is_delay [OF short_detector_fresh, of "axis [1]"] short_detector_fresh
  by (simp add: map_norm_of_axis delayed_def blocked_at_def block_dc_def)

end
