(* ===== verification/Scaling.thy ===== *)
theory Scaling
  imports Runs
begin

text \<open>
  A change of the unit of acceleration. The pipeline of \<^verbatim>\<open>process_sample\<close> is
  linear up to the comparisons, and the comparisons are between quantities
  that scale together: when every sample and \<^verbatim>\<open>min_step_amplitude\<close> are
  multiplied by the same positive factor, the detector goes through the
  scaled states and counts the same steps.
\<close>

section \<open>Scaling a detector\<close>

definition scale_deque :: "real \<Rightarrow> real deque \<Rightarrow> real deque" where
  "scale_deque c d = d\<lparr>items := map ((*) c) (items d)\<rparr>"

definition scale :: "real \<Rightarrow> step_detector \<Rightarrow> step_detector" where
  "scale c s =
     s\<lparr>min_step_amplitude := c * min_step_amplitude s,
       norm_buffer := scale_deque c (norm_buffer s),
       lp_filter_buffer := scale_deque c (lp_filter_buffer s),
       threshold_buffer := scale_deque c (threshold_buffer s),
       last_filtered := c * last_filtered s\<rparr>"

definition scale_sample :: "real \<Rightarrow> sample \<Rightarrow> sample" where
  "scale_sample c v = (case v of (ax, ay, az) \<Rightarrow> (c * ax, c * ay, c * az))"

lemma scale_deque_simps [simp]:
  "items (scale_deque c d) = map ((*) c) (items d)"
  "maxlen (scale_deque c d) = maxlen d"
  "deque_len (scale_deque c d) = deque_len d"
  by (simp_all add: scale_deque_def deque_len_def)

lemma scale_deque_append:
  "deque_append (scale_deque c d) (c * x) = scale_deque c (deque_append d x)"
  by (simp add: deque_append_def scale_deque_def Let_def map_tl)

lemma scale_deque_appendleft:
  "deque_appendleft (scale_deque c d) (c * x) = scale_deque c (deque_appendleft d x)"
  by (simp add: deque_appendleft_def scale_deque_def Let_def map_butlast)

lemma scale_simps [simp]:
  "norm_window_size (scale c s) = norm_window_size s"
  "lp_filter_size (scale c s) = lp_filter_size s"
  "threshold_window_size (scale c s) = threshold_window_size s"
  "min_step_amplitude (scale c s) = c * min_step_amplitude s"
  "norm_buffer (scale c s) = scale_deque c (norm_buffer s)"
  "lp_filter_buffer (scale c s) = scale_deque c (lp_filter_buffer s)"
  "threshold_buffer (scale c s) = scale_deque c (threshold_buffer s)"
  "last_filtered (scale c s) = c * last_filtered s"
  "last_slope (scale c s) = last_slope s"
  "last_peak (scale c s) = last_peak s"
  "peak_pair (scale c s) = peak_pair s"
  "step_count (scale c s) = step_count s"
  by (simp_all add: scale_def)

section \<open>The signal functions are homogeneous\<close>

lemma block_dc_scale: "block_dc (c * x) (map ((*) c) w) = c * block_dc x w"
  by (simp add: block_dc_def Let_def sum_list_const_mult algebra_simps)

lemma lp_filter_scale: "lp_filter (map ((*) c) buf) = map_sum id ((*) c) (lp_filter buf)"
proof (cases "length buf < 7")
  case True
  then show ?thesis by (simp add: lp_filter_def last_map)
next
  case False
  then show ?thesis
    by (rule seven_taps) (simp add: algebra_simps)
qed

lemma sign_of_slope_scale: "0 < c \<Longrightarrow> sign_of_slope (c * a) (c * b) = sign_of_slope a b"
  by (simp add: sign_of_slope_def)

section \<open>One sample\<close>

lemma scale_marks:
  "scale c (s\<lparr>last_filtered := f, last_slope := sl\<rparr>)
     = (scale c s)\<lparr>last_filtered := c * f, last_slope := sl\<rparr>"
  by (cases s) (simp add: scale_def)

lemma condition_sample_scale:
  "condition_sample (scale c s) (c * x) = scale c (condition_sample s x)"
  by (cases s)
     (simp add: condition_sample_def Let_def scale_def scale_deque_append
       scale_deque_appendleft block_dc_scale)

lemma scale_peak:
  "scale c (s\<lparr>peak_pair := pp, last_peak := k\<rparr>) = (scale c s)\<lparr>peak_pair := pp, last_peak := k\<rparr>"
  "scale c (s\<lparr>last_peak := k\<rparr>) = (scale c s)\<lparr>last_peak := k\<rparr>"
  "scale c (s\<lparr>step_count := n, peak_pair := pp\<rparr>)
     = (scale c s)\<lparr>step_count := n, peak_pair := pp\<rparr>"
  by (cases s, simp add: scale_def)+

lemma scale_less:
  assumes "0 < (c :: real)"
  shows "c * a < c * b \<longleftrightarrow> a < b" and "c * a < - (c * b) \<longleftrightarrow> a < - b"
  using assms mult_less_cancel_left_pos [of c a "- b"] by simp_all

lemma confirm_peak_scale:
  assumes "0 < c"
  shows "confirm_peak (scale c s) k (c * f) (c * t) = scale c (confirm_peak s k f t)"
  by (simp add: confirm_peak_def scale_peak scale_less [OF assms])

lemma count_pair_scale: "count_pair (scale c s) = scale c (count_pair s)"
  by (simp add: count_pair_def scale_peak)

lemma detect_scale:
  "0 < c \<Longrightarrow> detect (scale c s) k (c * f) (c * t) = scale c (detect s k f t)"
  by (cases k) (simp_all add: detect_def confirm_peak_scale count_pair_scale)

lemma track_sample_scale:
  assumes "0 < c"
  shows "track_sample (scale c s) (c * f)
     = map_sum (apsnd (scale c)) (scale c) (track_sample s f)"
proof -
  let ?s3 = "s\<lparr>threshold_buffer := deque_append (threshold_buffer s) f\<rparr>"
  have s3: "(scale c s)\<lparr>threshold_buffer :=
      deque_append (threshold_buffer (scale c s)) (c * f)\<rparr> = scale c ?s3"
    by (cases s) (simp add: scale_def scale_deque_append)
  have thr: "sum_list (items (threshold_buffer (scale c ?s3)))
        / real (deque_len (threshold_buffer (scale c ?s3)))
      = c * (sum_list (items (threshold_buffer ?s3)) / real (deque_len (threshold_buffer ?s3)))"
    by (simp add: sum_list_const_mult)
  show ?thesis
    unfolding track_sample_def Let_def s3 thr
    using assms
    by (simp add: sign_of_slope_scale detect_scale scale_marks del: times_divide_eq_right)
qed

lemma process_norm_scale:
  assumes "0 < c"
  shows "process_norm (scale c s) (c * x)
     = map_sum (apsnd (scale c)) (scale c) (process_norm s x)"
  using assms
  by (cases "lp_filter (items (lp_filter_buffer (condition_sample s x)))")
     (simp_all add: process_norm_def Let_def condition_sample_scale lp_filter_scale
       track_sample_scale)

section \<open>Runs\<close>

lemma state_of_map_sum [simp]: "state_of (map_sum (apsnd f) f r) = f (state_of r)"
  by (cases r) (auto simp: state_of_def)

lemma feed_norm_scale: "0 < c \<Longrightarrow> feed_norm (scale c s) (c * x) = scale c (feed_norm s x)"
  by (simp add: feed_norm_def process_norm_scale)

lemma run_norms_scale:
  "0 < c \<Longrightarrow> run_norms (scale c s) (map ((*) c) xs) = scale c (run_norms s xs)"
  by (induction xs arbitrary: s) (simp_all add: feed_norm_scale)

lemma norm_of_scale: "0 < c \<Longrightarrow> norm_of (scale_sample c v) = c * norm_of v"
  by (cases v) (simp add: norm_of_def scale_sample_def norm3_scale)

lemma run_scale:
  assumes "0 < c"
  shows "run (scale c s) (map (scale_sample c) vs) = scale c (run s vs)"
proof -
  have "map norm_of (map (scale_sample c) vs) = map ((*) c) (map norm_of vs)"
    using assms by (simp add: norm_of_scale)
  then show ?thesis
    using assms by (simp only: run_run_norms run_norms_scale)
qed

lemma StepDetector_scale:
  assumes "StepDetector nws lfs tws amp = Inr s"
  shows "StepDetector nws lfs tws (c * amp) = Inr (scale c s)"
proof -
  from assms have nn: "0 \<le> nws" "0 \<le> lfs" "0 \<le> tws"
    by (auto dest: StepDetector_InrD)
  show ?thesis
    by (subst StepDetector_fields [OF assms])
       (simp add: StepDetector_ok nn scale_def scale_deque_def)
qed

text \<open>
  C18. A change of unit does not change the count. When \<^verbatim>\<open>min_step_amplitude\<close>
  and every sample are multiplied by the same positive factor (metres per
  second squared to units of g, say), construction gives the scaled detector,
  a run leaves the scaled state, and \<^verbatim>\<open>get_step_count\<close> reads the same.
\<close>

theorem unit_change:
  assumes "0 < c"
  shows "run (scale c s) (map (scale_sample c) vs) = scale c (run s vs)
       \<and> get_step_count (run (scale c s) (map (scale_sample c) vs)) = get_step_count (run s vs)
       \<and> (StepDetector nws lfs tws amp = Inr s
            \<longrightarrow> StepDetector nws lfs tws (c * amp) = Inr (scale c s))"
  using run_scale [OF assms, of s vs]
  by (simp add: get_step_count_def StepDetector_scale)

theorem unit_change_witness:
  "(0 :: real) < 1000
   \<and> StepDetector 4 7 4 (8 / 10) = Inr small_detector
   \<and> StepDetector 4 7 4 (1000 * (8 / 10)) = Inr (scale 1000 small_detector)
   \<and> get_step_count (run small_detector (axis zig @ axis zig)) = 1
   \<and> get_step_count
        (run (scale 1000 small_detector) (map (scale_sample 1000) (axis zig @ axis zig))) = 1"
  using unit_change [of 1000 small_detector "axis zig @ axis zig" 4 7 4 "8 / 10"]
    small_detector_fresh small_zig_run(2)
  by (simp add: get_step_count_def)

end
