(* ===== verification/Degenerate.thy ===== *)
theory Degenerate
  imports Runs
begin

text \<open>
  Window sizes that the constructor accepts and with which the detector can
  never count a step. With a norm window of at most one entry the mean of the
  window is the sample itself, so DC blocking returns 0 for every sample.
  With a threshold window of at most two entries the adaptive threshold lies
  between the previous filtered value and the current one, on the wrong side
  of every candidate: a maximum candidate is a sample that did not rise, a
  minimum candidate one that rose.
\<close>

section \<open>A norm window of at most one entry\<close>

lemma narrow_flat:
  assumes "deque_inv (norm_buffer s)" and "maxlen (norm_buffer s) \<le> 1"
  shows "flat s x"
proof (cases "items (norm_buffer s)")
  case Nil
  with assms show ?thesis
    by (auto simp: flat_def deque_append_def block_dc_def Let_def)
next
  case (Cons y ys)
  with assms have l: "Suc (length ys) \<le> maxlen (norm_buffer s)"
    by (simp add: deque_inv_def)
  with assms(2) have "Suc (length ys) \<le> 1" by arith
  then have "ys = []" by simp
  moreover from l assms(2) have "maxlen (norm_buffer s) = 1" by simp
  ultimately show ?thesis using Cons
    by (simp add: flat_def deque_append_def block_dc_def Let_def)
qed

lemma narrow_norm_run:
  assumes "windows_ok s" and "norm_window_size s \<le> 1" and "calm s"
  shows "step_count (run_norms s xs) = step_count s"
  using assms
proof (induction xs arbitrary: s)
  case Nil
  show ?case by simp
next
  case (Cons x xs)
  from Cons.prems have f: "flat s x"
    by (intro narrow_flat) (simp_all add: windows_ok_def)
  from Cons.IH [of "feed_norm s x"] Cons.prems calm_feed_norm [OF Cons.prems(3) f]
  show ?case by (simp add: windows_feed_norm)
qed

section \<open>A threshold window of at most two entries\<close>

definition trails :: "step_detector \<Rightarrow> bool" where
  "trails s \<longleftrightarrow>
     items (threshold_buffer s) = [] \<or> last (items (threshold_buffer s)) = last_filtered s"

lemma short_list:
  assumes "length xs \<le> 2"
  obtains "xs = []" | g where "xs = [g]" | h g where "xs = [h, g]"
  using assms by (cases xs; cases "tl xs") auto

lemma count_blind [simp]: "snd (pm_next p (Peak k fl False)) = False"
  by (cases p; cases k; cases fl) simp_all

lemma narrow_track_obs:
  assumes "deque_inv (threshold_buffer s)" and "maxlen (threshold_buffer s) \<le> 2"
    and "maxlen (threshold_buffer s) = threshold_window_size s" and "trails s"
  shows "snd (pm_next p (track_obs s f)) = False"
proof -
  from assms(1,2) have "length (items (threshold_buffer s)) \<le> 2"
    by (simp add: deque_inv_def)
  then show ?thesis
    using assms
    by (cases rule: short_list)
       (auto simp: track_obs_def Let_def deque_append_def deque_len_def deque_inv_def
         trails_def obs_of_def peak_candidate_of_def sign_of_slope_def)
qed

lemma trails_track_sample:
  assumes "deque_inv (threshold_buffer s)"
  shows "trails (state_of (track_sample s f))"
proof (cases "maxlen (threshold_buffer s) = 0")
  case True
  with assms show ?thesis
    by (simp add: trails_def track_sample_def Let_def deque_append_def deque_len_def
        deque_inv_def)
next
  case False
  then show ?thesis
    by (auto simp: trails_def track_sample_def Let_def deque_append_def deque_len_def
        last_tl)
qed

lemma trails_feed_norm:
  assumes "windows_ok s" and "trails s"
  shows "trails (feed_norm s x)"
proof (cases "filtered_value s x")
  case None
  with assms(2) show ?thesis
    by (simp add: feed_norm_def state_of_process_norm trails_def)
next
  case (Some f)
  from assms(1) have "deque_inv (threshold_buffer (condition_sample s x))"
    by (simp add: windows_ok_def)
  then show ?thesis
    by (simp add: feed_norm_def state_of_process_norm Some trails_track_sample)
qed

lemma narrow_observe:
  assumes "windows_ok s" and "trails s" and "threshold_window_size s \<le> 2"
  shows "snd (pm_next p (observe s x)) = False"
proof (cases "filtered_value s x")
  case None
  then show ?thesis by (cases p) (simp_all add: observe_def)
next
  case (Some f)
  from assms have "snd (pm_next p (track_obs (condition_sample s x) f)) = False"
    by (intro narrow_track_obs) (simp_all add: windows_ok_def trails_def)
  with Some show ?thesis by (simp add: observe_def)
qed

lemma narrow_threshold_run:
  assumes "detector_inv s" and "trails s" and "threshold_window_size s \<le> 2"
  shows "step_count (run_norms s xs) = step_count s"
  using assms
proof (induction xs arbitrary: s)
  case Nil
  show ?case by simp
next
  case (Cons x xs)
  from Cons.prems(1) obtain p where p: "phase_of s = Some p" and w: "windows_ok s"
    by (auto simp: detector_inv_def marks_ok_def)
  from process_norm_refines [OF p, of x] narrow_observe [OF w Cons.prems(2,3), of p x]
  have "step_count (feed_norm s x) = step_count s"
    by (simp add: feed_norm_def)
  with Cons.IH [of "feed_norm s x"] Cons.prems w show ?case
    by (simp add: inv_feed_norm trails_feed_norm)
qed

section \<open>Detectors that never count\<close>

definition narrow_detector :: step_detector where
  "narrow_detector = projr (StepDetector 4 7 2 (8 / 10))"

lemma narrow_detector_fresh: "StepDetector 4 7 2 (8 / 10) = Inr narrow_detector"
  by (simp add: narrow_detector_def StepDetector_ok)

text \<open>
  C19. A detector constructed with \<^verbatim>\<open>norm_window_size\<close> at most 1 or with
  \<^verbatim>\<open>threshold_window_size\<close> at most 2 never counts a step, whatever it is fed:
  the constructor accepts the sizes and the detector is silent.
\<close>

theorem degenerate_windows_never_count:
  assumes "StepDetector nws lfs tws amp = Inr s" and "nws \<le> 1 \<or> tws \<le> 2"
  shows "get_step_count (run s vs) = 0"
proof -
  note f = StepDetector_fields [OF assms(1)]
  have z: "step_count s = 0" by (subst f) simp
  have i: "detector_inv s" using assms(1) by (rule inv_StepDetector)
  from assms(2) have "step_count (run_norms s (map norm_of vs)) = step_count s"
  proof
    assume "nws \<le> 1"
    then have "norm_window_size s \<le> 1" by (subst f) simp
    with i calm_fresh [OF assms(1)] show ?thesis
      by (intro narrow_norm_run) (simp_all add: detector_inv_def)
  next
    assume "tws \<le> 2"
    then have "threshold_window_size s \<le> 2" by (subst f) simp
    moreover have "trails s" by (subst f) (simp add: trails_def)
    ultimately show ?thesis using i by (intro narrow_threshold_run)
  qed
  with z show ?thesis by (simp add: run_run_norms get_step_count_def)
qed

theorem degenerate_windows_never_count_witness:
  "StepDetector 4 7 2 (8 / 10) = Inr narrow_detector
   \<and> get_step_count (run small_detector (axis zig @ axis zig)) = 1
   \<and> get_step_count (run narrow_detector (axis zig @ axis zig)) = 0"
  using degenerate_windows_never_count [OF narrow_detector_fresh, of "axis zig @ axis zig"]
    narrow_detector_fresh small_zig_run(2)
  by simp

end
