(* ===== verification/Text.thy ===== *)
theory Text
  imports Prelude "HOL-Library.Sublist"
begin

text \<open>
  The text functions that \<^verbatim>\<open>src/main.py\<close> calls from the Python library, as far
  as the request router and the replies use them: \<^verbatim>\<open>str\<close> of an integer,
  \<^verbatim>\<open>json.dumps\<close> of the one dictionary the server serialises, and the first
  element of \<^verbatim>\<open>request.split('\r\n')\<close>. \<^verbatim>\<open>str.startswith\<close> is \<^const>\<open>prefix\<close> of
  the list library. A Python string is a \<^typ>\<open>string\<close>; the characters the
  server produces are all ASCII. The readers \<open>nat_of_digits\<close> and \<open>int_str\<close> are
  not part of the program: they are what a client does with the text, and
  state the round trips.
\<close>

section \<open>Decimal numerals\<close>

definition digit_char :: "nat \<Rightarrow> char" where
  "digit_char d = ''0123456789'' ! d"

fun digits :: "nat \<Rightarrow> string" where
  "digits n = (if n < 10 then [digit_char n] else digits (n div 10) @ [digit_char (n mod 10)])"

declare digits.simps [simp del]

definition str_int :: "int \<Rightarrow> string" where
  "str_int i = (if i < 0 then CHR ''-'' # digits (nat (- i)) else digits (nat i))"

definition digit_val :: "char \<Rightarrow> nat" where
  "digit_val c = of_char c - 48"

definition nat_of_digits :: "string \<Rightarrow> nat" where
  "nat_of_digits cs = foldl (\<lambda>a c. 10 * a + digit_val c) 0 cs"

definition int_str :: "string \<Rightarrow> int" where
  "int_str cs =
     (case cs of
        [] \<Rightarrow> 0
      | c # ds \<Rightarrow> if c = CHR ''-'' then - int (nat_of_digits ds) else int (nat_of_digits cs))"

lemma digits_small: "n < 10 \<Longrightarrow> digits n = [digit_char n]"
  by (simp add: digits.simps)

lemma digits_large: "10 \<le> n \<Longrightarrow> digits n = digits (n div 10) @ [digit_char (n mod 10)]"
  by (subst digits.simps) simp

lemma digits_numeral [simp]:
  "digits (numeral k) =
     (if numeral k < (10 :: nat) then [digit_char (numeral k)]
      else digits (numeral k div 10) @ [digit_char (numeral k mod 10)])"
  by (rule digits.simps)

lemma digits_0 [simp]: "digits 0 = ''0''"
  by (simp add: digits_small digit_char_def)

lemma digits_1 [simp]: "digits (Suc 0) = ''1''"
  by (simp add: digits_small digit_char_def)

lemma digits_nonempty [simp]: "digits n \<noteq> []"
  by (subst digits.simps) simp

lemma digit_cases:
  assumes "d < 10"
  obtains "d = 0" | "d = 1" | "d = 2" | "d = 3" | "d = 4"
    | "d = 5" | "d = 6" | "d = 7" | "d = 8" | "d = (9 :: nat)"
  using assms by (auto simp: less_Suc_eq numeral_eq_Suc)

lemma digit_val_digit_char [simp]: "d < 10 \<Longrightarrow> digit_val (digit_char d) = d"
  by (erule digit_cases) (simp_all add: digit_char_def digit_val_def nth_numeral_Cons)

lemma digit_char_not_minus [simp]: "d < 10 \<Longrightarrow> digit_char d \<noteq> CHR ''-''"
  by (erule digit_cases) (simp_all add: digit_char_def nth_numeral_Cons)

lemma digit_char_not_CR [simp]: "d < 10 \<Longrightarrow> digit_char d \<noteq> CHR 0x0D"
  by (erule digit_cases) (simp_all add: digit_char_def nth_numeral_Cons)

lemma nat_of_digits_snoc [simp]:
  "nat_of_digits (cs @ [c]) = 10 * nat_of_digits cs + digit_val c"
  by (simp add: nat_of_digits_def)

lemma nat_of_digits_digits [simp]: "nat_of_digits (digits n) = n"
proof (induction n rule: digits.induct)
  case (1 n)
  show ?case
  proof (cases "n < 10")
    case True
    then show ?thesis by (simp add: digits_small nat_of_digits_def)
  next
    case False
    then show ?thesis using 1 by (simp add: digits_large)
  qed
qed

lemma hd_digits_not_minus [simp]: "hd (digits n) \<noteq> CHR ''-''"
proof (induction n rule: digits.induct)
  case (1 n)
  show ?case
  proof (cases "n < 10")
    case True
    then show ?thesis by (simp add: digits_small)
  next
    case False
    then show ?thesis using 1 by (simp add: digits_large)
  qed
qed

lemma int_str_str_int [simp]: "int_str (str_int i) = i"
proof (cases "i < 0")
  case True
  then show ?thesis by (simp add: str_int_def int_str_def)
next
  case False
  obtain c ds where d: "digits (nat i) = c # ds"
    by (cases "digits (nat i)") auto
  with hd_digits_not_minus [of "nat i"] have "c \<noteq> CHR ''-''" by simp
  moreover have "nat_of_digits (c # ds) = nat i"
    unfolding d [symmetric] by simp
  ultimately show ?thesis using False by (simp add: str_int_def int_str_def d)
qed

lemma str_int_inject [simp]: "str_int i = str_int j \<longleftrightarrow> i = j"
  by (metis int_str_str_int)

section \<open>The request line\<close>

abbreviation CR :: char where "CR \<equiv> CHR 0x0D"
abbreviation LF :: char where "LF \<equiv> CHR 0x0A"

definition crlf :: string where
  "crlf = [CR, LF]"

fun first_line :: "string \<Rightarrow> string" where
  "first_line (c # d # cs) = (if c = CR \<and> d = LF then [] else c # first_line (d # cs))"
| "first_line cs = cs"

lemma first_line_crlf: "CR \<notin> set l \<Longrightarrow> first_line (l @ crlf @ rest) = l"
proof (induction l)
  case Nil
  then show ?case by (simp add: crlf_def)
next
  case (Cons c l)
  then show ?case by (cases "l @ crlf @ rest") (auto simp: crlf_def)
qed

lemma first_line_whole: "CR \<notin> set l \<Longrightarrow> first_line l = l"
  by (induction l rule: first_line.induct) auto

lemma prefix_first_line:
  "CR \<notin> set p \<Longrightarrow> prefix p request \<Longrightarrow> prefix p (first_line request)"
proof (induction p arbitrary: request)
  case Nil
  then show ?case by simp
next
  case (Cons c p)
  from Cons.prems(2) obtain r where r: "request = c # r" and pr: "prefix p r"
    by (cases request) auto
  from Cons.prems have c: "c \<noteq> CR" and p: "CR \<notin> set p" by auto
  show ?case
  proof (cases r)
    case Nil
    with pr r show ?thesis by simp
  next
    case (Cons d cs)
    with r c p pr Cons.IH [of r] show ?thesis by simp
  qed
qed

lemma first_line_prefix: "prefix (first_line request) request"
  by (induction request rule: first_line.induct) auto

lemma prefix_take_length: "prefix p r \<longleftrightarrow> take (length p) r = p"
proof
  assume "prefix p r"
  then show "take (length p) r = p" by (auto simp: prefix_def)
next
  assume "take (length p) r = p"
  with take_is_prefix [of "length p" r] show "prefix p r" by simp
qed

lemma prefix_take_iff: "length p \<le> n \<Longrightarrow> prefix p (take n r) \<longleftrightarrow> prefix p r"
  by (simp add: prefix_take_length min_def)

lemma prefix_first_line_iff:
  "CR \<notin> set p \<Longrightarrow> prefix p (first_line request) \<longleftrightarrow> prefix p request"
  using prefix_first_line [of p request] first_line_prefix [of request]
  by (auto intro: prefix_order.trans)

section \<open>JSON\<close>

definition json_steps :: "int option \<Rightarrow> string" where
  "json_steps v =
     ''{'' @ [CHR 0x22] @ ''steps'' @ [CHR 0x22] @ '': ''
       @ (case v of None \<Rightarrow> ''null'' | Some i \<Rightarrow> str_int i) @ ''}''"

definition steps_of_json :: "string \<Rightarrow> int option" where
  "steps_of_json body =
     (let v = butlast (drop 10 body)
      in if v = ''null'' then None else Some (int_str v))"

lemma str_int_not_null [simp]: "str_int i \<noteq> ''null''"
proof
  assume n: "str_int i = ''null''"
  show False
  proof (cases "i < 0")
    case True
    with n show False by (simp add: str_int_def)
  next
    case False
    with n have "digits (nat i) = ''null''" by (simp add: str_int_def)
    then have "nat_of_digits ''null'' = nat i" by (metis nat_of_digits_digits)
    then have "digits (nat_of_digits ''null'') = ''null''" using \<open>digits (nat i) = ''null''\<close> by simp
    then show False
      by (simp add: nat_of_digits_def digit_val_def digit_char_def nth_numeral_Cons)
  qed
qed

lemma steps_of_json_json_steps [simp]: "steps_of_json (json_steps v) = v"
  by (cases v) (simp_all add: steps_of_json_def json_steps_def)

lemma json_steps_inject [simp]: "json_steps v = json_steps w \<longleftrightarrow> v = w"
  by (metis steps_of_json_json_steps)

end
