(* ===== verification/Display.thy ===== *)
theory Display
  imports Text
begin

text \<open>
  The status display of \<^verbatim>\<open>src/main.py\<close>. The driver \<^verbatim>\<open>ssd1306\<close> is a library the
  program only calls; it is modelled at the level the program uses it: a
  frame is a background colour with the labels written on it, in the order
  they were written; \<^verbatim>\<open>fill\<close> and \<^verbatim>\<open>text\<close> change the frame buffer and \<^verbatim>\<open>show\<close>
  copies the buffer to the panel. The glyphs of the built-in font are eight
  pixels wide and high, so a label at column \<open>x\<close> occupies the pixels from \<open>x\<close>
  to \<open>x + 8 * length s\<close>, and what lies beyond the panel is not drawn. The five
  screens the program draws are the command lists \<open>splash\<close>,
  \<open>connecting_screen\<close>, \<open>connected_screen\<close>, \<open>failed_screen\<close> and \<open>steps_screen\<close>.
\<close>

section \<open>The driver\<close>

datatype draw = Fill nat | Text string nat nat nat | Show

type_synonym label = "string \<times> nat \<times> nat \<times> nat"

type_synonym frame = "nat \<times> label list"

record oled =
  width :: nat
  height :: nat
  buffer :: frame
  panel :: frame

definition SSD1306_I2C :: "nat \<Rightarrow> nat \<Rightarrow> oled" where
  "SSD1306_I2C w h = \<lparr>width = w, height = h, buffer = (0, []), panel = (0, [])\<rparr>"

fun draw_on :: "oled \<Rightarrow> draw \<Rightarrow> oled" where
  "draw_on d (Fill c) = d\<lparr>buffer := (c, [])\<rparr>"
| "draw_on d (Text s x y c) = d\<lparr>buffer := (fst (buffer d), snd (buffer d) @ [(s, x, y, c)])\<rparr>"
| "draw_on d Show = d\<lparr>panel := buffer d\<rparr>"

definition draw_all :: "oled \<Rightarrow> draw list \<Rightarrow> oled" where
  "draw_all = foldl draw_on"

definition fits :: "oled \<Rightarrow> label \<Rightarrow> bool" where
  "fits d l = (case l of (s, x, y, c) \<Rightarrow> x + 8 * length s \<le> width d \<and> y + 8 \<le> height d)"

definition visible :: "oled \<Rightarrow> label \<Rightarrow> string" where
  "visible d l =
     (case l of (s, x, y, c) \<Rightarrow> if y + 8 \<le> height d then take ((width d - x) div 8) s else [])"

section \<open>The screens of the program\<close>

definition splash :: "draw list" where
  "splash = [Fill 0, Text ''Inicjalizacja...'' 0 0 1, Show]"

definition connecting_screen :: "string \<Rightarrow> draw list" where
  "connecting_screen ssid = [Fill 0, Text (''Laczenie z '' @ ssid) 0 0 1, Show]"

definition connected_screen :: "string \<Rightarrow> draw list" where
  "connected_screen ip_addr =
     [Fill 0, Text (''IP: '' @ ip_addr) 0 0 1, Text ''Serwer MPU ON'' 0 16 1, Show]"

definition failed_screen :: "draw list" where
  "failed_screen = [Fill 0, Text ''Blad WiFi!'' 0 0 1, Show]"

definition steps_screen :: "int \<Rightarrow> string \<Rightarrow> draw list" where
  "steps_screen steps ip_addr =
     [Fill 0, Text (''KROKI: '' @ str_int steps) 0 0 1, Text (''IP: '' @ ip_addr) 0 24 1, Show]"

lemmas screens = splash_def connecting_screen_def connected_screen_def failed_screen_def
  steps_screen_def

section \<open>Facts about the driver\<close>

lemma draw_all_simps [simp]:
  "draw_all d [] = d"
  "draw_all d (c # cs) = draw_all (draw_on d c) cs"
  "draw_all d (cs @ cs') = draw_all (draw_all d cs) cs'"
  by (simp_all add: draw_all_def)

lemma size_draw_on [simp]: "width (draw_on d c) = width d" "height (draw_on d c) = height d"
  by (cases c; simp)+

lemma size_draw_all [simp]:
  "width (draw_all d cs) = width d" "height (draw_all d cs) = height d"
  by (induction cs arbitrary: d) simp_all

lemma panel_no_Show: "Show \<notin> set cs \<Longrightarrow> panel (draw_all d cs) = panel d"
proof (induction cs arbitrary: d)
  case Nil
  show ?case by simp
next
  case (Cons c cs)
  then show ?case by (cases c) simp_all
qed

lemma fits_iff:
  "fits d (s, x, y, c) \<longleftrightarrow>
     (s = [] \<and> x \<le> width d \<or> s \<noteq> [] \<and> length s \<le> (width d - x) div 8) \<and> y + 8 \<le> height d"
  by (cases s) (auto simp: fits_def less_eq_div_iff_mult_less_eq)

lemma fits_visible: "fits d l \<Longrightarrow> visible d l = fst l"
  by (cases l) (auto simp: fits_iff visible_def)

lemma length_visible:
  "y + 8 \<le> height d \<Longrightarrow>
   length (visible d (s, x, y, c)) = min (length s) ((width d - x) div 8)"
  by (simp add: visible_def)

section \<open>What a screen leaves on the panel\<close>

lemma draw_steps_screen:
  "draw_all d (steps_screen n ip_addr) =
     d\<lparr>buffer := (0, [(''KROKI: '' @ str_int n, 0, 0, 1), (''IP: '' @ ip_addr, 0, 24, 1)]),
       panel := (0, [(''KROKI: '' @ str_int n, 0, 0, 1), (''IP: '' @ ip_addr, 0, 24, 1)])\<rparr>"
  by (simp add: steps_screen_def)

lemma draw_connected_screen:
  "draw_all d (connected_screen ip_addr) =
     d\<lparr>buffer := (0, [(''IP: '' @ ip_addr, 0, 0, 1), (''Serwer MPU ON'', 0, 16, 1)]),
       panel := (0, [(''IP: '' @ ip_addr, 0, 0, 1), (''Serwer MPU ON'', 0, 16, 1)])\<rparr>"
  by (simp add: connected_screen_def)

section \<open>The width of a decimal numeral\<close>

lemma length_digits: "0 < k \<Longrightarrow> length (digits n) \<le> k \<longleftrightarrow> n < 10 ^ k"
proof (induction n arbitrary: k rule: digits.induct)
  case (1 n)
  show ?case
  proof (cases "n < 10")
    case True
    with \<open>0 < k\<close> have "n < 10 ^ k"
      by (metis One_nat_def Suc_leI less_le_trans power_increasing power_one_right
          one_le_numeral)
    with True show ?thesis by (simp add: digits_small Suc_leI \<open>0 < k\<close>)
  next
    case False
    show ?thesis
    proof (cases k)
      case 0
      with \<open>0 < k\<close> show ?thesis by simp
    next
      case (Suc j)
      show ?thesis
      proof (cases "j = 0")
        case True
        with False Suc show ?thesis by (simp add: digits_large)
      next
        case j: False
        from False j have "length (digits (n div 10)) \<le> j \<longleftrightarrow> n div 10 < 10 ^ j"
          by (intro 1) simp_all
        moreover have "n div 10 < 10 ^ j \<longleftrightarrow> n < 10 ^ Suc j"
          by (simp add: div_less_iff_less_mult mult.commute)
        ultimately show ?thesis using False Suc by (simp add: digits_large)
      qed
    qed
  qed
qed

lemma length_str_int: "0 \<le> n \<Longrightarrow> 0 < k \<Longrightarrow> length (str_int n) \<le> k \<longleftrightarrow> n < 10 ^ k"
  using length_digits [of k "nat n"]
  by (simp add: str_int_def nat_less_iff)

section \<open>What fits the panel\<close>

lemma fits_steps_screen:
  assumes "0 \<le> n" and "width d = 128" and "height d = 32"
  shows "list_all (fits d) (snd (panel (draw_all d (steps_screen n ip))))
    \<longleftrightarrow> n < 10 ^ 9 \<and> length ip \<le> 12"
  using assms length_str_int [of n 9] by (auto simp: draw_steps_screen fits_def)

text \<open>
  C39. The loop's screen fits the panel of 128 by 32 pixels exactly when the
  count has at most nine digits and the address at most twelve characters.
  Of a longer address the panel shows the first twelve characters only.
\<close>

theorem steps_screen_fits:
  assumes "0 \<le> n" and "width d = 128" and "height d = 32"
  shows "(list_all (fits d) (snd (panel (draw_all d (steps_screen n ip))))
      \<longleftrightarrow> n < 10 ^ 9 \<and> length ip \<le> 12)
    \<and> map (visible d) (snd (panel (draw_all d (steps_screen n ip))))
      = [take 16 (''KROKI: '' @ str_int n), ''IP: '' @ take 12 ip]"
  using assms fits_steps_screen [OF assms, of ip]
  by (simp add: draw_steps_screen visible_def)

theorem steps_screen_fits_witness:
  "(0 :: int) \<le> 1234 \<and> width (SSD1306_I2C 128 32) = 128 \<and> height (SSD1306_I2C 128 32) = 32
   \<and> \<not> list_all (fits (SSD1306_I2C 128 32))
         (snd (panel (draw_all (SSD1306_I2C 128 32) (steps_screen 1234 ''192.168.1.100''))))
   \<and> map (visible (SSD1306_I2C 128 32))
         (snd (panel (draw_all (SSD1306_I2C 128 32) (steps_screen 1234 ''192.168.1.100''))))
       = [''KROKI: 1234'', ''IP: 192.168.1.10'']"
  using steps_screen_fits [of 1234 "SSD1306_I2C 128 32" "''192.168.1.100''"]
  by (simp add: SSD1306_I2C_def str_int_def digit_char_def nth_numeral_Cons)

end
