(* ===== verification/Server.thy ===== *)
theory Server
  imports Runs Text
begin

text \<open>
  The firmware loop of \<^verbatim>\<open>src/main.py\<close> around the detector: the module globals
  as the record \<open>server\<close>, the sensor polling branch (\<open>poll\<close>), the request
  router (\<open>dispatch\<close>), the reply text (\<open>build_response\<close>), one accepted
  connection (\<open>handle_connection\<close>), one iteration of \<^verbatim>\<open>while True\<close>
  (\<open>loop_body\<close>) and the loop over a list of inputs (\<open>run_loop\<close>); the
  wrap-around clock of \<^verbatim>\<open>time.ticks_ms\<close>.
  What the devices answer is an input of the model: the clock value, the
  sensor reading (\<open>None\<close> when the read raises), whether the display accepted
  the redraw, and what \<^verbatim>\<open>accept\<close> and \<^verbatim>\<open>recv\<close> returned (\<open>None\<close> when they raise).
  A reply that the loop sends is an output.
\<close>

section \<open>The millisecond clock\<close>

definition TICKS_PERIOD :: int where
  "TICKS_PERIOD = 2 ^ 30"

definition ticks_add :: "int \<Rightarrow> int \<Rightarrow> int" where
  "ticks_add t d = (t + d) mod TICKS_PERIOD"

definition ticks_diff :: "int \<Rightarrow> int \<Rightarrow> int" where
  "ticks_diff t1 t2 =
     (t1 - t2 + TICKS_PERIOD div 2) mod TICKS_PERIOD - TICKS_PERIOD div 2"

section \<open>State and inputs\<close>

record server =
  krokomierz :: step_detector
  steps :: "int option"
  last_gyro_update_ms :: int

record inputs =
  now :: int
  reading :: "sample option"
  display_ok :: bool
  connection :: "string option option"

definition GYRO_UPDATE_INTERVAL_MS :: int where
  "GYRO_UPDATE_INTERVAL_MS = 50"

definition boot :: "int \<Rightarrow> server" where
  "boot t0 = \<lparr>krokomierz = default_detector, steps = Some 0, last_gyro_update_ms = t0\<rparr>"

section \<open>Polling the sensor\<close>

definition poll :: "server \<Rightarrow> int \<Rightarrow> sample option \<Rightarrow> bool \<Rightarrow> server" where
  "poll s current_time accel_data shown =
     (if ticks_diff current_time (last_gyro_update_ms s) > GYRO_UPDATE_INTERVAL_MS then
        (case accel_data of
           None \<Rightarrow> s
         | Some (ax, ay, az) \<Rightarrow>
            (case process_sample (krokomierz s) ax ay az of
               Inl (e, k) \<Rightarrow> s\<lparr>krokomierz := k\<rparr>
             | Inr k \<Rightarrow>
                (let s1 = s\<lparr>krokomierz := k, steps := Some (get_step_count k)\<rparr>
                 in if shown then s1\<lparr>last_gyro_update_ms := current_time\<rparr> else s1)))
      else s)"

section \<open>Serving a request\<close>

definition get_steps_json :: "server \<Rightarrow> string" where
  "get_steps_json s = json_steps (steps s)"

definition dispatch :: "server \<Rightarrow> string \<Rightarrow> server \<times> string \<times> string option" where
  "dispatch s request_line =
     (if prefix ''GET /steps'' request_line then (s, ''200 OK'', Some (get_steps_json s))
      else if prefix ''GET /zeruj'' request_line then
        (let s1 = s\<lparr>krokomierz := reset_step_count (krokomierz s)\<rparr>
         in (s1, ''200 OK'', Some (get_steps_json s1)))
      else if prefix ''GET /dodaj'' request_line then
        (let s1 = s\<lparr>krokomierz := add_step (krokomierz s), steps := None\<rparr>
         in (s1, ''200 OK'', Some (get_steps_json s1)))
      else if prefix ''OPTIONS'' request_line then (s, ''200 OK'', None)
      else (s, ''404 Not Found'', Some ''<h1>404 Not Found</h1>''))"

definition response_head :: "string \<Rightarrow> string" where
  "response_head http_status =
     ''HTTP/1.1 '' @ http_status @ crlf
     @ ''Access-Control-Allow-Origin: *'' @ crlf
     @ ''Access-Control-Allow-Methods: GET, OPTIONS'' @ crlf
     @ ''Access-Control-Allow-Headers: Content-Type'' @ crlf
     @ ''Connection: close'' @ crlf"

definition build_response :: "string \<Rightarrow> string option \<Rightarrow> string result" where
  "build_response http_status json_data =
     (case json_data of
        Some body \<Rightarrow>
          Inr (response_head http_status
               @ ''Content-Type: application/json'' @ crlf
               @ ''Content-Length: '' @ str_int (int (length body)) @ crlf @ crlf
               @ body)
      | None \<Rightarrow>
          if http_status = ''404 Not Found'' then Inl TypeError
          else Inr (response_head http_status @ crlf))"

definition serve :: "server \<Rightarrow> string \<Rightarrow> server \<times> string result" where
  "serve s request =
     (case dispatch s (first_line request) of
        (s1, http_status, json_data) \<Rightarrow> (s1, build_response http_status json_data))"

definition handle_connection :: "server \<Rightarrow> string option \<Rightarrow> server \<times> string option" where
  "handle_connection s received =
     (case received of
        None \<Rightarrow> (s, None)
      | Some request \<Rightarrow>
         (case serve s request of
            (s1, Inl e) \<Rightarrow> (s1, None)
          | (s1, Inr response) \<Rightarrow> (s1, Some response)))"

section \<open>The loop\<close>

definition loop_body :: "server \<Rightarrow> inputs \<Rightarrow> server \<times> string option" where
  "loop_body s i =
     (let s1 = poll s (now i) (reading i) (display_ok i)
      in case connection i of
           None \<Rightarrow> (s1, None)
         | Some received \<Rightarrow> handle_connection s1 received)"

fun run_loop :: "server \<Rightarrow> inputs list \<Rightarrow> server \<times> string option list" where
  "run_loop s [] = (s, [])"
| "run_loop s (i # is) =
     (case loop_body s i of
        (s1, out) \<Rightarrow> (case run_loop s1 is of (s2, outs) \<Rightarrow> (s2, out # outs)))"

section \<open>Facts about the clock\<close>

lemma ticks_diff_bounds: "- (2 ^ 29) \<le> ticks_diff t1 t2 \<and> ticks_diff t1 t2 < 2 ^ 29"
  by (simp add: ticks_diff_def TICKS_PERIOD_def)

lemma mod_shift: "(a mod P - t + h) mod P = (a - t + h) mod (P :: int)"
proof -
  have "(a mod P - t + h) mod P = (a mod P + (h - t)) mod P"
    by (simp add: algebra_simps)
  also have "\<dots> = (a + (h - t)) mod P"
    by (rule mod_add_left_eq)
  finally show ?thesis by (simp add: algebra_simps)
qed

lemma ticks_diff_add:
  assumes "- (2 ^ 29) \<le> d" and "d < 2 ^ 29"
  shows "ticks_diff (ticks_add t d) t = d"
proof -
  have "ticks_diff (ticks_add t d) t = (t + d - t + 2 ^ 29) mod 2 ^ 30 - 2 ^ 29"
    unfolding ticks_diff_def ticks_add_def TICKS_PERIOD_def by (simp add: mod_shift)
  also have "\<dots> = d"
    using assms by simp
  finally show ?thesis .
qed

lemma ticks_diff_eqI:
  assumes "- (2 ^ 29) \<le> d" and "d < 2 ^ 29" and "(a - b - d) mod 2 ^ 30 = 0"
  shows "ticks_diff a b = (d :: int)"
proof -
  from assms(3) obtain k where k: "a - b - d = k * 2 ^ 30"
    by (auto simp: mod_eq_0_iff_dvd dvd_def mult.commute)
  then have "a - b + 2 ^ 29 = (d + 2 ^ 29) + k * 2 ^ 30" by simp
  then have "(a - b + 2 ^ 29) mod 2 ^ 30 = (d + 2 ^ 29) mod 2 ^ 30"
    by (metis mod_mult_self1)
  also from assms(1,2) have "\<dots> = d + 2 ^ 29" by simp
  finally show ?thesis by (simp add: ticks_diff_def TICKS_PERIOD_def)
qed

lemma ticks_diff_cong: "(a - b - ticks_diff a b) mod 2 ^ 30 = 0"
proof -
  have "(a - b + 2 ^ 29 - (a - b + 2 ^ 29) mod 2 ^ 30) mod 2 ^ 30 = (0 :: int)"
    by (simp add: mod_diff_left_eq [symmetric])
  then show ?thesis by (simp add: ticks_diff_def TICKS_PERIOD_def algebra_simps)
qed

lemma ticks_diff_trans:
  assumes "- (2 ^ 29) \<le> ticks_diff a b + ticks_diff b c"
    and "ticks_diff a b + ticks_diff b c < 2 ^ 29"
  shows "ticks_diff a c = ticks_diff a b + ticks_diff b c"
proof (rule ticks_diff_eqI [OF assms])
  have "a - c - (ticks_diff a b + ticks_diff b c)
      = (a - b - ticks_diff a b) + (b - c - ticks_diff b c)"
    by simp
  then show "(a - c - (ticks_diff a b + ticks_diff b c)) mod 2 ^ 30 = 0"
    using ticks_diff_cong [of a b] ticks_diff_cong [of b c]
    by (metis add.right_neutral mod_add_eq mod_0)
qed

lemma ticks_diff_self [simp]: "ticks_diff t t = 0"
  by (simp add: ticks_diff_def TICKS_PERIOD_def)

section \<open>Facts about the router\<close>

lemma routes_exclusive:
  "prefix ''GET /zeruj'' l \<Longrightarrow> \<not> prefix ''GET /steps'' l"
  "prefix ''GET /dodaj'' l \<Longrightarrow> \<not> prefix ''GET /steps'' l \<and> \<not> prefix ''GET /zeruj'' l"
  "prefix ''OPTIONS'' l \<Longrightarrow>
     \<not> prefix ''GET /steps'' l \<and> \<not> prefix ''GET /zeruj'' l \<and> \<not> prefix ''GET /dodaj'' l"
  by (auto dest: prefix_same_cases)

lemma dispatch_steps:
  "prefix ''GET /steps'' l \<Longrightarrow> dispatch s l = (s, ''200 OK'', Some (json_steps (steps s)))"
  by (simp add: dispatch_def get_steps_json_def)

lemma dispatch_zeruj:
  "prefix ''GET /zeruj'' l \<Longrightarrow>
   dispatch s l = (s\<lparr>krokomierz := reset_step_count (krokomierz s)\<rparr>, ''200 OK'',
                   Some (json_steps (steps s)))"
  by (simp add: dispatch_def get_steps_json_def routes_exclusive)

lemma dispatch_dodaj:
  "prefix ''GET /dodaj'' l \<Longrightarrow>
   dispatch s l = (s\<lparr>krokomierz := add_step (krokomierz s), steps := None\<rparr>, ''200 OK'',
                   Some (json_steps None))"
  by (simp add: dispatch_def get_steps_json_def routes_exclusive)

lemma dispatch_options:
  "prefix ''OPTIONS'' l \<Longrightarrow> dispatch s l = (s, ''200 OK'', None)"
  by (simp add: dispatch_def routes_exclusive)

lemma dispatch_other:
  "\<not> prefix ''GET /steps'' l \<Longrightarrow> \<not> prefix ''GET /zeruj'' l \<Longrightarrow> \<not> prefix ''GET /dodaj'' l \<Longrightarrow>
   \<not> prefix ''OPTIONS'' l \<Longrightarrow>
   dispatch s l = (s, ''404 Not Found'', Some ''<h1>404 Not Found</h1>'')"
  by (simp add: dispatch_def)

lemma dispatch_status:
  "dispatch s l = (s', st, body) \<Longrightarrow>
   (st = ''200 OK'' \<or> (st = ''404 Not Found'' \<and> body \<noteq> None))"
  by (auto simp: dispatch_def Let_def split: if_splits)

lemma build_response_ok:
  "st = ''200 OK'' \<or> body \<noteq> None \<Longrightarrow> is_ok (build_response st body)"
  by (cases body) (auto simp: build_response_def)

lemma serve_ok: "is_ok (snd (serve s request))"
proof -
  obtain s' st body where d: "dispatch s (first_line request) = (s', st, body)"
    by (cases "dispatch s (first_line request)") auto
  from dispatch_status [OF d] have "st = ''200 OK'' \<or> body \<noteq> None"
    by auto
  then have "is_ok (build_response st body)"
    by (rule build_response_ok)
  then show ?thesis by (simp add: serve_def d)
qed

section \<open>Facts about polling\<close>

definition due :: "server \<Rightarrow> int \<Rightarrow> bool" where
  "due s t \<longleftrightarrow> GYRO_UPDATE_INTERVAL_MS < ticks_diff t (last_gyro_update_ms s)"

lemma poll_not_due: "\<not> due s t \<Longrightarrow> poll s t r shown = s"
  by (simp add: poll_def due_def)

lemma poll_no_reading: "poll s t None shown = s"
  by (simp add: poll_def)

lemma krokomierz_poll:
  "krokomierz (poll s t r shown) =
     (case r of None \<Rightarrow> krokomierz s
      | Some v \<Rightarrow> if due s t then feed (krokomierz s) v else krokomierz s)"
  by (auto simp: poll_def due_def feed_def Let_def split: option.split sum.split prod.split)

lemma poll_ok:
  assumes "due s t" and "is_ok (process_norm (krokomierz s) (norm_of v))"
  shows "poll s t (Some v) shown =
     s\<lparr>krokomierz := feed (krokomierz s) v,
       steps := Some (get_step_count (feed (krokomierz s) v)),
       last_gyro_update_ms := (if shown then t else last_gyro_update_ms s)\<rparr>"
  using assms
  by (cases v)
     (auto simp: poll_def due_def feed_def norm_of_def process_sample_def Let_def
       split: sum.split)

lemma steps_poll:
  "steps (poll s t r shown) = steps s
   \<or> steps (poll s t r shown) = Some (get_step_count (krokomierz (poll s t r shown)))"
  by (auto simp: poll_def Let_def split: option.split sum.split prod.split)

section \<open>The invariant of the loop\<close>

definition server_inv :: "server \<Rightarrow> bool" where
  "server_inv s \<longleftrightarrow>
     detector_inv (krokomierz s)
     \<and> 0 < threshold_window_size (krokomierz s)
     \<and> 0 < maxlen (lp_filter_buffer (krokomierz s))
     \<and> (case steps s of None \<Rightarrow> True | Some n \<Rightarrow> 0 \<le> n)"

lemma maxlen_lp_process_norm [simp]:
  "maxlen (lp_filter_buffer (state_of (process_norm s x))) = maxlen (lp_filter_buffer s)"
  by (simp add: state_of_process_norm condition_sample_def track_sample_def
      Let_def split: option.split)

lemma controls_frame [simp]:
  "threshold_window_size (add_step k) = threshold_window_size k"
  "threshold_window_size (reset_step_count k) = threshold_window_size k"
  "lp_filter_buffer (add_step k) = lp_filter_buffer k"
  "lp_filter_buffer (reset_step_count k) = lp_filter_buffer k"
  by (simp_all add: add_step_def reset_step_count_def)

lemma server_inv_ok:
  "server_inv s \<Longrightarrow> is_ok (process_norm (krokomierz s) x)"
  by (rule process_norm_ok) (simp_all add: server_inv_def detector_inv_def)

lemma inv_boot: "server_inv (boot t0)"
  using inv_default by (simp add: server_inv_def boot_def default_detector_eq)

lemma detector_inv_count: "detector_inv k \<Longrightarrow> 0 \<le> get_step_count k"
  by (simp add: detector_inv_def marks_ok_def get_step_count_def)

lemma inv_poll:
  assumes "server_inv s"
  shows "server_inv (poll s t r shown)"
proof (cases "due s t \<and> r \<noteq> None")
  case True
  then obtain v where r: "r = Some v" and d: "due s t" by auto
  let ?k = "feed (krokomierz s) v"
  have k: "detector_inv ?k"
    using assms by (simp add: feed_norm_of inv_feed_norm server_inv_def)
  from assms k detector_inv_count [OF k] show ?thesis
    unfolding r poll_ok [OF d server_inv_ok [OF assms]]
    by (simp add: server_inv_def feed_norm_of feed_norm_def)
next
  case False
  then have "poll s t r shown = s"
    by (cases r) (auto simp: poll_not_due poll_no_reading)
  with assms show ?thesis by simp
qed

lemma inv_dispatch:
  assumes "server_inv s"
  shows "server_inv (fst (dispatch s l))"
  using assms
  by (auto simp: dispatch_def Let_def server_inv_def inv_add_step inv_reset_step_count)

lemma fst_serve: "fst (serve s request) = fst (dispatch s (first_line request))"
  by (simp add: serve_def split: prod.split)

lemma fst_handle_connection:
  "fst (handle_connection s received) =
     (case received of None \<Rightarrow> s | Some request \<Rightarrow> fst (serve s request))"
  by (simp add: handle_connection_def split: option.split prod.split sum.split)

lemma inv_handle_connection:
  "server_inv s \<Longrightarrow> server_inv (fst (handle_connection s received))"
  by (simp add: fst_handle_connection fst_serve inv_dispatch split: option.split)

lemma inv_loop_body: "server_inv s \<Longrightarrow> server_inv (fst (loop_body s i))"
  by (simp add: loop_body_def Let_def inv_poll inv_handle_connection split: option.split)

lemma fst_run_loop_Cons [simp]:
  "fst (run_loop s (i # is)) = fst (run_loop (fst (loop_body s i)) is)"
  by (simp split: prod.split)

lemma inv_run_loop: "server_inv s \<Longrightarrow> server_inv (fst (run_loop s is))"
  by (induction "is" arbitrary: s) (simp_all add: inv_loop_body del: run_loop.simps(2))

section \<open>Iterations that only poll\<close>

text \<open>
  The inputs of a stretch of the loop in which no connection arrives, the
  display works, and the sensor is read every 60 ms from clock value \<open>t\<close> on.
\<close>

fun ticking :: "int \<Rightarrow> sample list \<Rightarrow> inputs list" where
  "ticking t [] = []"
| "ticking t (v # vs) =
     \<lparr>now = ticks_add t 60, reading = Some v, display_ok = True, connection = None\<rparr>
       # ticking (ticks_add t 60) vs"

lemma due_after_60: "due s (ticks_add (last_gyro_update_ms s) 60)"
  by (simp add: due_def ticks_diff_add GYRO_UPDATE_INTERVAL_MS_def)

lemma loop_body_tick:
  assumes "server_inv s"
  shows "loop_body s \<lparr>now = ticks_add (last_gyro_update_ms s) 60, reading = Some v,
                      display_ok = True, connection = None\<rparr>
     = (s\<lparr>krokomierz := feed (krokomierz s) v,
          steps := Some (get_step_count (feed (krokomierz s) v)),
          last_gyro_update_ms := ticks_add (last_gyro_update_ms s) 60\<rparr>, None)"
  by (simp add: loop_body_def poll_ok [OF due_after_60 server_inv_ok [OF assms]])

lemma run_loop_ticking:
  assumes "server_inv s"
  shows "krokomierz (fst (run_loop s (ticking (last_gyro_update_ms s) vs)))
           = run (krokomierz s) vs
       \<and> steps (fst (run_loop s (ticking (last_gyro_update_ms s) vs)))
           = (if vs = [] then steps s else Some (get_step_count (run (krokomierz s) vs)))"
  using assms
proof (induction vs arbitrary: s)
  case Nil
  show ?case by simp
next
  case (Cons v vs)
  let ?s = "s\<lparr>krokomierz := feed (krokomierz s) v,
              steps := Some (get_step_count (feed (krokomierz s) v)),
              last_gyro_update_ms := ticks_add (last_gyro_update_ms s) 60\<rparr>"
  have b: "loop_body s \<lparr>now = ticks_add (last_gyro_update_ms s) 60, reading = Some v,
      display_ok = True, connection = None\<rparr> = (?s, None)"
    using Cons.prems by (rule loop_body_tick)
  have "server_inv (fst (loop_body s \<lparr>now = ticks_add (last_gyro_update_ms s) 60,
      reading = Some v, display_ok = True, connection = None\<rparr>))"
    using Cons.prems by (rule inv_loop_body)
  then have "server_inv ?s" by (simp add: b)
  from Cons.IH [OF this] show ?case
    by (cases vs) (simp_all add: b del: run_loop.simps(2))
qed

section \<open>What the routes reply\<close>

definition steps_request :: string where
  "steps_request = ''GET /steps HTTP/1.1'' @ crlf @ ''Host: krokomierz'' @ crlf @ crlf"

definition zeruj_request :: string where
  "zeruj_request = ''GET /zeruj HTTP/1.1'' @ crlf @ ''Host: krokomierz'' @ crlf @ crlf"

definition dodaj_request :: string where
  "dodaj_request = ''GET /dodaj HTTP/1.1'' @ crlf @ ''Host: krokomierz'' @ crlf @ crlf"

definition two_steps :: server where
  "two_steps = \<lparr>krokomierz = add_step (add_step default_detector), steps = Some 2,
                 last_gyro_update_ms = 0\<rparr>"

lemma first_line_requests [simp]:
  "first_line steps_request = ''GET /steps HTTP/1.1''"
  "first_line zeruj_request = ''GET /zeruj HTTP/1.1''"
  "first_line dodaj_request = ''GET /dodaj HTTP/1.1''"
  by (simp_all add: steps_request_def zeruj_request_def dodaj_request_def crlf_def)

lemma inv_two_steps: "server_inv two_steps"
  using inv_default
  by (simp add: server_inv_def two_steps_def inv_add_step) (simp add: default_detector_eq)

text \<open>
  C23. The reply to \<^verbatim>\<open>GET /zeruj\<close> is stale. The route zeroes the detector's
  count but serialises the global \<^verbatim>\<open>steps\<close>, which it does not update: the
  reply is the one \<^verbatim>\<open>GET /steps\<close> would have sent before the reset, and
  \<^verbatim>\<open>steps\<close> keeps the old count until the next successful sensor poll.
\<close>

theorem zeruj_reply_stale:
  assumes "prefix ''GET /zeruj'' (first_line request)"
  shows "get_step_count (krokomierz (fst (serve s request))) = 0
       \<and> steps (fst (serve s request)) = steps s
       \<and> snd (serve s request) = build_response ''200 OK'' (Some (get_steps_json s))"
  using assms
  by (simp add: serve_def dispatch_zeruj get_steps_json_def get_step_count_def
      reset_step_count_def)

theorem zeruj_reply_stale_witness:
  "prefix ''GET /zeruj'' (first_line zeruj_request)
   \<and> get_step_count (krokomierz two_steps) = 2
   \<and> get_step_count (krokomierz (fst (serve two_steps zeruj_request))) = 0
   \<and> snd (serve two_steps zeruj_request)
       = build_response ''200 OK'' (Some (json_steps (Some 2)))"
  using zeruj_reply_stale [of zeruj_request two_steps]
  by (simp add: get_steps_json_def)
     (simp add: two_steps_def get_step_count_def add_step_def default_detector_eq)

text \<open>
  C24. The reply to \<^verbatim>\<open>GET /dodaj\<close> carries no count. The route adds one to the
  detector's count and assigns the result of \<^verbatim>\<open>add_step()\<close>, which is \<^verbatim>\<open>None\<close>, to
  the global \<^verbatim>\<open>steps\<close>: the body is \<^verbatim>\<open>{"steps": null}\<close>, and \<^verbatim>\<open>GET /steps\<close>
  answers \<^verbatim>\<open>null\<close> too until the next successful sensor poll.
\<close>

theorem dodaj_reply_null:
  assumes "prefix ''GET /dodaj'' (first_line request)"
  shows "fst (serve s request) = s\<lparr>krokomierz := add_step (krokomierz s), steps := None\<rparr>
       \<and> snd (serve s request) = build_response ''200 OK'' (Some (json_steps None))
       \<and> get_steps_json (fst (serve s request)) = json_steps None"
  using assms by (simp add: serve_def dispatch_dodaj get_steps_json_def)

theorem dodaj_reply_null_witness:
  "prefix ''GET /dodaj'' (first_line dodaj_request)
   \<and> get_step_count (krokomierz (fst (serve two_steps dodaj_request))) = 3
   \<and> steps (fst (serve two_steps dodaj_request)) = None
   \<and> snd (serve (fst (serve two_steps dodaj_request)) steps_request)
       = build_response ''200 OK'' (Some (json_steps None))"
  using dodaj_reply_null [of dodaj_request two_steps]
  by (simp add: serve_def dispatch_steps)
     (simp add: two_steps_def get_step_count_def add_step_def default_detector_eq)

text \<open>
  C25. Every request that was received is answered: building the reply never
  raises, because the router never leaves the status \<^verbatim>\<open>404 Not Found\<close> without
  a body. The \<^verbatim>\<open>text/html\<close> branch of the reply is therefore never taken, and
  the 404 page is sent as \<^verbatim>\<open>application/json\<close>. An unknown route leaves the
  state as it was.
\<close>

theorem every_request_answered:
  "(\<exists>response. handle_connection s (Some request)
        = (fst (dispatch s (first_line request)), Some response))
   \<and> (build_response st None = Inl TypeError \<longleftrightarrow> st = ''404 Not Found'')
   \<and> dispatch s ''GET /krok'' = (s, ''404 Not Found'', Some ''<h1>404 Not Found</h1>'')"
proof -
  from serve_ok [of s request] obtain response where "snd (serve s request) = Inr response"
    by (auto simp: is_ok_iff)
  then have "handle_connection s (Some request)
      = (fst (dispatch s (first_line request)), Some response)"
    by (cases "serve s request") (auto simp: handle_connection_def fst_serve [symmetric])
  then show ?thesis
    by (auto simp: build_response_def dispatch_def)
qed

text \<open>
  C26. A poll that is due, from a state the loop can be in, feeds the reading
  to the detector without raising, copies the detector's count into \<^verbatim>\<open>steps\<close>
  and restarts the timer when the display accepted the redraw; when the
  display raised, the timer is not restarted and the next iteration polls
  again.
\<close>

theorem poll_synchronises:
  assumes "server_inv s" and "due s t"
  shows "poll s t (Some v) shown =
     s\<lparr>krokomierz := feed (krokomierz s) v,
       steps := Some (get_step_count (feed (krokomierz s) v)),
       last_gyro_update_ms := (if shown then t else last_gyro_update_ms s)\<rparr>"
  using assms(2) server_inv_ok [OF assms(1)] by (rule poll_ok)

theorem poll_synchronises_witness:
  "server_inv (fst (serve two_steps dodaj_request))
   \<and> due (fst (serve two_steps dodaj_request)) 51
   \<and> steps (fst (serve two_steps dodaj_request)) = None
   \<and> steps (poll (fst (serve two_steps dodaj_request)) 51 (Some (0, 0, 1)) True) = Some 3
   \<and> last_gyro_update_ms (poll (fst (serve two_steps dodaj_request)) 51 (Some (0, 0, 1)) True)
       = 51"
proof -
  let ?s = "fst (serve two_steps dodaj_request)"
  have s: "?s = two_steps\<lparr>krokomierz := add_step (krokomierz two_steps), steps := None\<rparr>"
    by (simp add: serve_def dispatch_dodaj)
  have i: "server_inv ?s"
    using inv_dispatch [OF inv_two_steps] by (simp add: fst_serve)
  have d: "due ?s 51"
    unfolding s
    by (simp add: due_def two_steps_def ticks_diff_def TICKS_PERIOD_def
        GYRO_UPDATE_INTERVAL_MS_def)
  have "step_count (feed (krokomierz ?s) (0, 0, 1)) = 3"
    unfolding s
    by (simp add: two_steps_def feed_def process_sample_def add_step_def
        default_detector_eq eval_defs)
  with poll_synchronises [OF i d, of "(0, 0, 1)" True] i d show ?thesis
    by (simp add: get_step_count_def) (simp add: s)
qed

text \<open>
  The loop keeps the detector sound. From the state at boot, whatever
  the clock, the sensor, the display and the network deliver, after any number
  of iterations the detector is well formed, its threshold and low-pass
  windows have positive capacity, so that the next \<^verbatim>\<open>process_sample\<close> returns
  without raising, and \<^verbatim>\<open>steps\<close> is \<^verbatim>\<open>None\<close> or a non-negative count.
\<close>

lemma loop_keeps_detector_sound:
  "server_inv (fst (run_loop (boot t0) inputs))
   \<and> (\<exists>k. process_sample (krokomierz (fst (run_loop (boot t0) inputs))) ax ay az = Inr k)"
proof -
  have i: "server_inv (fst (run_loop (boot t0) inputs))"
    using inv_boot by (rule inv_run_loop)
  from server_inv_ok [OF i, of "norm3 ax ay az"] i show ?thesis
    by (simp add: process_sample_def is_ok_iff)
qed

section \<open>The request line, the clock and the JSON text\<close>

lemma route_first_ten:
  assumes "CR \<notin> set p" and "length p \<le> 10" and "take 10 request = take 10 request'"
  shows "prefix p (first_line request) \<longleftrightarrow> prefix p (first_line request')"
  using assms prefix_take_iff [of p 10 request] prefix_take_iff [of p 10 request']
  by (simp add: prefix_first_line_iff)

lemma dispatch_first_line: "dispatch s (first_line request) = dispatch s request"
  by (simp add: dispatch_def prefix_first_line_iff)

text \<open>
  C38. The router reads the first ten characters of a request and nothing
  else: two requests that agree on them get the same reply and leave the same
  state. A path that only begins like a route is served as that route, and
  headers, body and the rest of the request line are never looked at; the
  split of the request at its first line break changes nothing, because no
  route contains a line break.
\<close>

theorem routing_by_first_ten:
  assumes "take 10 request = take 10 request'"
  shows "serve s request = serve s request'"
proof -
  have "dispatch s (first_line request) = dispatch s (first_line request')"
    unfolding dispatch_def
    by (simp add: route_first_ten [OF _ _ assms])
  then show ?thesis by (simp add: serve_def)
qed

theorem routing_by_first_ten_witness:
  "take 10 (''GET /stepsize?x=1 HTTP/1.1'' @ crlf @ crlf) = take 10 steps_request
   \<and> serve two_steps (''GET /stepsize?x=1 HTTP/1.1'' @ crlf @ crlf) = serve two_steps steps_request"
  using routing_by_first_ten [of "''GET /stepsize?x=1 HTTP/1.1'' @ crlf @ crlf" steps_request
      two_steps]
  by (simp add: steps_request_def)


text \<open>
  The poll timer survives the wrap-around of the millisecond clock: when
  \<open>d\<close> milliseconds, fewer than \<open>2^29\<close>, have passed since the last poll,
  \<^verbatim>\<open>ticks_diff\<close> reads \<open>d\<close> whatever the clock value was, so the poll is due
  exactly when more than 50 ms have passed.
\<close>

lemma timer_wraparound:
  assumes "0 \<le> d" and "d < 2 ^ 29"
  shows "ticks_diff (ticks_add t d) t = d
       \<and> (GYRO_UPDATE_INTERVAL_MS < ticks_diff (ticks_add t d) t \<longleftrightarrow> 50 < d)"
  using assms ticks_diff_add [of d t] by (simp add: GYRO_UPDATE_INTERVAL_MS_def)

text \<open>
  The body of a count reply reads back as the value of \<^verbatim>\<open>steps\<close>: an
  integer as that integer, \<^verbatim>\<open>None\<close> as \<^verbatim>\<open>null\<close>, and different values give
  different bodies.
\<close>

lemma steps_json_roundtrip:
  "steps_of_json (get_steps_json s) = steps s
   \<and> (get_steps_json s = get_steps_json s' \<longleftrightarrow> steps s = steps s')"
  by (simp add: get_steps_json_def)

end
