(* ===== verification/Firmware.thy ===== *)
theory Firmware
  imports Server Operations Display
begin

text \<open>
  The whole program of \<^verbatim>\<open>src/main.py\<close>, from its first statement to the loop:
  the bring-up of the I2C bus, the sensor and the display inside
  \<^verbatim>\<open>try ... except\<close> (\<open>bring_up\<close>), \<^verbatim>\<open>connect_wifi\<close> with the screens it draws
  and its wait loop (\<open>wait_connected\<close>), the set-up of the listening socket
  (\<open>socket_setup\<close>), and their composition \<open>main_program\<close>, which ends in an
  exception or in the \<open>firmware\<close> state the loop starts from. \<open>iterate\<close> and
  \<open>run_firmware\<close> are the loop of theory \<open>Server\<close> together with the display;
  \<open>lags\<close> and \<open>polls\<close> follow the poll timer along the loop, and \<open>fed\<close> lists
  the readings that reach the detector.
  A failed statement of the bring-up leaves the names after it unbound, and
  a later use of such a name raises \<^verbatim>\<open>NameError\<close>; the names bound are a set
  of \<open>global\<close>s. What the devices do is an input: which statement of the
  bring-up fails first, whether the display accepts what is drawn while the
  network is joined, the answers of \<^verbatim>\<open>wlan.isconnected\<close> by call number, the
  address \<^verbatim>\<open>wlan.ifconfig\<close> reports, and whether the socket calls succeed.
\<close>

section \<open>Bring-up of the devices\<close>

definition SSID :: string where
  "SSID = []"

datatype global = G_i2c | G_accel_sensor | G_display

datatype hardware = I2C_fails | MPU6050_fails | SSD1306_fails | Splash_fails | Hardware_up

fun bring_up :: "hardware \<Rightarrow> global set \<times> draw list" where
  "bring_up I2C_fails = ({}, [])"
| "bring_up MPU6050_fails = ({G_i2c}, [])"
| "bring_up SSD1306_fails = ({G_i2c, G_accel_sensor}, [])"
| "bring_up Splash_fails = ({G_i2c, G_accel_sensor, G_display}, [])"
| "bring_up Hardware_up = ({G_i2c, G_accel_sensor, G_display}, splash)"

definition on_display :: "global set \<Rightarrow> bool \<Rightarrow> draw list \<Rightarrow> draw list result" where
  "on_display bound shown screen =
     (if G_display \<notin> bound then Inl NameError
      else if shown then Inr screen
      else Inl OSError)"

section \<open>Joining the network\<close>

fun wait_connected :: "(nat \<Rightarrow> bool) \<Rightarrow> nat \<Rightarrow> nat \<Rightarrow> nat" where
  "wait_connected isconnected 0 asked = asked"
| "wait_connected isconnected (Suc max_wait) asked =
     (if isconnected asked then Suc asked
      else wait_connected isconnected max_wait (Suc asked))"

definition join :: "global set \<Rightarrow> bool \<Rightarrow> (nat \<Rightarrow> bool) \<Rightarrow> (draw list \<times> nat) result" where
  "join bound shown isconnected =
     (if \<not> isconnected 0 then
        (case on_display bound shown (connecting_screen SSID) of
           Inl e \<Rightarrow> Inl e
         | Inr d \<Rightarrow> Inr (d, wait_connected isconnected 20 1))
      else Inr ([], 1))"

definition connect_wifi ::
  "global set \<Rightarrow> bool \<Rightarrow> (nat \<Rightarrow> bool) \<Rightarrow> string \<Rightarrow> draw list \<times> string result" where
  "connect_wifi bound shown isconnected ip =
     (case join bound shown isconnected of
        Inl e \<Rightarrow> ([], Inl e)
      | Inr (d, asked) \<Rightarrow>
          if isconnected asked then
            (case on_display bound shown (connected_screen ip) of
               Inl e \<Rightarrow> (d, Inl e)
             | Inr d' \<Rightarrow> (d @ d', Inr ip))
          else
            (case on_display bound shown failed_screen of
               Inl e \<Rightarrow> (d, Inl e)
             | Inr d' \<Rightarrow> (d @ d', Inl RuntimeError)))"

section \<open>The program up to the loop\<close>

record firmware =
  core :: server
  ip_addr :: string
  display :: oled

definition socket_setup :: "bool \<Rightarrow> unit result" where
  "socket_setup sock_ok = (if sock_ok then Inr () else Inl OSError)"

definition main_program ::
  "hardware \<Rightarrow> bool \<Rightarrow> (nat \<Rightarrow> bool) \<Rightarrow> string \<Rightarrow> bool \<Rightarrow> int \<Rightarrow> draw list \<times> firmware result"
where
  "main_program hw shown isconnected ip sock_ok t0 =
     (case bring_up hw of
        (bound, d0) \<Rightarrow>
          (case connect_wifi bound shown isconnected ip of
             (d1, Inl e) \<Rightarrow> (d0 @ d1, Inl e)
           | (d1, Inr a) \<Rightarrow>
               (case socket_setup sock_ok of
                  Inl e \<Rightarrow> (d0 @ d1, Inl e)
                | Inr u \<Rightarrow>
                    (d0 @ d1,
                     Inr \<lparr>core = boot t0, ip_addr = a,
                          display = draw_all (SSD1306_I2C 128 32) (d0 @ d1)\<rparr>))))"

section \<open>The loop with the display\<close>

definition redraw :: "server \<Rightarrow> string \<Rightarrow> int \<Rightarrow> sample option \<Rightarrow> bool \<Rightarrow> draw list" where
  "redraw s ip current_time accel_data shown =
     (if ticks_diff current_time (last_gyro_update_ms s) > GYRO_UPDATE_INTERVAL_MS then
        (case accel_data of
           None \<Rightarrow> []
         | Some (ax, ay, az) \<Rightarrow>
            (case process_sample (krokomierz s) ax ay az of
               Inl (e, k) \<Rightarrow> []
             | Inr k \<Rightarrow> if shown then steps_screen (get_step_count k) ip else []))
      else [])"

definition iterate :: "firmware \<Rightarrow> inputs \<Rightarrow> firmware \<times> string option" where
  "iterate m i =
     (case loop_body (core m) i of
        (s, out) \<Rightarrow>
          (m\<lparr>core := s,
             display := draw_all (display m)
               (redraw (core m) (ip_addr m) (now i) (reading i) (display_ok i))\<rparr>,
           out))"

fun run_firmware :: "firmware \<Rightarrow> inputs list \<Rightarrow> firmware \<times> string option list" where
  "run_firmware m [] = (m, [])"
| "run_firmware m (i # is) =
     (case iterate m i of
        (m1, out) \<Rightarrow> (case run_firmware m1 is of (m2, outs) \<Rightarrow> (m2, out # outs)))"

definition program ::
  "hardware \<Rightarrow> bool \<Rightarrow> (nat \<Rightarrow> bool) \<Rightarrow> string \<Rightarrow> bool \<Rightarrow> int \<Rightarrow> inputs list
     \<Rightarrow> (firmware \<times> string option list) result"
where
  "program hw shown isconnected ip sock_ok t0 is =
     (case snd (main_program hw shown isconnected ip sock_ok t0) of
        Inl e \<Rightarrow> Inl e
      | Inr m \<Rightarrow> Inr (run_firmware m is))"

section \<open>The clock along the loop\<close>

text \<open>
  The environment of a stretch of the loop: \<open>steady D t is\<close> says that each
  iteration starts at most \<open>D\<close> milliseconds after the one before, the first
  of them after the clock value \<open>t\<close>; an input is \<open>healthy\<close> when the sensor
  delivers a reading and the display accepts the redraw. \<open>lags\<close> lists, per
  iteration, the age of the last poll that the guard of line 84 reads, and
  \<open>polls\<close> whether the iteration polled.
\<close>

fun steady :: "int \<Rightarrow> int \<Rightarrow> inputs list \<Rightarrow> bool" where
  "steady D t [] = True"
| "steady D t (i # is) =
     (0 \<le> ticks_diff (now i) t \<and> ticks_diff (now i) t \<le> D \<and> steady D (now i) is)"

definition healthy :: "inputs \<Rightarrow> bool" where
  "healthy i \<longleftrightarrow> reading i \<noteq> None \<and> display_ok i"

definition polled :: "server \<Rightarrow> inputs \<Rightarrow> bool" where
  "polled s i \<longleftrightarrow>
     due s (now i) \<and> display_ok i
     \<and> (case reading i of
          None \<Rightarrow> False
        | Some (ax, ay, az) \<Rightarrow> is_ok (process_sample (krokomierz s) ax ay az))"

fun lags :: "server \<Rightarrow> inputs list \<Rightarrow> int list" where
  "lags s [] = []"
| "lags s (i # is) =
     ticks_diff (now i) (last_gyro_update_ms s) # lags (fst (loop_body s i)) is"

fun polls :: "server \<Rightarrow> inputs list \<Rightarrow> bool list" where
  "polls s [] = []"
| "polls s (i # is) = polled s i # polls (fst (loop_body s i)) is"

text \<open>
  \<open>fed\<close> lists the readings that reach the detector along a stretch of the
  loop: those of the iterations in which the poll is due and the sensor
  delivers.
\<close>

fun fed :: "server \<Rightarrow> inputs list \<Rightarrow> sample list" where
  "fed s [] = []"
| "fed s (i # is) =
     (case reading i of
        None \<Rightarrow> []
      | Some v \<Rightarrow> if due s (now i) then [v] else [])
     @ fed (fst (loop_body s i)) is"

section \<open>Facts about the wait for the network\<close>

lemma wait_connected_bounds:
  "asked \<le> wait_connected isc w asked \<and> wait_connected isc w asked \<le> asked + w"
proof (induction w arbitrary: asked)
  case 0
  show ?case by simp
next
  case (Suc w)
  from Suc [of "Suc asked"] show ?case by auto
qed

lemma wait_connected_from:
  "wait_connected (\<lambda>k. j \<le> k) w asked =
     (if w = 0 then asked else if j < asked + w then Suc (max j asked) else asked + w)"
proof (induction w arbitrary: asked)
  case 0
  show ?case by simp
next
  case (Suc w)
  show ?case
    by (cases "j \<le> asked") (auto simp: Suc max_def)
qed

lemma join_from:
  "join bound shown (\<lambda>k. j \<le> k) =
     (if j = 0 then Inr ([], 1)
      else case on_display bound shown (connecting_screen SSID) of
             Inl e \<Rightarrow> Inl e
           | Inr d \<Rightarrow> Inr (d, if j < 21 then Suc j else 21))"
  by (auto simp: join_def wait_connected_from max_def split: sum.split)

section \<open>Facts about the bring-up\<close>

lemma display_bound_iff:
  "G_display \<in> fst (bring_up hw) \<longleftrightarrow> hw = Splash_fails \<or> hw = Hardware_up"
  by (cases hw) simp_all

lemma display_bound_sensor_bound:
  "G_display \<in> fst (bring_up hw) \<Longrightarrow> G_accel_sensor \<in> fst (bring_up hw)"
  by (cases hw) simp_all

lemma connect_wifi_unbound:
  "G_display \<notin> bound \<Longrightarrow> snd (connect_wifi bound shown (\<lambda>k. j \<le> k) ip) = Inl NameError"
  by (simp add: connect_wifi_def join_from on_display_def)

lemma connect_wifi_bound:
  "G_display \<in> bound \<Longrightarrow>
   connect_wifi bound True (\<lambda>k. j \<le> k) ip =
     ((if j = 0 then [] else connecting_screen SSID)
        @ (if j \<le> 21 then connected_screen ip else failed_screen),
      if j \<le> 21 then Inr ip else Inl RuntimeError)"
  by (simp add: connect_wifi_def join_from on_display_def)

lemma connect_wifi_dark:
  "G_display \<in> bound \<Longrightarrow>
   connect_wifi bound False (\<lambda>k. j \<le> k) ip = ([], Inl OSError)"
  by (simp add: connect_wifi_def join_from on_display_def)

section \<open>Facts about the loop with the display\<close>

lemma redraw_polled:
  "redraw s ip (now i) (reading i) (display_ok i) =
     (if polled s i
      then steps_screen (get_step_count (krokomierz (poll s (now i) (reading i) (display_ok i)))) ip
      else [])"
  by (auto simp: redraw_def polled_def poll_def due_def Let_def
      split: option.split sum.split)

lemma timer_polled:
  "last_gyro_update_ms (poll s (now i) (reading i) (display_ok i)) =
     (if polled s i then now i else last_gyro_update_ms s)"
  by (auto simp: polled_def poll_def due_def Let_def
      split: option.split sum.split)

lemma core_iterate [simp]:
  "core (fst (iterate m i)) = fst (loop_body (core m) i)"
  "snd (iterate m i) = snd (loop_body (core m) i)"
  "ip_addr (fst (iterate m i)) = ip_addr m"
  by (simp_all add: iterate_def split_beta)

lemma display_iterate:
  "display (fst (iterate m i)) =
     draw_all (display m) (redraw (core m) (ip_addr m) (now i) (reading i) (display_ok i))"
  by (simp add: iterate_def split_beta)

lemma fst_run_firmware_Cons [simp]:
  "fst (run_firmware m (i # is)) = fst (run_firmware (fst (iterate m i)) is)"
  by (simp add: split_beta)

lemma snd_run_firmware_Cons [simp]:
  "snd (run_firmware m (i # is)) = snd (iterate m i) # snd (run_firmware (fst (iterate m i)) is)"
  by (simp add: split_beta del: core_iterate)

declare run_firmware.simps(2) [simp del]

lemma snd_run_loop_Cons [simp]:
  "snd (run_loop s (i # is)) = snd (loop_body s i) # snd (run_loop (fst (loop_body s i)) is)"
  by (simp split: prod.split)

lemma length_run_loop [simp]: "length (snd (run_loop s is)) = length is"
  by (induction "is" arbitrary: s) (simp_all del: run_loop.simps(2))

lemma run_firmware_core:
  "core (fst (run_firmware m is)) = fst (run_loop (core m) is)
   \<and> snd (run_firmware m is) = snd (run_loop (core m) is)
   \<and> ip_addr (fst (run_firmware m is)) = ip_addr m"
  by (induction "is" arbitrary: m) (simp_all del: run_loop.simps(2))

section \<open>The loop uses the detector through its interface\<close>

lemma reachable_poll:
  assumes "reachable nws lfs tws amp (krokomierz s)"
  shows "reachable nws lfs tws amp (krokomierz (poll s t r shown))"
proof (cases "due s t \<and> r \<noteq> None")
  case True
  then obtain ax ay az where r: "r = Some (ax, ay, az)" by auto
  from True have "krokomierz (poll s t r shown) = fst (call (krokomierz s) (Process_sample ax ay az))"
    unfolding r by (auto simp: poll_def due_def Let_def split: sum.split)
  with assms show ?thesis by (simp add: called del: call.simps)
next
  case False
  then have "poll s t r shown = s"
    by (cases r) (auto simp: poll_not_due poll_no_reading)
  with assms show ?thesis by simp
qed

lemma reachable_dispatch:
  assumes "reachable nws lfs tws amp (krokomierz s)"
  shows "reachable nws lfs tws amp (krokomierz (fst (dispatch s line)))"
proof -
  have "krokomierz (fst (dispatch s line)) = krokomierz s
      \<or> krokomierz (fst (dispatch s line)) = fst (call (krokomierz s) Reset_step_count)
      \<or> krokomierz (fst (dispatch s line)) = fst (call (krokomierz s) Add_step)"
    by (auto simp: dispatch_def Let_def)
  with assms called [OF assms] show ?thesis by metis
qed

lemma reachable_loop_body:
  assumes "reachable nws lfs tws amp (krokomierz s)"
  shows "reachable nws lfs tws amp (krokomierz (fst (loop_body s i)))"
  using reachable_poll [OF assms] reachable_dispatch
  by (auto simp: loop_body_def fst_handle_connection fst_serve Let_def split: option.split)

lemma reachable_run_loop:
  "reachable nws lfs tws amp (krokomierz s) \<Longrightarrow>
   reachable nws lfs tws amp (krokomierz (fst (run_loop s is)))"
  by (induction "is" arbitrary: s) (simp_all add: reachable_loop_body del: run_loop.simps(2))

lemma reachable_boot: "reachable 20 7 10 (8 / 10) (krokomierz (boot t0))"
  using constructed [OF default_detector_fresh] by (simp add: boot_def)

lemma timer_loop_body:
  "last_gyro_update_ms (fst (loop_body s i)) =
     last_gyro_update_ms (poll s (now i) (reading i) (display_ok i))"
  by (auto simp: loop_body_def fst_handle_connection fst_serve dispatch_def Let_def
      split: option.split)

section \<open>Iterations that only poll, with the display\<close>

lemma polled_tick:
  assumes "server_inv s"
  shows "polled s \<lparr>now = ticks_add (last_gyro_update_ms s) 60, reading = Some v,
                   display_ok = True, connection = None\<rparr>"
  using due_after_60 [of s] server_inv_ok [OF assms, of "norm_of v"]
  by (cases v) (simp add: polled_def process_sample_def norm_of_def)

lemma iterate_tick:
  assumes "server_inv (core m)"
  shows "fst (iterate m \<lparr>now = ticks_add (last_gyro_update_ms (core m)) 60, reading = Some v,
                          display_ok = True, connection = None\<rparr>)
     = m\<lparr>core := (core m)\<lparr>krokomierz := feed (krokomierz (core m)) v,
            steps := Some (get_step_count (feed (krokomierz (core m)) v)),
            last_gyro_update_ms := ticks_add (last_gyro_update_ms (core m)) 60\<rparr>,
         display := draw_all (display m)
            (steps_screen (get_step_count (feed (krokomierz (core m)) v)) (ip_addr m))\<rparr>"
  using polled_tick [OF assms, of v]
    redraw_polled [of "core m" "ip_addr m"
      "\<lparr>now = ticks_add (last_gyro_update_ms (core m)) 60, reading = Some v,
        display_ok = True, connection = None\<rparr>"]
  by (simp add: iterate_def loop_body_tick [OF assms] krokomierz_poll due_after_60)

lemma run_firmware_ticking:
  assumes "server_inv (core m)" and "vs \<noteq> []"
  shows "panel (display (fst (run_firmware m (ticking (last_gyro_update_ms (core m)) vs))))
     = (0, [(''KROKI: '' @ str_int (get_step_count (run (krokomierz (core m)) vs)), 0, 0, 1),
            (''IP: '' @ ip_addr m, 0, 24, 1)])"
  using assms
proof (induction vs arbitrary: m)
  case Nil
  then show ?case by simp
next
  case (Cons v vs)
  let ?i = "\<lparr>now = ticks_add (last_gyro_update_ms (core m)) 60, reading = Some v,
             display_ok = True, connection = None\<rparr>"
  note t = iterate_tick [OF Cons.prems(1), of v]
  have "server_inv (fst (loop_body (core m) ?i))"
    using Cons.prems(1) by (rule inv_loop_body)
  then have i: "server_inv (core (fst (iterate m ?i)))" by simp
  show ?case
  proof (cases "vs = []")
    case True
    then show ?thesis by (simp add: t draw_steps_screen)
  next
    case False
    from Cons.IH [OF i False] show ?thesis by (simp add: t)
  qed
qed

lemma outs_ticking: "snd (run_loop s (ticking t vs)) = replicate (length vs) None"
  by (induction vs arbitrary: s t) (simp_all add: loop_body_def del: run_loop.simps(2))

lemma snd_main_program:
  "snd (main_program hw shown isconnected ip sock_ok t0) =
     (case snd (connect_wifi (fst (bring_up hw)) shown isconnected ip) of
        Inl e \<Rightarrow> Inl e
      | Inr a \<Rightarrow>
          (case socket_setup sock_ok of
             Inl e \<Rightarrow> Inl e
           | Inr u \<Rightarrow>
               Inr \<lparr>core = boot t0, ip_addr = a,
                    display = draw_all (SSD1306_I2C 128 32)
                      (snd (bring_up hw)
                         @ fst (connect_wifi (fst (bring_up hw)) shown isconnected ip))\<rparr>))"
  by (simp add: main_program_def split: prod.split sum.split)

lemma main_program_up:
  "j \<le> 21 \<Longrightarrow>
   snd (main_program Hardware_up True (\<lambda>k. j \<le> k) ip True t0) =
     Inr \<lparr>core = boot t0, ip_addr = ip,
          display = draw_all (SSD1306_I2C 128 32) (connected_screen ip)\<rparr>"
  by (simp add: snd_main_program connect_wifi_bound socket_setup_def draw_connected_screen
      SSD1306_I2C_def)

section \<open>Facts about the cadence\<close>

lemma polled_healthy:
  assumes "server_inv s" and "healthy i"
  shows "polled s i \<longleftrightarrow> 50 < ticks_diff (now i) (last_gyro_update_ms s)"
proof -
  from assms(2) obtain ax ay az where r: "reading i = Some (ax, ay, az)"
    by (cases "reading i") (auto simp: healthy_def)
  from server_inv_ok [OF assms(1), of "norm3 ax ay az"] assms(2) show ?thesis
    by (simp add: polled_def r healthy_def due_def process_sample_def
        GYRO_UPDATE_INTERVAL_MS_def)
qed

lemma timer_iterate:
  "last_gyro_update_ms (fst (loop_body s i)) =
     (if polled s i then now i else last_gyro_update_ms s)"
  by (simp add: timer_loop_body timer_polled)

lemma lag_step:
  assumes "0 \<le> ticks_diff t' t" and "ticks_diff t' t \<le> D"
    and "0 \<le> ticks_diff t l" and "ticks_diff t l \<le> 50" and "D + 50 < 2 ^ 29"
  shows "0 \<le> ticks_diff t' l \<and> ticks_diff t' l \<le> 50 + D"
proof -
  from assms have "ticks_diff t' l = ticks_diff t' t + ticks_diff t l"
    by (intro ticks_diff_trans) simp_all
  with assms show ?thesis by simp
qed

section \<open>Facts about what the detector is fed\<close>

lemma run_count:
  "(run (k\<lparr>step_count := c'\<rparr>) vs)\<lparr>step_count := c\<rparr> = (run k vs)\<lparr>step_count := c\<rparr>"
  by (simp add: run_run_norms run_norms_count recount_def)

lemma krokomierz_loop_body:
  "\<exists>c'. krokomierz (fst (loop_body s i))
     = (krokomierz (poll s (now i) (reading i) (display_ok i)))\<lparr>step_count := c'\<rparr>"
proof -
  let ?k = "krokomierz (poll s (now i) (reading i) (display_ok i))"
  have "krokomierz (fst (loop_body s i)) = ?k
      \<or> krokomierz (fst (loop_body s i)) = reset_step_count ?k
      \<or> krokomierz (fst (loop_body s i)) = add_step ?k"
    by (auto simp: loop_body_def fst_handle_connection fst_serve dispatch_def Let_def
        split: option.split)
  moreover have "?k = ?k\<lparr>step_count := step_count ?k\<rparr>" by simp
  ultimately show ?thesis
    unfolding reset_step_count_def add_step_def by metis
qed

lemma run_fed_step:
  "run k (case r of None \<Rightarrow> [] | Some v \<Rightarrow> if due s t then [v] else [])
     = krokomierz (poll (s\<lparr>krokomierz := k\<rparr>) t r shown)"
  by (cases r) (simp_all add: krokomierz_poll due_def)

section \<open>The invariant of the program\<close>

definition panel_ok :: "firmware \<Rightarrow> bool" where
  "panel_ok m \<longleftrightarrow>
     panel (display m) = (0, [(''IP: '' @ ip_addr m, 0, 0, 1), (''Serwer MPU ON'', 0, 16, 1)])
     \<or> (\<exists>n. 0 \<le> n
          \<and> panel (display m)
              = (0, [(''KROKI: '' @ str_int n, 0, 0, 1), (''IP: '' @ ip_addr m, 0, 24, 1)]))"

definition firmware_inv :: "firmware \<Rightarrow> bool" where
  "firmware_inv m \<longleftrightarrow>
     server_inv (core m) \<and> reachable 20 7 10 (8 / 10) (krokomierz (core m)) \<and> panel_ok m"

lemma panel_iterate:
  assumes "server_inv (core m)" and "panel_ok m"
  shows "panel_ok (fst (iterate m i))"
proof (cases "polled (core m) i")
  case True
  let ?n = "get_step_count (krokomierz (poll (core m) (now i) (reading i) (display_ok i)))"
  from assms(1) have "server_inv (poll (core m) (now i) (reading i) (display_ok i))"
    by (rule inv_poll)
  then have "0 \<le> ?n"
    by (simp add: server_inv_def detector_inv_count)
  with True show ?thesis
    by (auto simp: panel_ok_def display_iterate redraw_polled draw_steps_screen)
next
  case False
  with assms(2) show ?thesis
    by (simp add: panel_ok_def display_iterate redraw_polled)
qed

lemma inv_iterate: "firmware_inv m \<Longrightarrow> firmware_inv (fst (iterate m i))"
  by (simp add: firmware_inv_def inv_loop_body reachable_loop_body panel_iterate)

lemma inv_run_firmware: "firmware_inv m \<Longrightarrow> firmware_inv (fst (run_firmware m is))"
  by (induction "is" arbitrary: m) (simp_all add: inv_iterate)

lemma length_run_firmware [simp]: "length (snd (run_firmware m is)) = length is"
  by (induction "is" arbitrary: m) simp_all

lemma connect_wifi_InrD:
  assumes "connect_wifi bound shown isconnected ip = (d, Inr a)"
  shows "a = ip \<and> (\<exists>d'. d = d' @ connected_screen ip)"
  using assms
  by (auto simp: connect_wifi_def join_def on_display_def split: sum.splits if_splits)

lemma connect_wifi_raises:
  "snd (connect_wifi bound shown isconnected ip) = Inl e \<Longrightarrow>
   e = NameError \<or> e = OSError \<or> e = RuntimeError"
  by (auto simp: connect_wifi_def join_def on_display_def split: sum.splits if_splits)

lemma main_program_raises:
  "snd (main_program hw shown isconnected ip sock_ok t0) = Inl e \<Longrightarrow>
   e = NameError \<or> e = OSError \<or> e = RuntimeError"
  by (auto simp: snd_main_program socket_setup_def dest: connect_wifi_raises
      split: sum.splits if_splits)

lemma inv_main_program:
  assumes "snd (main_program hw shown isconnected ip sock_ok t0) = Inr m"
  shows "firmware_inv m \<and> core m = boot t0 \<and> ip_addr m = ip"
proof -
  obtain d a where c: "connect_wifi (fst (bring_up hw)) shown isconnected ip = (d, Inr a)"
    using assms
    by (cases "connect_wifi (fst (bring_up hw)) shown isconnected ip")
       (auto simp: snd_main_program split: sum.splits)
  from connect_wifi_InrD [OF c] obtain d' where a: "a = ip" and d: "d = d' @ connected_screen ip"
    by blast
  from assms c have m: "m = \<lparr>core = boot t0, ip_addr = ip,
      display = draw_all (SSD1306_I2C 128 32) (snd (bring_up hw) @ d' @ connected_screen ip)\<rparr>"
    by (auto simp: snd_main_program a d split: sum.splits)
  from reachable_boot [of t0] show ?thesis
    by (simp add: m firmware_inv_def inv_boot panel_ok_def draw_connected_screen)
qed

section \<open>Start-up\<close>

text \<open>
  C30. \<^verbatim>\<open>connect_wifi\<close> terminates after at most 20 waits. If the link comes up
  at the \<open>j\<close>-th call of \<^verbatim>\<open>isconnected\<close> (counted from 0) and stays up, and the
  display is bound and accepts what is drawn, the function returns the
  address when \<open>j \<le> 21\<close> and raises \<^verbatim>\<open>RuntimeError\<close> otherwise, and it has drawn
  the connecting screen unless the link was up at once, followed by the
  address or the failure. With a display that rejects the drawing it raises
  \<^verbatim>\<open>OSError\<close>, and with the name \<^verbatim>\<open>display\<close> unbound \<^verbatim>\<open>NameError\<close>, whatever the
  link does.
\<close>

theorem connect_wifi_iff:
  "connect_wifi bound shown (\<lambda>k. j \<le> k) ip =
     (if G_display \<in> bound then
        if shown then
          ((if j = 0 then [] else connecting_screen SSID)
             @ (if j \<le> 21 then connected_screen ip else failed_screen),
           if j \<le> 21 then Inr ip else Inl RuntimeError)
        else ([], Inl OSError)
      else ([], Inl NameError))"
  by (simp add: connect_wifi_def join_from on_display_def)

text \<open>
  C22. The program reaches its loop exactly when the three devices were
  created, the display accepted the screens, the link came up by the 21st
  call and the socket calls succeeded; it then starts from the state of
  \<open>boot\<close> with the address of the link and the panel showing that address.
  When the bus, the sensor or the display could not be created, the handler
  of the bring-up only prints, and the program then ends in \<^verbatim>\<open>NameError\<close> at
  the first use of \<^verbatim>\<open>display\<close> in \<^verbatim>\<open>connect_wifi\<close>, whatever the network does.
\<close>

theorem program_starts:
  "snd (main_program hw shown (\<lambda>k. j \<le> k) ip sock_ok t0) =
     (if hw = I2C_fails \<or> hw = MPU6050_fails \<or> hw = SSD1306_fails then Inl NameError
      else if shown then
        (if j \<le> 21 then
           (if sock_ok then
              Inr \<lparr>core = boot t0, ip_addr = ip,
                   display =
                     \<lparr>width = 128, height = 32,
                      buffer = (0, [(''IP: '' @ ip, 0, 0, 1), (''Serwer MPU ON'', 0, 16, 1)]),
                      panel = (0, [(''IP: '' @ ip, 0, 0, 1), (''Serwer MPU ON'', 0, 16, 1)])\<rparr>\<rparr>
            else Inl OSError)
         else Inl RuntimeError)
      else Inl OSError)"
  by (cases hw; cases shown)
     (simp_all add: snd_main_program connect_wifi_unbound connect_wifi_bound
        connect_wifi_dark socket_setup_def draw_connected_screen SSD1306_I2C_def)

section \<open>The display in the loop\<close>

text \<open>
  C27. One iteration of the loop redraws the display exactly when the poll
  was due, the sensor delivered a sample, \<^verbatim>\<open>process_sample\<close> returned and the
  display accepted the drawing. The panel then shows the count of the
  detector after that sample and the address, and the timer restarts at the
  time of the iteration; otherwise the panel and the timer stay as they were.
  A request served in the same iteration changes neither.
\<close>

theorem display_follows_poll:
  "panel (display (fst (iterate m i))) =
     (if polled (core m) i then
        (0, [(''KROKI: ''
                @ str_int (get_step_count
                    (krokomierz (poll (core m) (now i) (reading i) (display_ok i)))),
              0, 0, 1),
             (''IP: '' @ ip_addr m, 0, 24, 1)])
      else panel (display m))
   \<and> last_gyro_update_ms (core (fst (iterate m i))) =
       (if polled (core m) i then now i else last_gyro_update_ms (core m))"
  by (simp add: display_iterate redraw_polled draw_steps_screen timer_loop_body timer_polled)

section \<open>The program as a whole\<close>

text \<open>
  C21. Safety of the program. Whatever the devices, the network and the
  clients do, the program either ends before its loop, with \<^verbatim>\<open>NameError\<close>,
  \<^verbatim>\<open>OSError\<close> or \<^verbatim>\<open>RuntimeError\<close>, or it is in its loop after any number of
  iterations, has answered or skipped every one of them, and then: the
  detector is well formed and typed, so that the next \<^verbatim>\<open>process_sample\<close>
  returns without raising, \<^verbatim>\<open>steps\<close> is \<^verbatim>\<open>None\<close> or a non-negative count, and
  the panel shows the address of the link below a non-negative count, or the
  start-up screen with that address.
\<close>

theorem program_safe:
  "(case program hw shown isconnected ip sock_ok t0 inputs of
      Inl e \<Rightarrow> e = NameError \<or> e = OSError \<or> e = RuntimeError
    | Inr (m, outs) \<Rightarrow>
        server_inv (core m) \<and> typed 20 7 10 (8 / 10) (krokomierz (core m))
        \<and> panel_ok m \<and> ip_addr m = ip \<and> length outs = length inputs
        \<and> is_ok (process_sample (krokomierz (core m)) ax ay az))"
proof (cases "snd (main_program hw shown isconnected ip sock_ok t0)")
  case (Inl e)
  with main_program_raises [OF Inl] show ?thesis by (simp add: program_def)
next
  case (Inr m0)
  let ?m = "fst (run_firmware m0 inputs)"
  from inv_main_program [OF Inr] have i: "firmware_inv ?m" and a: "ip_addr m0 = ip"
    by (simp_all add: inv_run_firmware)
  then have "typed 20 7 10 (8 / 10) (krokomierz (core ?m))"
    by (auto simp: firmware_inv_def dest: typed_reachable)
  with i a server_inv_ok [of "core ?m" "norm3 ax ay az"] show ?thesis
    by (simp add: program_def Inr firmware_inv_def run_firmware_core process_sample_def
        split_beta)
qed

section \<open>The loop as a run of the detector\<close>

text \<open>
  C28. The loop feeds the detector and nothing else disturbs it. After any
  number of iterations, on any inputs, the detector is, up to its count, the
  detector run over the readings of the iterations in which the poll was due
  and the sensor delivered, in their order: the requests, a display that
  rejects the redraw and a \<^verbatim>\<open>process_sample\<close> that raises leave the windows,
  the slope and the peak state exactly as that run leaves them.
\<close>

theorem loop_feeds_detector:
  "(krokomierz (fst (run_loop s is)))\<lparr>step_count := c\<rparr>
     = (run (krokomierz s) (fed s is))\<lparr>step_count := c\<rparr>"
proof (induction "is" arbitrary: s)
  case Nil
  show ?case by simp
next
  case (Cons i "is")
  let ?k = "krokomierz (poll s (now i) (reading i) (display_ok i))"
  let ?s = "fst (loop_body s i)"
  obtain c' where k: "krokomierz ?s = ?k\<lparr>step_count := c'\<rparr>"
    using krokomierz_loop_body by blast
  have "run (krokomierz s) (fed s (i # is)) = run ?k (fed ?s is)"
    using run_fed_step [where k = "krokomierz s" and r = "reading i" and s = s
        and t = "now i" and shown = "display_ok i"]
    by (simp add: run_def)
  with Cons [of ?s] show ?case
    by (simp add: k run_count del: run_loop.simps(2))
qed

section \<open>The cadence of the polls\<close>

text \<open>
  C29. The cadence of the sensor polls. Take a stretch of the loop in which
  the sensor and the display work and every iteration starts at most \<open>D\<close>
  milliseconds after the one before, from a state whose last poll is at
  most 50 ms old. Then in every iteration the last poll is at most \<open>50 + D\<close>
  milliseconds old, across the wrap-around of the clock, and the iteration
  polls exactly when it is more than 50 ms old: the detector is fed no more
  often than every 51 ms and at least every \<open>50 + D\<close> ms.
\<close>

theorem poll_cadence:
  assumes "server_inv s" and "list_all healthy is" and "steady D t is"
    and "0 \<le> ticks_diff t (last_gyro_update_ms s)"
    and "ticks_diff t (last_gyro_update_ms s) \<le> 50" and "D + 50 < 2 ^ 29"
  shows "list_all (\<lambda>l. 0 \<le> l \<and> l \<le> 50 + D) (lags s is)
    \<and> polls s is = map (\<lambda>l. 50 < l) (lags s is)"
  using assms
proof (induction "is" arbitrary: s t)
  case Nil
  show ?case by simp
next
  case (Cons i "is")
  let ?s = "fst (loop_body s i)"
  from Cons.prems have h: "healthy i" and hs: "list_all healthy is"
    and st: "steady D (now i) is" by simp_all
  from Cons.prems have l: "0 \<le> ticks_diff (now i) (last_gyro_update_ms s)
      \<and> ticks_diff (now i) (last_gyro_update_ms s) \<le> 50 + D"
    by (intro lag_step [of _ t]) simp_all
  note p = polled_healthy [OF Cons.prems(1) h]
  have i: "server_inv ?s" using Cons.prems(1) by (rule inv_loop_body)
  from l p have "0 \<le> ticks_diff (now i) (last_gyro_update_ms ?s)
      \<and> ticks_diff (now i) (last_gyro_update_ms ?s) \<le> 50"
    by (auto simp: timer_iterate)
  with Cons.IH [OF i hs st] Cons.prems(6) l p show ?case by simp
qed

theorem poll_cadence_witness:
  "server_inv (boot (2 ^ 30 - 30))
   \<and> list_all healthy
        [\<lparr>now = 2 ^ 30 - 10, reading = Some (0, 0, 1), display_ok = True, connection = None\<rparr>,
         \<lparr>now = 10, reading = Some (0, 0, 1), display_ok = True, connection = None\<rparr>,
         \<lparr>now = 30, reading = Some (0, 0, 1), display_ok = True, connection = None\<rparr>]
   \<and> steady 20 (2 ^ 30 - 30)
        [\<lparr>now = 2 ^ 30 - 10, reading = Some (0, 0, 1), display_ok = True, connection = None\<rparr>,
         \<lparr>now = 10, reading = Some (0, 0, 1), display_ok = True, connection = None\<rparr>,
         \<lparr>now = 30, reading = Some (0, 0, 1), display_ok = True, connection = None\<rparr>]
   \<and> lags (boot (2 ^ 30 - 30))
        [\<lparr>now = 2 ^ 30 - 10, reading = Some (0, 0, 1), display_ok = True, connection = None\<rparr>,
         \<lparr>now = 10, reading = Some (0, 0, 1), display_ok = True, connection = None\<rparr>,
         \<lparr>now = 30, reading = Some (0, 0, 1), display_ok = True, connection = None\<rparr>]
       = [20, 40, 60]
   \<and> polls (boot (2 ^ 30 - 30))
        [\<lparr>now = 2 ^ 30 - 10, reading = Some (0, 0, 1), display_ok = True, connection = None\<rparr>,
         \<lparr>now = 10, reading = Some (0, 0, 1), display_ok = True, connection = None\<rparr>,
         \<lparr>now = 30, reading = Some (0, 0, 1), display_ok = True, connection = None\<rparr>]
       = [False, False, True]"
  using poll_cadence [of "boot (2 ^ 30 - 30)"
      "[\<lparr>now = 2 ^ 30 - 10, reading = Some (0, 0, 1), display_ok = True, connection = None\<rparr>,
        \<lparr>now = 10, reading = Some (0, 0, 1), display_ok = True, connection = None\<rparr>,
        \<lparr>now = 30, reading = Some (0, 0, 1), display_ok = True, connection = None\<rparr>]"
      20 "2 ^ 30 - 30"]
    inv_boot [of "2 ^ 30 - 30"]
  by (simp add: healthy_def loop_body_def poll_def boot_def ticks_diff_def TICKS_PERIOD_def
      GYRO_UPDATE_INTERVAL_MS_def)

end
