(* ===== verification/Spec2Isabelle.thy ===== *)
theory Spec2Isabelle
  imports
    Prelude Deque Signal Detector Peak_Machine Detector_Inv Operations Runs Lowpass Scaling
    Degenerate Text Display Server Firmware
begin

text \<open>
  \<^bold>\<open>A verification development for the pedometer\<close>
  (\<^verbatim>\<open>src/step_detector.py\<close>, \<^verbatim>\<open>src/main.py\<close>).

  \<^bold>\<open>The program.\<close> \<^verbatim>\<open>src/step_detector.py\<close> holds one class, \<^verbatim>\<open>StepDetector\<close>. Its
  method \<^verbatim>\<open>process_sample(ax, ay, az)\<close> takes the norm of an acceleration sample,
  appends it to a sliding window of norms, subtracts the mean of that window,
  pushes the result on the front of the low-pass window, filters with a fixed
  seven-tap kernel, tracks the sign of the slope of the filtered signal,
  appends the filtered value to the threshold window, and, once the norm and
  threshold windows are full, confirms maxima and minima against a noise floor
  and the mean of the threshold window; a confirmed maximum and a confirmed
  minimum together count one step. \<^verbatim>\<open>get_step_count\<close>, \<^verbatim>\<open>reset\<close>,
  \<^verbatim>\<open>reset_step_count\<close> and \<^verbatim>\<open>add_step\<close> read and write the count and the state.
  \<^verbatim>\<open>src/main.py\<close> is the firmware around it: it brings up the sensor, the
  display and the network, polls the sensor every 50 ms, calls
  \<^verbatim>\<open>process_sample\<close> under a catch-all exception handler, and serves the count
  over HTTP.

  \<^bold>\<open>The theories\<close>, in import order.
  \<^item> \<open>Prelude\<close>: the exceptions (\<open>py_error\<close>), the result type, the running mean
    and the list facts the windows need. Python floats are \<^typ>\<open>real\<close>; Python
    integers are \<^typ>\<open>int\<close>; sizes that the constructor has checked are \<^typ>\<open>nat\<close>.
  \<^item> \<open>Deque\<close>: \<^verbatim>\<open>collections.deque\<close> with a capacity, as the detector uses it
    (construction from a list, \<^verbatim>\<open>append\<close>, \<^verbatim>\<open>appendleft\<close>, \<^verbatim>\<open>clear\<close>, \<^verbatim>\<open>len\<close>).
    It is library code, modelled from its documented behaviour. Lemmas: the
    length invariant, the contents after each operation, and that
    construction keeps the last \<open>maxlen\<close> elements.
  \<^item> \<open>Signal\<close>: \<^verbatim>\<open>norm\<close> (\<open>norm3\<close>), \<^verbatim>\<open>block_dc\<close>, \<^verbatim>\<open>lp_filter\<close> and
    \<^verbatim>\<open>sign_of_slope\<close>. Lemmas: the kernel on seven taps, unity gain, the bound
    on the output, the scaling caused by the self-inclusive mean, homogeneity
    of the norm.
  \<^item> \<open>Detector\<close>: the record \<open>step_detector\<close> (one field per attribute), the
    constructor \<open>StepDetector\<close>, \<open>process_sample\<close> and the four controls. The
    body of \<^verbatim>\<open>process_sample\<close> is cut at its early returns into
    \<open>condition_sample\<close>, \<open>track_sample\<close> and \<open>detect\<close> (itself \<open>confirm_peak\<close>
    followed by \<open>count_pair\<close>); \<open>process_norm\<close> is the body after the norm has
    been taken. A call returns \<open>Inr\<close> of the new detector or \<open>Inl\<close> of the
    exception and the detector as the exception left it.
  \<^item> \<open>Peak_Machine\<close>: the abstract specification of peak confirmation and step
    pairing, a five-phase machine given as an inductive relation \<open>pm_step\<close> and
    as a function \<open>pm_next\<close>, with its reachable configurations and the
    invariant that ties the count to the number of confirmed peaks.
  \<^item> \<open>Detector_Inv\<close>: the abstraction \<open>phase_of\<close>, the observation \<open>observe\<close>, the
    refinement of the machine by \<^verbatim>\<open>process_sample\<close>, the invariant
    \<open>detector_inv\<close> and its preservation by every operation, the
    characterisation of both exceptions, gating of a counted step.
  \<^item> \<open>Operations\<close>: the interface of the class as its clients see it: the
    datatype \<open>operation\<close> of the five public methods, \<open>call\<close>, which applies
    one to a detector and gives the detector afterwards with the answer, the
    detectors \<open>reachable\<close> from a successful construction (an inductive
    predicate), and the typing \<open>typed\<close> of the attributes.
  \<^item> \<open>Runs\<close>: the detector over a list of samples and the run-level properties.
  \<^item> \<open>Lowpass\<close>: the low-pass stage against the signal: \<open>blocked_at\<close> is the
    DC-blocked value of the \<open>k\<close>-th norm of a run written out on the list of
    norms, \<open>seen\<close> the blocked values of a run from any detector, \<open>delayed\<close>
    the blocked signal some samples back and \<open>fir\<close> the seven-tap sum over
    it; none of them mentions the detector's windows.
  \<^item> \<open>Scaling\<close>: the detector under a change of the unit of acceleration.
  \<^item> \<open>Degenerate\<close>: window sizes with which the detector never counts.
  \<^item> \<open>Text\<close>: the library text functions the server calls (\<^verbatim>\<open>str\<close> of an
    integer, \<^verbatim>\<open>json.dumps\<close> of the one dictionary, the first element of
    \<^verbatim>\<open>split('\r\n')\<close>), modelled from their documented behaviour, with the
    readers that state their round trips.
  \<^item> \<open>Display\<close>: the display driver \<^verbatim>\<open>ssd1306\<close> at the level of labels (\<open>draw\<close>,
    \<open>oled\<close>, \<open>draw_on\<close>; a frame is a background with the labels written on
    it, \<^verbatim>\<open>show\<close> copies the frame buffer to the panel), what fits the panel
    (\<open>fits\<close>, \<open>visible\<close>), and the five screens \<^verbatim>\<open>src/main.py\<close> draws, each as the
    list of driver calls of its lines.
  \<^item> \<open>Server\<close>: \<^verbatim>\<open>src/main.py\<close>. The module globals \<^verbatim>\<open>krokomierz\<close>, \<^verbatim>\<open>steps\<close> and
    \<^verbatim>\<open>last_gyro_update_ms\<close> are the record \<open>server\<close>; \<open>boot\<close> is their initial
    value. \<open>poll\<close> is the sensor branch of the loop (lines 84 to 105),
    \<open>dispatch\<close> the router (lines 125 to 139), \<open>build_response\<close> the reply
    text (lines 141 to 157), \<open>serve\<close> and \<open>handle_connection\<close> the handling of
    one connection with its exception handlers, \<open>loop_body\<close> one iteration of
    \<^verbatim>\<open>while True\<close>, \<open>run_loop\<close> the loop over a list of inputs. What the
    devices deliver in an iteration is the record \<open>inputs\<close>: the clock, the
    sensor reading or \<open>None\<close> when reading raises, whether the display took
    the redraw, and the connection (\<open>None\<close>: \<^verbatim>\<open>accept\<close> raised; \<open>Some None\<close>:
    \<^verbatim>\<open>recv\<close> raised; \<open>Some (Some text)\<close>: the decoded request).
  \<^item> \<open>Firmware\<close>: the module body of \<^verbatim>\<open>src/main.py\<close> as a whole. \<open>bring_up\<close> is the
    \<^verbatim>\<open>try\<close> block of lines 24 to 32: its input \<open>hardware\<close> says which statement
    raises first, its result is the set of \<open>global\<close> names the block has
    bound and the screen it drew. \<open>connect_wifi\<close> (lines 34 to 63) draws
    through \<open>on_display\<close>, which raises \<^verbatim>\<open>NameError\<close> when \<^verbatim>\<open>display\<close> is unbound
    and \<^verbatim>\<open>OSError\<close> when the display rejects the drawing; \<open>wait_connected\<close> is
    its wait loop over the answers of \<^verbatim>\<open>isconnected\<close>, numbered by call.
    \<open>socket_setup\<close> is lines 70 to 76, \<open>main_program\<close> the statements up to
    the loop in their order. The record \<open>firmware\<close> adds the address and the
    display to \<open>server\<close>; \<open>redraw\<close> is what the polling branch draws,
    \<open>iterate\<close> and \<open>run_firmware\<close> are \<open>loop_body\<close> and \<open>run_loop\<close> with the
    display, and \<open>program\<close> is the module from start to any number of
    iterations. The invariant \<open>firmware_inv\<close> joins \<open>server_inv\<close>, reachability
    of the detector through its interface, and \<open>panel_ok\<close>. \<open>steady\<close>,
    \<open>healthy\<close>, \<open>lags\<close> and \<open>polls\<close> describe the clock along a stretch of the
    loop, \<open>fed\<close> the readings that reach the detector.
  \<^item> This theory: the walk of the specification's scenario, evaluated stride
    by stride and continued to walks of every length.

  \<^bold>\<open>What is shown.\<close> Refinement: one call moves \<open>phase_of\<close> as \<open>pm_next\<close> does and
  counts when it counts (C1), hence for a fresh detector the count is
  \<open>(confirmed peaks - 1) div 2\<close> (C2); the step event of the specification,
  evaluated on every sample, agrees with the code on every detector a run
  reaches (C20). Invariant: \<open>detector_inv\<close> is kept by every call (C3); after
  a run the low-pass window holds the blocked values of the run, newest
  first (C36), and the norm window the last norms in arrival order (C37).
  Types: every detector reachable through the interface is typed and every
  call answers within the type of its method (C17). Safety: the count is
  monotone (C4), nothing is counted before the windows are full (C5), a
  counted step cleared both gates (C6, C7), a constant signal counts nothing
  (C11). Liveness: steady walking is counted stride by stride, for walks of
  every length (C10). Reset: \<^verbatim>\<open>reset\<close> restores the constructed detector when
  \<^verbatim>\<open>lp_filter_size = 7\<close> (C8) and leaves a detector that never counts again
  when \<^verbatim>\<open>lp_filter_size > 7\<close> (C9). Errors: \<^verbatim>\<open>process_sample\<close> raises nothing
  when both capacities are positive (C12), \<^verbatim>\<open>IndexError\<close> exactly when the
  low-pass window has capacity 0 (C13), \<^verbatim>\<open>ZeroDivisionError\<close> exactly when
  the threshold window has capacity 0 and the filter runs (C14), and a call
  that raises has consumed the sample and changed nothing else (C15);
  construction fails exactly on a negative size (C16). Configuration: a
  change of unit does not change the count (C18); a norm window of at most
  one entry or a threshold window of at most two entries silences the
  detector (C19). Signal: the filtered value is the seven-tap sum over the
  blocked signal when \<^verbatim>\<open>lp_filter_size\<close> is at least 7 (C31) and the blocked
  signal delayed by \<^verbatim>\<open>lp_filter_size - 1\<close> samples when it is below 7 (C33);
  the filter never amplifies (C32); DC blocking against a window that holds
  the sample scales by \<open>n / (n + 1)\<close> (C34); the controls commute with
  detection (C35). Program: it ends before the loop with one of three
  exceptions or stays in the loop with \<open>firmware_inv\<close>, for all inputs (C21);
  it reaches the loop exactly when devices, display, link and socket were
  all there, and a failed bring-up ends in \<^verbatim>\<open>NameError\<close> (C22);
  \<^verbatim>\<open>connect_wifi\<close> waits at most 20 times and draws what it reports (C30).
  Loop: the reply to \<^verbatim>\<open>/zeruj\<close> is stale (C23), the reply to \<^verbatim>\<open>/dodaj\<close> is
  \<^verbatim>\<open>null\<close> (C24), every received request is answered and the \<^verbatim>\<open>text/html\<close>
  branch is dead (C25), a due poll synchronises \<^verbatim>\<open>steps\<close> with the detector
  (C26), the panel is redrawn exactly by a successful poll and then shows
  the new count (C27), the detector is, up to its count, the run over the
  readings of the due polls, whatever else happens in the loop (C28), the
  sensor is polled when the last poll is more than 50 ms old and at the
  latest one iteration after that, across the wrap-around of the clock
  (C29), the router reads the first ten characters of a request only (C38),
  the screen fits the panel for addresses of at most twelve characters
  (C39).

  \<^bold>\<open>Assumptions of the model.\<close> Arithmetic is exact: rounding, overflow of
  \<^verbatim>\<open>ax**2\<close>, NaN and infinities of IEEE doubles are not modelled. The deque
  follows CPython's \<^verbatim>\<open>collections.deque\<close>. The millisecond clock wraps at
  \<open>2^30\<close>, as \<^verbatim>\<open>time.ticks_ms\<close> does on the MicroPython ports; \<^verbatim>\<open>json.dumps\<close>
  writes \<^verbatim>\<open>": "\<close> after the key. A request is a list of 8-bit characters.
  The display draws glyphs of 8 by 8 pixels and clips at the panel; a screen
  whose drawing raises leaves the panel as it was, and the model leaves the
  frame buffer as it was too, which no later screen can tell because each
  begins with \<^verbatim>\<open>fill(0)\<close>. Every failure of the sensor read is the one input
  \<open>reading = None\<close>, every failure of a display or socket call \<^verbatim>\<open>OSError\<close>;
  constructor arguments are integers. During start-up the
  display either accepts every screen or rejects the first one it is given;
  the calls that configure the network interface do not raise.
  There is no fuel anywhere: every definition is a total function, the loop
  of \<^verbatim>\<open>connect_wifi\<close> is a recursion on \<^verbatim>\<open>max_wait\<close>, and the endless
  \<^verbatim>\<open>while True\<close> is \<open>run_loop\<close> over a finite list of inputs of any length, so
  the loop theorems hold after every number of iterations. Witnesses are
  evaluated by the simplifier on small configurations (windows of 4) or on
  the default one.

  \<^bold>\<open>Not modelled.\<close> The \<^verbatim>\<open>print\<close> calls and the sleeps. The drivers of the bus,
  the sensor, the display and the network, and the socket library, are not
  in the repository: what they answer enters the model as inputs, the
  display down to labels and not to pixels. Whether \<^verbatim>\<open>sendall\<close> delivered the
  reply. The imports, the password, the pin numbers and the three unused
  \<^verbatim>\<open>GYRO\<close> thresholds of \<^verbatim>\<open>src/main.py\<close> (lines 1 to 14 and 20 to 22), which
  are only handed to the drivers or never read.
\<close>

section \<open>The scenario of the specification\<close>

text \<open>
  Thirty samples at rest (norm 9.8), then four strides. A stride is one period
  of a triangular wave of amplitude 3 around 9.8 with a period of 20 samples;
  it stands in for the sinusoid of the specification, whose values are not
  rational.
\<close>

definition at_rest :: "real list" where
  "at_rest = replicate 30 (98 / 10)"

definition stride :: "real list" where
  "stride =
     [98 / 10, 104 / 10, 110 / 10, 116 / 10, 122 / 10, 128 / 10, 122 / 10, 116 / 10,
      110 / 10, 104 / 10, 98 / 10, 92 / 10, 86 / 10, 80 / 10, 74 / 10, 68 / 10,
      74 / 10, 80 / 10, 86 / 10, 92 / 10]"

definition walk :: "real list" where
  "walk = stride @ stride @ stride @ stride"

fun count_trace :: "step_detector \<Rightarrow> real list \<Rightarrow> int list" where
  "count_trace s [] = [step_count s]"
| "count_trace s (x # xs) = step_count s # count_trace (feed_norm s x) xs"

lemmas scenario_eval =
  at_rest_def stride_def default_detector_eq
  feed_norm_def state_of_def process_norm_def condition_sample_def track_sample_def
  detect_def confirm_peak_def count_pair_def peak_candidate_of_def
  deque_append_def deque_appendleft_def deque_len_def block_dc_def lp_filter_def
  sign_of_slope_def Let_def nth_numeral_Cons replicate_numeral

text \<open>
  The counts of the scenario, evaluated in the model: none at the end of the
  rest and after the first stride, then one more after each stride.
\<close>

lemma rest_then_walk:
  "map ((!) (count_trace default_detector (at_rest @ walk))) [30, 50, 70, 90, 110]
     = [0, 0, 1, 2, 3]"
  by (simp add: walk_def scenario_eval)

section \<open>Walking on\<close>

text \<open>
  After the rest and two strides the detector is in a periodic regime: one
  more stride brings back the same windows, slope and peak state, with one
  more step counted.
\<close>

definition strides :: "nat \<Rightarrow> real list" where
  "strides n = concat (replicate n stride)"

definition in_stride :: step_detector where
  "in_stride = run_norms default_detector (at_rest @ stride @ stride)"

lemma in_stride_count: "step_count in_stride = 1"
  by (simp add: in_stride_def scenario_eval)

lemma stride_period: "run_norms in_stride stride = in_stride\<lparr>step_count := 2\<rparr>"
  unfolding in_stride_def run_norms_append [symmetric]
  by (simp add: scenario_eval)

lemma run_strides: "run_norms in_stride (strides n) = in_stride\<lparr>step_count := 1 + int n\<rparr>"
proof (induction n)
  case 0
  have "in_stride\<lparr>step_count := step_count in_stride\<rparr> = in_stride" by simp
  then show ?case by (simp add: strides_def in_stride_count)
next
  case (Suc n)
  have "run_norms in_stride (strides (Suc n))
      = run_norms (in_stride\<lparr>step_count := 2\<rparr>) (strides n)"
    by (simp add: strides_def run_norms_append stride_period)
  also have "\<dots> = in_stride\<lparr>step_count := 1 + int (Suc n)\<rparr>"
    by (simp add: run_norms_count recount_def Suc in_stride_count)
  finally show ?case .
qed

lemma strides_nonneg: "\<forall>z\<in>set (at_rest @ strides n). 0 \<le> z"
  by (auto simp: strides_def at_rest_def stride_def)

text \<open>
  C10. Steady walking is counted stride by stride. After thirty samples at
  rest, \<open>n + 2\<close> strides (period 20 samples, amplitude 3 around 9.8) leave the
  default detector with exactly \<open>n + 1\<close> steps, for every \<open>n\<close>: the first stride
  arms the detector and every later stride counts one step, however long the
  walk.
\<close>

theorem walking_counts:
  "get_step_count (run default_detector (axis (at_rest @ strides (n + 2)))) = int n + 1"
proof -
  have "strides (n + 2) = stride @ stride @ strides n"
    by (simp add: strides_def)
  then have "run_norms default_detector (at_rest @ strides (n + 2))
      = run_norms in_stride (strides n)"
    by (simp add: in_stride_def run_norms_append)
  then show ?thesis
    by (simp add: run_axis [OF strides_nonneg] get_step_count_def run_strides)
qed

end
